(* ===== verification/JsPrelude.thy ===== *)
theory JsPrelude
  imports Complex_Main "HOL-Library.Word" "HOL-Library.List_Lexorder"
begin

text \<open>
  Shared ground of the development: JavaScript strings as lists of UTF-16 code units, the string
  operations the client uses (\<open>indexOf\<close>, \<open>slice\<close>, \<open>codePointAt\<close>, \<open>Array.from\<close>, the \<open><\<close> on
  strings), defaulting of absent values (\<open>x || ""\<close>), and the generic lemmas on lists and options the
  components share. \<open>List_Lexorder\<close> gives lists the lexicographic order, which on lists of 16-bit
  words is exactly JavaScript's order of strings.
\<close>

named_theorems js_eval "definitions that closed instances are evaluated with"
named_theorems doc_intros "preservation of the document invariants by the operations"

section \<open>Strings\<close>

type_synonym codeunit = "16 word"
type_synonym jsstring = "codeunit list"

definition js :: "string \<Rightarrow> jsstring" where
  [js_eval]: "js s = map of_char s"

definition colon :: codeunit where
  [js_eval]: "colon = 58"

text \<open>\<open>s.indexOf(c)\<close> for a single code unit: the first position, or \<open>-1\<close>.\<close>

fun index_of :: "codeunit \<Rightarrow> jsstring \<Rightarrow> int" where
  "index_of c [] = -1"
| "index_of c (u # us) =
     (if u = c then 0 else let i = index_of c us in if i < 0 then -1 else i + 1)"

text \<open>\<open>s.slice(i)\<close> and \<open>s.slice(i, j)\<close> for offsets that are not negative.\<close>

definition js_slice_from :: "jsstring \<Rightarrow> nat \<Rightarrow> jsstring" where
  [js_eval]: "js_slice_from s i = drop i s"

definition js_slice :: "jsstring \<Rightarrow> nat \<Rightarrow> nat \<Rightarrow> jsstring" where
  [js_eval]: "js_slice s i j = take (j - i) (drop i s)"

text \<open>\<open>x || ""\<close> for a string that may be absent, and \<open>x || 0\<close> for a number.\<close>

definition or_empty :: "jsstring option \<Rightarrow> jsstring" where
  [js_eval]: "or_empty v = (case v of None \<Rightarrow> [] | Some s \<Rightarrow> s)"

definition or_zero :: "nat option \<Rightarrow> nat" where
  [js_eval]: "or_zero v = (case v of None \<Rightarrow> 0 | Some n \<Rightarrow> n)"

lemma or_empty_simps [simp]: "or_empty None = []" "or_empty (Some s) = s"
  by (simp_all add: or_empty_def)

lemma or_zero_simps [simp]: "or_zero None = 0" "or_zero (Some n) = n"
  by (simp_all add: or_zero_def)

section \<open>Code points\<close>

definition is_high :: "codeunit \<Rightarrow> bool" where
  [js_eval]: "is_high u \<longleftrightarrow> 0xD800 \<le> u \<and> u \<le> 0xDBFF"

definition is_low :: "codeunit \<Rightarrow> bool" where
  [js_eval]: "is_low u \<longleftrightarrow> 0xDC00 \<le> u \<and> u \<le> 0xDFFF"

text \<open>\<open>s.codePointAt(i)\<close>; \<open>None\<close> is the \<open>undefined\<close> the call gives past the end.\<close>

definition code_point_at :: "jsstring \<Rightarrow> nat \<Rightarrow> nat option" where
  [js_eval]: "code_point_at s i =
     (if i < length s then
        (if Suc i < length s \<and> is_high (s ! i) \<and> is_low (s ! Suc i)
         then Some ((unat (s ! i) - 0xD800) * 0x400 + (unat (s ! Suc i) - 0xDC00) + 0x10000)
         else Some (unat (s ! i)))
      else None)"

text \<open>\<open>code > 0xffff ? 2 : 1\<close>, the number of code units of a code point.\<close>

definition cp_width :: "nat \<Rightarrow> nat" where
  [js_eval]: "cp_width cp = (if cp > 0xffff then 2 else 1)"

lemma unat_high: "is_high u \<Longrightarrow> 0xD800 \<le> unat u \<and> unat u \<le> 0xDBFF"
  by (simp add: is_high_def word_le_nat_alt)

lemma unat_low: "is_low u \<Longrightarrow> 0xDC00 \<le> unat u \<and> unat u \<le> 0xDFFF"
  by (simp add: is_low_def word_le_nat_alt)

lemma not_high_and_low: "is_high u \<Longrightarrow> \<not> is_low u"
  by (auto simp: is_high_def is_low_def word_le_nat_alt)

lemma unat_codeunit: "unat (u :: codeunit) \<le> 0xFFFF"
  using unsigned_less [of u, where ?'a = nat] by simp

lemma code_point_at_width:
  assumes "i < length s"
  shows "\<exists>cp. code_point_at s i = Some cp \<and>
    cp_width cp = (if Suc i < length s \<and> is_high (s ! i) \<and> is_low (s ! Suc i) then 2 else 1)"
  using assms unat_codeunit [of "s ! i"] by (auto simp: code_point_at_def cp_width_def)

section \<open>Lists\<close>

text \<open>\<open>push\<close> in a loop from the last index down to the first, on a stack kept with its top first.\<close>

lemma fold_push_rev [simp]: "fold (#) (rev ks) st = ks @ st"
  by (simp add: foldr_conv_fold [symmetric]) (induction ks, auto)

lemma concat_map_filter:
  "filter P (concat (map f xs)) = concat (map (\<lambda>x. filter P (f x)) xs)"
  by (induction xs) auto

lemma map_of_snoc:
  "map_of (ps @ [(k, v)]) x =
     (case map_of ps x of Some w \<Rightarrow> Some w | None \<Rightarrow> if x = k then Some v else None)"
  by (auto simp: map_add_def split: option.splits)

lemma card_map_of_le: "card (dom (map_of ps)) \<le> length ps"
  by (metis card_length dom_map_of_conv_image_fst length_map list.set_map)

lemma sorted_wrt_unique:
  assumes "sorted_wrt R xs" "sorted_wrt R ys" "set xs = set ys"
    and asym: "\<forall>x\<in>set xs. \<forall>y\<in>set xs. R x y \<longrightarrow> \<not> R y x"
  shows "xs = ys"
  using assms
proof (induction xs arbitrary: ys)
  case Nil
  then show ?case by simp
next
  case (Cons x xs)
  from Cons.prems(3) obtain y zs where ys: "ys = y # zs" by (cases ys) simp_all
  have xy: "x = y"
  proof (rule ccontr)
    assume "x \<noteq> y"
    with Cons.prems(3) ys have "y \<in> set xs" and "x \<in> set zs" by auto
    then show False using Cons.prems(1,2,4) ys by auto
  qed
  have "x \<notin> set xs" "y \<notin> set zs" using Cons.prems ys xy by auto
  then have "set xs = set zs" using Cons.prems(3) ys xy by auto
  with Cons.prems(1,2,4) ys have "xs = zs" by (intro Cons.IH) simp_all
  with ys xy show ?case by simp
qed

end
