(* ===== verification/JsNumber.thy ===== *)
theory JsNumber
  imports JsPrelude
begin

text \<open>
  The part of JavaScript's Number that \<open>static/crdt.js\<close> and \<open>static/app.js\<close> use: the conversion
  \<open>Number(s)\<close> of a string, rounding to a double, \<open>clock++\<close>, \<open>Number.isFinite\<close>,
  \<open>Number.isSafeInteger\<close> and the printing of a positive integer. A finite number is its exact
  rational value (the two zeros are one value). Doubles matter here because clocks above
  \<open>2 ^ 53\<close> are no longer consecutive.
\<close>

section \<open>Values\<close>

datatype jsnum = NaN | Infty bool | Fin rat

definition is_finite :: "jsnum \<Rightarrow> bool" where
  [js_eval]: "is_finite x = (case x of Fin _ \<Rightarrow> True | _ \<Rightarrow> False)"

section \<open>Rounding to a double\<close>

fun ilog2 :: "nat \<Rightarrow> nat" where
  "ilog2 n = (if n < 2 then 0 else Suc (ilog2 (n div 2)))"

declare ilog2.simps [simp del, js_eval]

text \<open>The quotient of two naturals rounded to the nearest integer, ties to even.\<close>

definition round_div :: "nat \<Rightarrow> nat \<Rightarrow> nat" where
  [js_eval]: "round_div p q =
     (let d = p div q; r = p mod q
      in if 2 * r < q then d else if q < 2 * r then d + 1 else if even d then d else d + 1)"

text \<open>\<open>floor (log2 (p / q))\<close> of a positive fraction.\<close>

definition floor_log2 :: "nat \<Rightarrow> nat \<Rightarrow> int" where
  [js_eval]: "floor_log2 p q =
     (if q \<le> p then int (ilog2 (p div q)) else - int (Suc (ilog2 ((q - 1) div p))))"

text \<open>The double nearest to \<open>p / q\<close>: 53 bits of mantissa, least exponent \<open>-1074\<close>.\<close>

definition double_of :: "nat \<Rightarrow> nat \<Rightarrow> jsnum" where
  [js_eval]: "double_of p q =
     (if p = 0 then Fin 0
      else let e = max (- 1074) (floor_log2 p q - 52);
               m = (if 0 \<le> e then round_div p (q * 2 ^ nat e) else round_div (p * 2 ^ nat (- e)) q)
           in if 0 \<le> e \<and> 2 ^ 1024 \<le> m * 2 ^ nat e then Infty False
              else if 0 \<le> e then Fin (of_nat (m * 2 ^ nat e))
              else Fin (of_nat m / 2 ^ nat (- e)))"

text \<open>An integer rounded to a double, and \<open>n++\<close> on an integer-valued double.\<close>

definition dround :: "nat \<Rightarrow> nat" where
  [js_eval]: "dround n = (let k = ilog2 n in if k \<le> 52 then n else round_div n (2 ^ (k - 52)) * 2 ^ (k - 52))"

definition num_inc :: "nat \<Rightarrow> nat" where
  [js_eval]: "num_inc n = dround (n + 1)"

definition max_exact :: nat where
  [js_eval]: "max_exact = 2 ^ 53"

section \<open>Number(s)\<close>

definition is_digit :: "codeunit \<Rightarrow> bool" where
  [js_eval]: "is_digit u \<longleftrightarrow> 48 \<le> u \<and> u \<le> 57"

definition digit_val :: "codeunit \<Rightarrow> nat" where
  [js_eval]: "digit_val u = unat u - 48"

definition digits_val :: "jsstring \<Rightarrow> nat" where
  [js_eval]: "digits_val s = foldl (\<lambda>a u. 10 * a + digit_val u) 0 s"

text \<open>White space and line terminators, which \<open>Number\<close> trims on both sides.\<close>

definition is_space :: "codeunit \<Rightarrow> bool" where
  [js_eval]: "is_space u \<longleftrightarrow>
     u \<in> {9, 10, 11, 12, 13, 32, 0xA0, 0x1680, 0x2028, 0x2029, 0x202F, 0x205F, 0x3000, 0xFEFF} \<or>
     (0x2000 \<le> u \<and> u \<le> 0x200A)"

definition js_trim :: "jsstring \<Rightarrow> jsstring" where
  [js_eval]: "js_trim s = rev (dropWhile is_space (rev (dropWhile is_space s)))"

text \<open>The value of a digit in base 2, 8 or 16; \<open>None\<close> for any other code unit.\<close>

definition radix_digit :: "nat \<Rightarrow> codeunit \<Rightarrow> nat option" where
  [js_eval]: "radix_digit b u =
     (let d = (if 48 \<le> u \<and> u \<le> 57 then Some (unat u - 48)
               else if 97 \<le> u \<and> u \<le> 102 then Some (unat u - 87)
               else if 65 \<le> u \<and> u \<le> 70 then Some (unat u - 55) else None)
      in case d of None \<Rightarrow> None | Some v \<Rightarrow> if v < b then Some v else None)"

fun radix_val :: "nat \<Rightarrow> nat \<Rightarrow> jsstring \<Rightarrow> nat option" where
  "radix_val b acc [] = Some acc"
| "radix_val b acc (u # us) =
     (case radix_digit b u of None \<Rightarrow> None | Some v \<Rightarrow> radix_val b (b * acc + v) us)"

definition parse_radix :: "nat \<Rightarrow> jsstring \<Rightarrow> jsnum" where
  [js_eval]: "parse_radix b ds =
     (if ds = [] then NaN
      else case radix_val b 0 ds of None \<Rightarrow> NaN | Some n \<Rightarrow> double_of n 1)"

text \<open>The exponent part: nothing, or \<open>e\<close> with an optional sign and at least one digit.\<close>

definition parse_exponent :: "jsstring \<Rightarrow> int option" where
  [js_eval]: "parse_exponent s =
     (case s of [] \<Rightarrow> Some 0
      | u # t \<Rightarrow>
          if u = 101 \<or> u = 69 then
            (let neg = (t \<noteq> [] \<and> hd t = 45);
                 ds = (if t \<noteq> [] \<and> (hd t = 45 \<or> hd t = 43) then tl t else t)
             in if ds \<noteq> [] \<and> list_all is_digit ds
                then Some (if neg then - int (digits_val ds) else int (digits_val ds)) else None)
          else None)"

text \<open>An unsigned decimal literal: its value rounded to a double.\<close>

definition parse_unsigned :: "jsstring \<Rightarrow> jsnum" where
  [js_eval]: "parse_unsigned s =
     (if s = js ''Infinity'' then Infty False
      else let ip = takeWhile is_digit s;
               r = dropWhile is_digit s;
               dot = (r \<noteq> [] \<and> hd r = 46);
               fp = (if dot then takeWhile is_digit (tl r) else []);
               r2 = (if dot then dropWhile is_digit (tl r) else r)
           in if ip = [] \<and> fp = [] then NaN
              else case parse_exponent r2 of None \<Rightarrow> NaN
                | Some x \<Rightarrow>
                    (let m = digits_val (ip @ fp); e = x - int (length fp)
                     in if 0 \<le> e then double_of (m * 10 ^ nat e) 1 else double_of m (10 ^ nat (- e))))"

fun num_neg :: "jsnum \<Rightarrow> jsnum" where
  "num_neg NaN = NaN"
| "num_neg (Infty b) = Infty (\<not> b)"
| "num_neg (Fin r) = Fin (- r)"

definition js_Number :: "jsstring \<Rightarrow> jsnum" where
  [js_eval]: "js_Number s0 =
     (case js_trim s0 of
        [] \<Rightarrow> Fin 0
      | u # t \<Rightarrow>
          if u = 48 \<and> t \<noteq> [] \<and> (hd t = 120 \<or> hd t = 88) then parse_radix 16 (tl t)
          else if u = 48 \<and> t \<noteq> [] \<and> (hd t = 111 \<or> hd t = 79) then parse_radix 8 (tl t)
          else if u = 48 \<and> t \<noteq> [] \<and> (hd t = 98 \<or> hd t = 66) then parse_radix 2 (tl t)
          else if u = 45 then num_neg (parse_unsigned t)
          else if u = 43 then parse_unsigned t
          else parse_unsigned (u # t))"

section \<open>Printing an integer\<close>

fun dec_digits :: "nat \<Rightarrow> nat list" where
  "dec_digits n = (if n < 10 then [n] else dec_digits (n div 10) @ [n mod 10])"

declare dec_digits.simps [simp del, js_eval]

definition digit_unit :: "nat \<Rightarrow> codeunit" where
  [js_eval]: "digit_unit d = of_nat (48 + d)"

definition dec_str :: "nat \<Rightarrow> jsstring" where
  [js_eval]: "dec_str n = map digit_unit (dec_digits n)"

text \<open>
  Above \<open>2 ^ 53\<close> a number prints as the shortest decimal that rounds back to it: with \<open>d\<close> decimal
  digits in all, the least \<open>k\<close> such that the nearest multiple of \<open>10 ^ (d - k)\<close> is rounded to the
  number again. From \<open>10 ^ 21\<close> on the digits are printed in exponent notation.
\<close>

definition shortest :: "nat \<Rightarrow> nat \<times> nat" where
  [js_eval]: "shortest n =
     (let d = length (dec_digits n);
          good = (\<lambda>k. dround (round_div n (10 ^ (d - k)) * 10 ^ (d - k)) = n);
          k = (case find good [1..<18] of None \<Rightarrow> 17 | Some k \<Rightarrow> k)
      in (round_div n (10 ^ (d - k)), d - k))"

definition num_str :: "nat \<Rightarrow> jsstring" where
  [js_eval]: "num_str n =
     (if n \<le> max_exact then dec_str n
      else case shortest n of (s, z) \<Rightarrow>
        let ds = dec_str s; e = length ds - 1 + z
        in if e < 21 then ds @ replicate z 48
           else hd ds # (if tl ds = [] then [] else 46 # tl ds) @ js ''e+'' @ dec_str e)"

section \<open>Facts about rounding\<close>

lemma ilog2_bounds: "0 < n \<Longrightarrow> 2 ^ ilog2 n \<le> n \<and> n < 2 ^ Suc (ilog2 n)"
proof (induction n rule: ilog2.induct)
  case (1 n)
  show ?case
  proof (cases "n < 2")
    case True
    with 1 show ?thesis by (simp add: ilog2.simps [of n])
  next
    case False
    with 1 have "2 ^ ilog2 (n div 2) \<le> n div 2 \<and> n div 2 < 2 ^ Suc (ilog2 (n div 2))" by simp
    moreover have "k \<le> n div 2 \<and> n div 2 < 2 * k \<Longrightarrow> 2 * k \<le> n \<and> n < 4 * k" for k :: nat
      by linarith
    ultimately show ?thesis using False by (simp add: ilog2.simps [of n])
  qed
qed

lemma ilog2_less: "n < 2 ^ k \<Longrightarrow> 0 < k \<Longrightarrow> ilog2 n < k"
proof (cases "n = 0")
  case False
  assume "n < 2 ^ k"
  then have "(2::nat) ^ ilog2 n < 2 ^ k" using ilog2_bounds [of n] False by linarith
  then show ?thesis by simp
qed (simp add: ilog2.simps)

lemma round_div_1 [simp]: "round_div p 1 = p" "round_div p (Suc 0) = p"
  by (simp_all add: round_div_def)

lemma double_of_exact:
  assumes "n \<le> max_exact"
  shows "double_of n 1 = Fin (of_nat n)"
proof -
  consider "n = 0" | "0 < n" "n < 2 ^ 53" | "n = 2 ^ 53"
    using assms by (fastforce simp: max_exact_def)
  then show ?thesis
  proof cases
    case 1
    then show ?thesis by (simp add: double_of_def)
  next
    case 2
    let ?l = "ilog2 n"
    have l: "?l \<le> 52" using ilog2_less [OF 2(2)] by simp
    have e: "max (- 1074) (floor_log2 n 1 - 52) = - int (52 - ?l)"
      using 2 l by (simp add: floor_log2_def)
    show ?thesis
    proof (cases "?l = 52")
      case True
      then show ?thesis using 2 e by (simp add: double_of_def Let_def)
    next
      case False
      then have "\<not> 0 \<le> - int (52 - ?l)" using l by simp
      moreover have "nat (- (- int (52 - ?l))) = 52 - ?l" by simp
      ultimately show ?thesis
        unfolding double_of_def e Let_def using 2 by simp
    qed
  next
    case 3
    then show ?thesis by (simp add: js_eval)
  qed
qed

lemma dround_exact: "n \<le> max_exact \<Longrightarrow> dround n = n"
proof -
  assume "n \<le> max_exact"
  then consider "n < 2 ^ 53" | "n = 2 ^ 53" by (fastforce simp: max_exact_def)
  then show ?thesis
    using ilog2_less [of n 53] by cases (simp_all add: js_eval)
qed

lemma num_inc_exact: "n < max_exact \<Longrightarrow> num_inc n = Suc n"
  by (simp add: num_inc_def dround_exact)

section \<open>Facts about decimal digits\<close>

lemma dec_digits_bound: "d \<in> set (dec_digits n) \<Longrightarrow> d < 10"
  by (induction n rule: dec_digits.induct) (subst (asm) (2) dec_digits.simps, auto split: if_splits)

lemma dec_digits_not_Nil [simp]: "dec_digits n \<noteq> []"
  by (subst dec_digits.simps) simp

lemma dec_digits_val: "foldl (\<lambda>a d. 10 * a + d) 0 (dec_digits n) = n"
proof (induction n rule: dec_digits.induct)
  case (1 n)
  show ?case
  proof (cases "n < 10")
    case True
    then show ?thesis by (simp add: dec_digits.simps [of n])
  next
    case False
    with 1 show ?thesis by (simp add: dec_digits.simps [of n])
  qed
qed

lemma unat_digit_unit: "d < 10 \<Longrightarrow> unat (digit_unit d) = 48 + d"
  by (simp add: digit_unit_def unat_of_nat del: of_nat_add)

lemma is_digit_digit_unit: "d < 10 \<Longrightarrow> is_digit (digit_unit d)"
  using unat_digit_unit [of d] by (simp add: is_digit_def word_le_nat_alt)

lemma dec_str_not_Nil [simp]: "dec_str n \<noteq> []"
  by (simp add: dec_str_def)

lemma dec_str_digits: "u \<in> set (dec_str n) \<Longrightarrow> is_digit u"
  by (auto simp: dec_str_def dest: dec_digits_bound intro: is_digit_digit_unit)

lemma digits_val_dec_str [simp]: "digits_val (dec_str n) = n"
proof -
  have "foldl (\<lambda>a u. 10 * a + digit_val u) a (map digit_unit ds) = foldl (\<lambda>a d. 10 * a + d) a ds"
    if "\<forall>d\<in>set ds. d < 10" for a ds
    using that by (induction ds arbitrary: a) (simp_all add: digit_val_def unat_digit_unit)
  then show ?thesis
    by (simp add: digits_val_def dec_str_def dec_digits_bound dec_digits_val)
qed

lemma digit_not_space: "is_digit u \<Longrightarrow> \<not> is_space u"
  by (auto simp: is_digit_def is_space_def word_le_nat_alt)

lemma dropWhile_none: "\<forall>u\<in>set s. \<not> P u \<Longrightarrow> dropWhile P s = s"
  by (cases s) simp_all

lemma js_trim_no_space: "\<forall>u\<in>set s. \<not> is_space u \<Longrightarrow> js_trim s = s"
  by (simp add: js_trim_def dropWhile_none)

lemma parse_unsigned_digits:
  assumes "ds \<noteq> []" "\<forall>u\<in>set ds. is_digit u"
  shows "parse_unsigned ds = double_of (digits_val ds) 1"
proof -
  have tw: "takeWhile is_digit ds = ds" and dw: "dropWhile is_digit ds = []"
    using assms by simp_all
  have "\<not> is_digit 73" by (simp add: is_digit_def)
  then have "ds \<noteq> js ''Infinity''" using assms(2) by (auto simp: js_def)
  then show ?thesis
    using assms(1) unfolding parse_unsigned_def Let_def tw dw by (simp add: parse_exponent_def)
qed

lemma js_Number_digits:
  assumes "ds \<noteq> []" "\<forall>u\<in>set ds. is_digit u"
  shows "js_Number ds = double_of (digits_val ds) 1"
proof -
  have t: "js_trim ds = ds"
    using assms(2) digit_not_space by (intro js_trim_no_space) auto
  obtain u t where ds: "ds = u # t" using assms(1) by (cases ds) auto
  have u: "u \<noteq> 45" "u \<noteq> 43" and ht: "t \<noteq> [] \<Longrightarrow> is_digit (hd t)"
    using assms(2) ds by (auto simp: is_digit_def)
  have "hd t \<notin> {120, 88, 111, 79, 98, 66}" if "t \<noteq> []"
    using ht [OF that] by (auto simp: is_digit_def)
  then show ?thesis
    using u t parse_unsigned_digits [OF assms] unfolding ds by (auto simp: js_Number_def)
qed

lemma js_Number_dec_str: "n \<le> max_exact \<Longrightarrow> js_Number (dec_str n) = Fin (of_nat n)"
  using js_Number_digits [of "dec_str n"] dec_str_digits double_of_exact by simp

lemma num_str_exact: "n \<le> max_exact \<Longrightarrow> num_str n = dec_str n"
  by (simp add: num_str_def)

end
