(* ===== verification/CrdtId.thy ===== *)
theory CrdtId
  imports JsNumber
begin

text \<open>
  Character identifiers (\<open>static/crdt.js\<close>, \<open>parseID\<close> to \<open>maxClockFromIds\<close>): the string
  \<open>site:clock\<close>, its parser and printer, the order of identifiers and the order of siblings.
  The locale \<open>sibling_order\<close> is what a sorted child list needs of that order; it is interpreted
  on \<open>compareSibling\<close> over the canonical identifiers, those the printer makes.
\<close>

section \<open>Parsing and printing\<close>

definition parseID :: "jsstring \<Rightarrow> (jsstring \<times> nat) option" where
  [js_eval]: "parseID iden =
     (if iden = [] then None
      else let i = index_of colon iden
           in if i \<le> 0 \<or> i = int (length iden) - 1 then None
              else let site = js_slice iden 0 (nat i);
                       clock = js_Number (js_slice_from iden (nat i + 1))
                   in case clock of
                        Fin r \<Rightarrow>
                          if site = [] \<or> r \<le> 0 \<or> r \<noteq> of_int \<lfloor>r\<rfloor> then None
                          else Some (site, nat \<lfloor>r\<rfloor>)
                      | _ \<Rightarrow> None)"

definition formatID :: "jsstring \<Rightarrow> nat \<Rightarrow> jsstring" where
  [js_eval]: "formatID site clock = site @ [colon] @ num_str clock"

section \<open>Orders\<close>

definition compareID :: "jsstring \<Rightarrow> jsstring \<Rightarrow> int" where
  [js_eval]: "compareID a b =
     (if a = b then 0
      else case (parseID a, parseID b) of
        (Some (sa, ca), Some (sb, cb)) \<Rightarrow>
          if sa < sb then -1 else if sb < sa then 1
          else if ca < cb then -1 else if cb < ca then 1 else 0
      | _ \<Rightarrow> if a < b then -1 else if b < a then 1 else 0)"

definition compareSibling :: "jsstring \<Rightarrow> jsstring \<Rightarrow> int" where
  [js_eval]: "compareSibling a b =
     (if a = b then 0
      else case (parseID a, parseID b) of
        (Some (sa, ca), Some (sb, cb)) \<Rightarrow>
          if cb < ca then -1 else if ca < cb then 1
          else if sa < sb then -1 else if sb < sa then 1 else 0
      | _ \<Rightarrow> compareID a b)"

definition maxClockFromIds :: "jsstring list \<Rightarrow> nat" where
  [js_eval]: "maxClockFromIds ids =
     fold (\<lambda>iden mx. case parseID iden of Some (_, c) \<Rightarrow> if mx < c then c else mx | None \<Rightarrow> mx) ids 0"

text \<open>An identifier as \<open>formatID\<close> prints it, with a clock that is still exact.\<close>

definition canonical_id :: "jsstring \<Rightarrow> bool" where
  [js_eval]: "canonical_id iden =
     (case parseID iden of None \<Rightarrow> False | Some (s, c) \<Rightarrow> c \<le> max_exact \<and> iden = formatID s c)"

section \<open>Sorted sibling lists over an interface\<close>

text \<open>
  The loop of \<open>insertChild\<close>: the first position whose sibling does not come before \<open>id\<close>, and the
  list with \<open>id\<close> spliced in there unless it is already at that position.
\<close>

fun sibling_pos :: "('a \<Rightarrow> 'a \<Rightarrow> int) \<Rightarrow> 'a list \<Rightarrow> 'a \<Rightarrow> nat" where
  "sibling_pos cmp [] iden = 0"
| "sibling_pos cmp (k # ks) iden = (if cmp k iden < 0 then Suc (sibling_pos cmp ks iden) else 0)"

definition insert_sibling :: "('a \<Rightarrow> 'a \<Rightarrow> int) \<Rightarrow> 'a list \<Rightarrow> 'a \<Rightarrow> 'a list" where
  [js_eval]: "insert_sibling cmp kids iden =
     (let i = sibling_pos cmp kids iden
      in if i < length kids \<and> kids ! i = iden then kids
         else take i kids @ iden # drop i kids)"

lemma insert_sibling_Nil [simp]: "insert_sibling cmp [] iden = [iden]"
  by (simp add: insert_sibling_def)

lemma insert_sibling_Cons [simp]:
  "insert_sibling cmp (k # ks) iden =
     (if cmp k iden < 0 then k # insert_sibling cmp ks iden
      else if k = iden then k # ks else iden # k # ks)"
  by (simp add: insert_sibling_def Let_def)

lemma set_insert_sibling [simp]: "set (insert_sibling cmp ks iden) = insert iden (set ks)"
  by (induction ks) auto

lemma insert_sibling_split:
  assumes "iden \<notin> set ks"
  shows "\<exists>pre suf. ks = pre @ suf \<and> insert_sibling cmp ks iden = pre @ iden # suf"
  using assms
proof (induction ks)
  case (Cons k ks)
  then obtain pre suf where IH: "ks = pre @ suf" "insert_sibling cmp ks iden = pre @ iden # suf"
    by auto
  show ?case
  proof (cases "cmp k iden < 0")
    case True
    with IH have "k # ks = (k # pre) @ suf \<and> insert_sibling cmp (k # ks) iden = (k # pre) @ iden # suf"
      by simp
    then show ?thesis by blast
  next
    case False
    with Cons.prems have "k # ks = [] @ k # ks \<and> insert_sibling cmp (k # ks) iden = [] @ iden # k # ks"
      by auto
    then show ?thesis by blast
  qed
qed simp

locale sibling_order =
  fixes cmp :: "'a \<Rightarrow> 'a \<Rightarrow> int"
    and carrier :: "'a set"
  assumes cmp_refl: "\<not> cmp a a < 0"
    and cmp_asym: "\<lbrakk>a \<in> carrier; b \<in> carrier; cmp a b < 0\<rbrakk> \<Longrightarrow> \<not> cmp b a < 0"
    and cmp_trans: "\<lbrakk>a \<in> carrier; b \<in> carrier; c \<in> carrier; cmp a b < 0; cmp b c < 0\<rbrakk> \<Longrightarrow> cmp a c < 0"
    and cmp_total: "\<lbrakk>a \<in> carrier; b \<in> carrier; a \<noteq> b\<rbrakk> \<Longrightarrow> cmp a b < 0 \<or> cmp b a < 0"
begin

lemma sorted_insert:
  assumes "sorted_wrt (\<lambda>a b. cmp a b < 0) ks" "set ks \<subseteq> carrier" "iden \<in> carrier"
  shows "sorted_wrt (\<lambda>a b. cmp a b < 0) (insert_sibling cmp ks iden)"
  using assms
proof (induction ks)
  case Nil
  then show ?case by simp
next
  case (Cons k ks)
  show ?case
  proof (cases "cmp k iden < 0")
    case True
    with Cons show ?thesis by auto
  next
    case False
    with Cons.prems cmp_total [of k iden] have "k = iden \<or> cmp iden k < 0" by auto
    with False Cons.prems show ?thesis by (auto intro: cmp_trans [of iden k])
  qed
qed

lemma sorted_unique:
  assumes "sorted_wrt (\<lambda>a b. cmp a b < 0) xs" "sorted_wrt (\<lambda>a b. cmp a b < 0) ys"
    and "set xs = set ys" "set xs \<subseteq> carrier"
  shows "xs = ys"
  using assms(4) cmp_asym by (intro sorted_wrt_unique [OF assms(1-3)]) blast

lemma sorted_distinct: "sorted_wrt (\<lambda>a b. cmp a b < 0) xs \<Longrightarrow> distinct xs"
  using cmp_refl by (induction xs) auto

lemma insert_first:
  assumes "\<forall>k\<in>set ks. cmp iden k < 0" "set ks \<subseteq> carrier" "iden \<in> carrier"
  shows "insert_sibling cmp ks iden = iden # ks"
proof (cases ks)
  case (Cons k ks')
  then have "\<not> cmp k iden < 0" "k \<noteq> iden"
    using assms cmp_asym [of iden k] cmp_refl [of iden] by auto
  with Cons show ?thesis by simp
qed simp

lemma insert_commute:
  assumes "sorted_wrt (\<lambda>a b. cmp a b < 0) ks" "set ks \<subseteq> carrier" "a \<in> carrier" "b \<in> carrier"
  shows "insert_sibling cmp (insert_sibling cmp ks a) b = insert_sibling cmp (insert_sibling cmp ks b) a"
  using assms sorted_insert by (intro sorted_unique) auto

end

section \<open>Canonical identifiers\<close>

lemma index_of_append:
  "c \<notin> set s \<Longrightarrow> index_of c (s @ c # t) = int (length s)"
  by (induction s) (auto simp: Let_def)

lemma parse_formatID_raw:
  assumes "site \<noteq> []" "colon \<notin> set site" "0 < c" "c \<le> max_exact"
  shows "parseID (formatID site c) = Some (site, c)"
proof -
  have i: "index_of colon (formatID site c) = int (length site)"
    using index_of_append [OF assms(2)] by (simp add: formatID_def)
  have n: "js_Number (js_slice_from (formatID site c) (nat (int (length site)) + 1)) = Fin (of_nat c)"
    using assms(4) by (simp add: formatID_def js_slice_from_def num_str_exact js_Number_dec_str)
  have l: "formatID site c \<noteq> []" "int (length site) \<noteq> int (length (formatID site c)) - 1"
    using assms(4) by (simp_all add: formatID_def num_str_exact)
  show ?thesis
    using assms(1,3) l unfolding parseID_def i Let_def n by (simp add: js_slice_def formatID_def)
qed

lemma parseID_site:
  assumes "parseID iden = Some (s, c)"
  shows "s \<noteq> [] \<and> 0 < c"
proof -
  obtain r :: rat where "\<not> r \<le> 0" "r = of_int \<lfloor>r\<rfloor>" "c = nat \<lfloor>r\<rfloor>" "s \<noteq> []"
    using assms by (auto simp: parseID_def Let_def split: if_splits jsnum.splits)
  moreover from this have "0 < \<lfloor>r\<rfloor>" by (metis not_le of_int_0_less_iff)
  ultimately show ?thesis by simp
qed

lemma parseID_nonempty: "parseID iden \<noteq> None \<Longrightarrow> iden \<noteq> []"
  by (auto simp: parseID_def)

lemma canonical_idE:
  assumes "canonical_id iden"
  obtains s c where "parseID iden = Some (s, c)" "iden = formatID s c" "0 < c" "c \<le> max_exact"
  using assms parseID_site by (fastforce simp: canonical_id_def split: option.splits)

lemma canonical_formatID:
  "\<lbrakk>site \<noteq> []; colon \<notin> set site; 0 < c; c \<le> max_exact\<rbrakk> \<Longrightarrow> canonical_id (formatID site c)"
  by (simp add: canonical_id_def parse_formatID_raw)

lemma canonical_parse_inj:
  "\<lbrakk>canonical_id a; canonical_id b; parseID a = parseID b\<rbrakk> \<Longrightarrow> a = b"
  by (metis canonical_idE option.inject prod.inject)

text \<open>On canonical identifiers the sibling order is the order of a key: clock down, site up.\<close>

definition id_site :: "jsstring \<Rightarrow> jsstring" where
  "id_site iden = fst (the (parseID iden))"

definition id_clock :: "jsstring \<Rightarrow> nat" where
  "id_clock iden = snd (the (parseID iden))"

lemma parseID_key: "canonical_id a \<Longrightarrow> parseID a = Some (id_site a, id_clock a)"
  by (auto simp: id_site_def id_clock_def canonical_id_def split: option.splits)

lemma key_inj: "\<lbrakk>canonical_id a; canonical_id b\<rbrakk> \<Longrightarrow> a = b \<longleftrightarrow> id_site a = id_site b \<and> id_clock a = id_clock b"
  using canonical_parse_inj parseID_key by metis

lemma compareSibling_key:
  assumes "canonical_id a" "canonical_id b"
  shows "compareSibling a b < 0 \<longleftrightarrow>
    id_clock b < id_clock a \<or> id_clock a = id_clock b \<and> id_site a < id_site b"
  using parseID_key [OF assms(1)] parseID_key [OF assms(2)] by (auto simp: compareSibling_def)

interpretation sib: sibling_order compareSibling "Collect canonical_id"
proof unfold_locales
  fix a :: jsstring
  show "\<not> compareSibling a a < 0" by (simp add: compareSibling_def)
next
  fix a b :: jsstring
  assume "a \<in> Collect canonical_id" "b \<in> Collect canonical_id" "compareSibling a b < 0"
  then show "\<not> compareSibling b a < 0" by (auto simp: compareSibling_key)
next
  fix a b c :: jsstring
  assume "a \<in> Collect canonical_id" "b \<in> Collect canonical_id" "c \<in> Collect canonical_id"
    and "compareSibling a b < 0" "compareSibling b c < 0"
  then show "compareSibling a c < 0" by (auto simp: compareSibling_key)
next
  fix a b :: jsstring
  assume "a \<in> Collect canonical_id" "b \<in> Collect canonical_id" "a \<noteq> b"
  then show "compareSibling a b < 0 \<or> compareSibling b a < 0"
    by (auto simp: compareSibling_key key_inj)
qed

section \<open>The greatest clock\<close>

lemma maxClock_fold:
  "fold (\<lambda>iden mx. case parseID iden of Some (_, c) \<Rightarrow> if mx < c then c else mx | None \<Rightarrow> mx) ids m
     = Max (insert m {c. \<exists>iden\<in>set ids. \<exists>s. parseID iden = Some (s, c)})"
proof (induction ids arbitrary: m)
  case Nil
  then show ?case by simp
next
  case (Cons iden ids)
  let ?S = "{c. \<exists>iden\<in>set ids. \<exists>s. parseID iden = Some (s, c)}"
  have fin: "finite ?S"
    by (rule finite_subset [of _ "(\<lambda>iden. snd (the (parseID iden))) ` set ids"]) (force simp: image_iff)+
  show ?case
  proof (cases "parseID iden")
    case None
    then have "{c. \<exists>x\<in>set (iden # ids). \<exists>s. parseID x = Some (s, c)} = ?S" by auto
    with None Cons show ?thesis by simp
  next
    case (Some sc)
    obtain s c where sc: "sc = (s, c)" by (cases sc)
    then have "{c. \<exists>x\<in>set (iden # ids). \<exists>s. parseID x = Some (s, c)} = insert c ?S"
      using Some by auto
    moreover have "Max (insert m (insert c ?S)) = Max (insert (if m < c then c else m) ?S)"
      using fin by (cases "?S = {}") (auto simp: max_def)
    ultimately show ?thesis using Some sc Cons by simp
  qed
qed

lemma maxClockFromIds_ge:
  assumes "iden \<in> set ids" "parseID iden = Some (s, c)"
  shows "c \<le> maxClockFromIds ids"
proof -
  have fin: "finite {c. \<exists>iden\<in>set ids. \<exists>s. parseID iden = Some (s, c)}"
    by (rule finite_subset [of _ "(\<lambda>iden. snd (the (parseID iden))) ` set ids"]) (force simp: image_iff)+
  then show ?thesis
    using assms unfolding maxClockFromIds_def maxClock_fold by (intro Max_ge) auto
qed

end
