(* ===== verification/CrdtDoc.thy ===== *)
theory CrdtDoc
  imports CrdtId
begin

text \<open>
  The document of \<open>static/crdt.js\<close> (\<open>Doc\<close> and its methods): a tree of character atoms stored as
  \<open>items\<close> (an object, here an association list in insertion order) and \<open>children\<close> (parent to
  sorted sibling list). Every method is one definition that returns the new document and its result;
  an error result leaves behind the partial effect the code leaves behind. An absent string field
  of an operation is the empty string, which the code treats alike in each of its tests.
\<close>

section \<open>Data\<close>

record item =
  it_id :: jsstring
  it_after :: jsstring
  it_ch :: jsstring
  it_del :: bool

record doc =
  items :: "(jsstring \<times> item) list"
  children :: "jsstring \<Rightarrow> jsstring list option"

record crdt_op =
  op_kind :: jsstring
  op_id :: jsstring
  op_after :: jsstring
  op_ch :: jsstring

record wire_item =
  wi_id :: jsstring
  wi_after :: jsstring
  wi_ch :: "jsstring option"
  wi_Value :: "jsstring option"
  wi_del :: bool
  wi_Deleted :: bool

datatype crdt_error =
  InvalidId | BadChar | UnknownParent | BadOp | UnknownOp | EmptyOps | BadItem | DuplicateItem

text \<open>The result of a batch: all applied, or the error, what was changed before it, and its index.\<close>

datatype batch_result = BatchOk bool | BatchErr crdt_error bool "nat option"

definition batch_ok :: "batch_result \<Rightarrow> bool" where
  [js_eval]: "batch_ok r = (case r of BatchOk _ \<Rightarrow> True | BatchErr _ _ _ \<Rightarrow> False)"

abbreviation ins_op :: "jsstring \<Rightarrow> jsstring \<Rightarrow> jsstring \<Rightarrow> crdt_op" where
  "ins_op i a c \<equiv> \<lparr>op_kind = js ''ins'', op_id = i, op_after = a, op_ch = c\<rparr>"

abbreviation del_op :: "jsstring \<Rightarrow> crdt_op" where
  "del_op i \<equiv> \<lparr>op_kind = js ''del'', op_id = i, op_after = [], op_ch = []\<rparr>"

section \<open>Code points of a string\<close>

definition singleCodePoint :: "jsstring \<Rightarrow> bool" where
  [js_eval]: "singleCodePoint ch =
     (case code_point_at ch 0 of None \<Rightarrow> False | Some cp \<Rightarrow> length ch = cp_width cp)"

text \<open>\<open>Array.from(s)\<close>: a surrogate pair is one element, every other code unit is one.\<close>

fun codePoints :: "jsstring \<Rightarrow> jsstring list" where
  "codePoints [] = []"
| "codePoints [u] = [[u]]"
| "codePoints (u # v # us) =
     (if is_high u \<and> is_low v then [u, v] # codePoints us else [u] # codePoints (v # us))"

section \<open>Operations\<close>

definition newDoc :: doc where
  [js_eval]: "newDoc = \<lparr>items = [], children = (\<lambda>_. None)\<rparr>"

definition get_item :: "doc \<Rightarrow> jsstring \<Rightarrow> item option" where
  [js_eval]: "get_item d i = map_of (items d) i"

definition kids :: "doc \<Rightarrow> jsstring \<Rightarrow> jsstring list" where
  [js_eval]: "kids d p = (case children d p of None \<Rightarrow> [] | Some ks \<Rightarrow> ks)"

definition doc_len :: "doc \<Rightarrow> nat" where
  [js_eval]: "doc_len d = length (map fst (items d))"

definition insertChild :: "doc \<Rightarrow> jsstring \<Rightarrow> jsstring \<Rightarrow> doc" where
  [js_eval]: "insertChild d parent i =
     d\<lparr>children := (children d)(parent \<mapsto> insert_sibling compareSibling (kids d parent) i)\<rparr>"

definition maxClock :: "doc \<Rightarrow> nat" where
  [js_eval]: "maxClock d = maxClockFromIds (map fst (items d))"

definition doc_insert :: "doc \<Rightarrow> jsstring \<Rightarrow> jsstring \<Rightarrow> jsstring \<Rightarrow> doc \<times> (crdt_error + bool)" where
  [js_eval]: "doc_insert d i after ch =
     (if parseID i = None then (d, Inl InvalidId)
      else if \<not> singleCodePoint ch then (d, Inl BadChar)
      else if get_item d i \<noteq> None then (d, Inr False)
      else if after \<noteq> [] \<and> get_item d after = None then (d, Inl UnknownParent)
      else (insertChild
              (d\<lparr>items := items d @ [(i, \<lparr>it_id = i, it_after = after, it_ch = ch, it_del = False\<rparr>)]\<rparr>)
              after i, Inr True))"

definition doc_delete :: "doc \<Rightarrow> jsstring \<Rightarrow> doc \<times> (crdt_error + bool)" where
  [js_eval]: "doc_delete d i =
     (case get_item d i of
        None \<Rightarrow> (d, Inr False)
      | Some it \<Rightarrow>
          if it_del it then (d, Inr False)
          else (d\<lparr>items := map (\<lambda>(k, x). if k = i then (k, x\<lparr>it_del := True\<rparr>) else (k, x)) (items d)\<rparr>,
                Inr True))"

definition doc_apply :: "doc \<Rightarrow> crdt_op \<Rightarrow> doc \<times> (crdt_error + bool)" where
  [js_eval]: "doc_apply d oper =
     (if op_kind oper = [] then (d, Inl BadOp)
      else if op_kind oper = js ''ins'' then doc_insert d (op_id oper) (op_after oper) (op_ch oper)
      else if op_kind oper = js ''del'' then
        (if parseID (op_id oper) = None then (d, Inl InvalidId) else doc_delete d (op_id oper))
      else (d, Inl UnknownOp))"

fun apply_loop :: "doc \<Rightarrow> crdt_op list \<Rightarrow> nat \<Rightarrow> bool \<Rightarrow> doc \<times> batch_result" where
  "apply_loop d [] k changed = (d, BatchOk changed)"
| "apply_loop d (x # xs) k changed =
     (case doc_apply d x of
        (d', Inl e) \<Rightarrow> (d', BatchErr e changed (Some k))
      | (d', Inr c) \<Rightarrow> apply_loop d' xs (Suc k) (changed \<or> c))"

definition applyBatch :: "doc \<Rightarrow> crdt_op list \<Rightarrow> doc \<times> batch_result" where
  [js_eval]: "applyBatch d ops =
     (if ops = [] then (d, BatchErr EmptyOps False None) else apply_loop d ops 0 False)"

section \<open>Traversal\<close>

text \<open>
  The explicit stack of \<open>walk\<close>, its top first: the children are pushed from the last to the first,
  and the callback sees the items in the order of the result. \<open>None\<close> means the fuel ran out; the
  traversal pops every identifier at most once, so one more than the number of items is enough
  (\<open>walk_returns\<close> below).
\<close>

fun walk_loop :: "nat \<Rightarrow> doc \<Rightarrow> jsstring list \<Rightarrow> item list option" where
  "walk_loop 0 d st = None"
| "walk_loop (Suc n) d stack =
     (case stack of
        [] \<Rightarrow> Some []
      | i # st \<Rightarrow>
          (case get_item d i of
             None \<Rightarrow> walk_loop n d st
           | Some it \<Rightarrow> map_option ((#) it) (walk_loop n d (fold (#) (rev (kids d i)) st))))"

definition walk :: "doc \<Rightarrow> jsstring \<Rightarrow> item list" where
  [js_eval]: "walk d parent =
     (case walk_loop (Suc (length (items d))) d (fold (#) (rev (kids d parent)) []) of
        None \<Rightarrow> [] | Some out \<Rightarrow> out)"

definition materialize :: "doc \<Rightarrow> jsstring" where
  [js_eval]: "materialize d = concat (map it_ch (filter (\<lambda>it. \<not> it_del it) (walk d [])))"

definition visibleIds :: "doc \<Rightarrow> jsstring list" where
  [js_eval]: "visibleIds d = map it_id (filter (\<lambda>it. \<not> it_del it) (walk d []))"

definition toItems :: "doc \<Rightarrow> wire_item list" where
  [js_eval]: "toItems d =
     map (\<lambda>it. \<lparr>wi_id = it_id it, wi_after = it_after it, wi_ch = Some (it_ch it), wi_Value = None,
                wi_del = it_del it, wi_Deleted = False\<rparr>) (walk d [])"

section \<open>Snapshots\<close>

text \<open>\<open>it.ch || it.Value\<close>, and \<open>it.ch != null ? it.ch : it.Value\<close>.\<close>

definition wi_checked :: "wire_item \<Rightarrow> jsstring" where
  [js_eval]: "wi_checked w = (if or_empty (wi_ch w) \<noteq> [] then or_empty (wi_ch w) else or_empty (wi_Value w))"

definition wi_stored :: "wire_item \<Rightarrow> jsstring" where
  [js_eval]: "wi_stored w = (case wi_ch w of Some c \<Rightarrow> c | None \<Rightarrow> or_empty (wi_Value w))"

definition wire_to_item :: "wire_item \<Rightarrow> item" where
  [js_eval]: "wire_to_item w =
     \<lparr>it_id = wi_id w, it_after = wi_after w, it_ch = wi_stored w, it_del = wi_del w \<or> wi_Deleted w\<rparr>"

fun from_register :: "doc \<Rightarrow> wire_item list \<Rightarrow> doc \<times> crdt_error option" where
  "from_register d [] = (d, None)"
| "from_register d (w # ws) =
     (if parseID (wi_id w) = None \<or> \<not> singleCodePoint (wi_checked w) then (d, Some BadItem)
      else if get_item d (wi_id w) \<noteq> None then (d, Some DuplicateItem)
      else from_register (d\<lparr>items := items d @ [(wi_id w, wire_to_item w)]\<rparr>) ws)"

fun from_link :: "doc \<Rightarrow> wire_item list \<Rightarrow> doc \<times> crdt_error option" where
  "from_link d [] = (d, None)"
| "from_link d (w # ws) =
     (if wi_after w \<noteq> [] \<and> get_item d (wi_after w) = None then (d, Some UnknownParent)
      else from_link (insertChild d (wi_after w) (wi_id w)) ws)"

definition fromItems :: "wire_item list \<Rightarrow> doc \<times> crdt_error option" where
  [js_eval]: "fromItems ws =
     (case from_register newDoc ws of
        (d, Some e) \<Rightarrow> (d, Some e)
      | (d, None) \<Rightarrow> from_link d ws)"

definition clone :: "doc \<Rightarrow> doc" where
  [js_eval]: "clone d = fst (fromItems (toItems d))"

fun build_loop :: "doc \<Rightarrow> jsstring \<Rightarrow> jsstring list \<Rightarrow> nat \<Rightarrow> jsstring \<Rightarrow> doc option" where
  "build_loop d site [] k prev = Some d"
| "build_loop d site (c # cs) k prev =
     (let i = formatID site (k + 1)
      in case doc_insert d i prev c of
           (d', Inl e) \<Rightarrow> None
         | (d', Inr _) \<Rightarrow> build_loop d' site cs (k + 1) i)"

definition buildFromString :: "jsstring \<Rightarrow> jsstring \<Rightarrow> doc option" where
  [js_eval]: "buildFromString site content = build_loop newDoc site (codePoints content) 0 []"

end
