(* ===== verification/CrdtInv.thy ===== *)
theory CrdtInv
  imports CrdtDoc
begin

text \<open>
  The invariant of a document and the traversal. \<open>wf_doc\<close> is kept by every operation and makes the
  explicit-stack traversal stop; \<open>walks\<close> is the traversal as a relation, on which the proofs about
  document order are done.
\<close>

section \<open>Well-formed documents\<close>

definition doc_ids :: "doc \<Rightarrow> jsstring set" where
  "doc_ids d = fst ` set (items d)"

definition wf_doc :: "doc \<Rightarrow> bool" where
  "wf_doc d \<longleftrightarrow>
     distinct (map fst (items d)) \<and>
     (\<forall>(k, it) \<in> set (items d). it_id it = k \<and> parseID k \<noteq> None) \<and>
     (\<forall>p. distinct (kids d p) \<and>
        (\<forall>k\<in>set (kids d p). (\<exists>it. get_item d k = Some it \<and> it_after it = p) \<and>
           (p = [] \<or> get_item d p \<noteq> None)))"

lemma doc_ids_get_item: "k \<in> doc_ids d \<longleftrightarrow> get_item d k \<noteq> None"
  by (simp add: doc_ids_def get_item_def map_of_eq_None_iff)

lemma get_item_in_set: "get_item d k = Some it \<Longrightarrow> (k, it) \<in> set (items d)"
  by (simp add: get_item_def map_of_SomeD)

lemma wf_get_item: "\<lbrakk>wf_doc d; get_item d k = Some it\<rbrakk> \<Longrightarrow> it_id it = k \<and> parseID k \<noteq> None \<and> k \<noteq> []"
  using get_item_in_set [of d k it] parseID_nonempty [of k] unfolding wf_doc_def by auto

lemma wf_kids:
  "\<lbrakk>wf_doc d; k \<in> set (kids d p)\<rbrakk> \<Longrightarrow> \<exists>it. get_item d k = Some it \<and> it_after it = p"
  by (simp add: wf_doc_def)

lemma wf_kids_ids: "wf_doc d \<Longrightarrow> set (kids d p) \<subseteq> doc_ids d"
  using wf_kids [of d _ p] by (fastforce simp: doc_ids_get_item)

lemma wf_kids_distinct: "wf_doc d \<Longrightarrow> distinct (kids d p)"
  by (simp add: wf_doc_def)

lemma wf_parent: "\<lbrakk>wf_doc d; k \<in> set (kids d p)\<rbrakk> \<Longrightarrow> p = [] \<or> p \<in> doc_ids d"
  by (auto simp: wf_doc_def doc_ids_get_item)

lemma wf_kids_unknown: "\<lbrakk>wf_doc d; get_item d p = None; p \<noteq> []\<rbrakk> \<Longrightarrow> kids d p = []"
  using wf_parent [of d "hd (kids d p)" p] by (cases "kids d p") (auto simp: doc_ids_get_item)

lemma get_item_newDoc [simp]: "get_item newDoc k = None"
  by (simp add: newDoc_def get_item_def)

lemma kids_newDoc [simp]: "kids newDoc p = []"
  by (simp add: newDoc_def kids_def)

lemma wf_newDoc [doc_intros]: "wf_doc newDoc"
  by (simp add: wf_doc_def) (simp add: newDoc_def)

lemma get_item_insertChild [simp]: "get_item (insertChild d p i) k = get_item d k"
  by (simp add: insertChild_def get_item_def)

lemma items_insertChild [simp]: "items (insertChild d p i) = items d"
  by (simp add: insertChild_def)

lemma kids_insertChild [simp]:
  "kids (insertChild d p i) q = (if q = p then insert_sibling compareSibling (kids d p) i else kids d q)"
  by (simp add: insertChild_def kids_def)

lemma get_item_add [simp]:
  "get_item (d\<lparr>items := items d @ [(i, it)]\<rparr>) k =
     (case get_item d k of Some x \<Rightarrow> Some x | None \<Rightarrow> if k = i then Some it else None)"
  by (simp add: get_item_def map_of_snoc del: map_of_append)

lemma kids_items_update [simp]: "kids (d\<lparr>items := xs\<rparr>) p = kids d p"
  by (simp add: kids_def)

lemma distinct_insert_sibling: "\<lbrakk>distinct ks; i \<notin> set ks\<rbrakk> \<Longrightarrow> distinct (insert_sibling cmp ks i)"
  by (induction ks) auto

lemma wf_add_item:
  assumes "wf_doc d" "get_item d i = None" "it_id it = i" "parseID i \<noteq> None"
  shows "wf_doc (d\<lparr>items := items d @ [(i, it)]\<rparr>)"
proof -
  have ni: "i \<notin> fst ` set (items d)" using assms(2) doc_ids_get_item by (auto simp: doc_ids_def)
  have "(\<exists>x. get_item (d\<lparr>items := items d @ [(i, it)]\<rparr>) k = Some x \<and> it_after x = p) \<and>
      (p = [] \<or> get_item (d\<lparr>items := items d @ [(i, it)]\<rparr>) p \<noteq> None)"
    if "k \<in> set (kids d p)" for k p
    using wf_kids [OF assms(1) that] wf_parent [OF assms(1) that] by (auto simp: doc_ids_get_item)
  then show ?thesis
    using assms ni unfolding wf_doc_def by (auto simp: image_iff simp del: get_item_add)
qed

lemma wf_insertChild:
  assumes "wf_doc d" "get_item d i = Some it" "it_after it = p" "i \<notin> set (kids d p)"
    and "p = [] \<or> get_item d p \<noteq> None"
  shows "wf_doc (insertChild d p i)"
  using assms unfolding wf_doc_def by (auto simp: distinct_insert_sibling)

lemma wf_doc_insert [doc_intros]:
  assumes "wf_doc d"
  shows "wf_doc (fst (doc_insert d i after ch))"
proof -
  let ?it = "\<lparr>it_id = i, it_after = after, it_ch = ch, it_del = False\<rparr>"
  have "wf_doc (insertChild (d\<lparr>items := items d @ [(i, ?it)]\<rparr>) after i)"
    if "parseID i \<noteq> None" "get_item d i = None" "after = [] \<or> get_item d after \<noteq> None"
    using assms that wf_kids [OF assms, of i after]
    by (intro wf_insertChild [where it = ?it] wf_add_item) auto
  then show ?thesis using assms unfolding doc_insert_def by auto
qed

lemma map_of_map_del:
  "map_of (map (\<lambda>(k, x). if k = i then (k, f x) else (k, x)) ps) j =
     (if j = i then map_option f (map_of ps j) else map_of ps j)"
  by (induction ps) auto

lemma get_item_delete:
  "get_item (fst (doc_delete d i)) k =
     (if k = i then map_option (it_del_update (\<lambda>_. True)) (get_item d k) else get_item d k)"
proof (cases "get_item d i")
  case None
  then show ?thesis by (simp add: doc_delete_def)
next
  case (Some it)
  then show ?thesis
    by (cases "it_del it") (auto simp: doc_delete_def map_of_map_del get_item_def)
qed

lemma kids_delete [simp]: "kids (fst (doc_delete d i)) p = kids d p"
  by (auto simp: doc_delete_def split: option.splits)

lemma items_delete_fst [simp]: "map fst (items (fst (doc_delete d i))) = map fst (items d)"
  by (auto simp: doc_delete_def split: option.splits)

lemma items_delete_set:
  "(k, it) \<in> set (items (fst (doc_delete d i))) \<Longrightarrow> \<exists>it0. (k, it0) \<in> set (items d) \<and> it_id it = it_id it0"
  by (auto simp: doc_delete_def split: option.splits if_splits)

lemma wf_doc_delete [doc_intros]: "wf_doc d \<Longrightarrow> wf_doc (fst (doc_delete d i))"
  unfolding wf_doc_def using items_delete_set [of _ _ d i]
  by (fastforce simp: get_item_delete)

lemma wf_doc_apply [doc_intros]: "wf_doc d \<Longrightarrow> wf_doc (fst (doc_apply d x))"
  by (auto simp: doc_apply_def intro: doc_intros)

lemma wf_apply_loop [doc_intros]: "wf_doc d \<Longrightarrow> wf_doc (fst (apply_loop d xs k c))"
proof (induction xs arbitrary: d k c)
  case (Cons x xs)
  then show ?case using wf_doc_apply [OF Cons.prems, of x]
    by (auto split: prod.splits sum.splits)
qed simp

lemma wf_applyBatch [doc_intros]: "wf_doc d \<Longrightarrow> wf_doc (fst (applyBatch d xs))"
  by (auto simp: applyBatch_def intro: doc_intros)


section \<open>Snapshots and built documents\<close>

lemma from_register_result:
  assumes "from_register d ws = (d', r)"
  shows "children d' = children d \<and>
    (\<exists>us vs. ws = us @ vs \<and> items d' = items d @ map (\<lambda>w. (wi_id w, wire_to_item w)) us \<and>
       (r = None \<longrightarrow> vs = []))"
  using assms
proof (induction ws arbitrary: d)
  case Nil
  then show ?case by simp
next
  case (Cons w ws)
  show ?case
  proof (cases "parseID (wi_id w) = None \<or> \<not> singleCodePoint (wi_checked w) \<or> get_item d (wi_id w) \<noteq> None")
    case True
    with Cons.prems have "d' = d \<and> r \<noteq> None" by (auto split: if_splits)
    then show ?thesis by (intro conjI exI [of _ "[]"] exI [of _ "w # ws"]) simp_all
  next
    case False
    let ?d1 = "d\<lparr>items := items d @ [(wi_id w, wire_to_item w)]\<rparr>"
    from False Cons.prems have "from_register ?d1 ws = (d', r)" by auto
    from Cons.IH [OF this] obtain us vs where "children d' = children d" "ws = us @ vs"
      "items d' = items ?d1 @ map (\<lambda>w. (wi_id w, wire_to_item w)) us" "r = None \<longrightarrow> vs = []"
      by auto
    then show ?thesis by (intro conjI exI [of _ "w # us"] exI [of _ vs]) simp_all
  qed
qed

lemma wf_from_register [doc_intros]:
  "\<lbrakk>wf_doc d; from_register d ws = (d', r)\<rbrakk> \<Longrightarrow> wf_doc d'"
proof (induction ws arbitrary: d)
  case (Cons w ws)
  show ?case
  proof (cases "parseID (wi_id w) = None \<or> \<not> singleCodePoint (wi_checked w) \<or> get_item d (wi_id w) \<noteq> None")
    case True
    with Cons.prems show ?thesis by (auto split: if_splits)
  next
    case False
    then have "wf_doc (d\<lparr>items := items d @ [(wi_id w, wire_to_item w)]\<rparr>)"
      using Cons.prems(1) by (intro wf_add_item) (auto simp: wire_to_item_def)
    with False Cons show ?thesis by auto
  qed
qed simp

lemma wf_from_link:
  assumes "wf_doc d" "distinct (map wi_id ws)"
    and "\<forall>w\<in>set ws. (\<exists>it. get_item d (wi_id w) = Some it \<and> it_after it = wi_after w) \<and>
      wi_id w \<notin> set (kids d (wi_after w))"
  shows "wf_doc (fst (from_link d ws))"
  using assms
proof (induction ws arbitrary: d)
  case (Cons w ws)
  let ?d1 = "insertChild d (wi_after w) (wi_id w)"
  show ?case
  proof (cases "wi_after w \<noteq> [] \<and> get_item d (wi_after w) = None")
    case True
    with Cons.prems(1) show ?thesis by simp
  next
    case False
    obtain it where "get_item d (wi_id w) = Some it" "it_after it = wi_after w"
      "wi_id w \<notin> set (kids d (wi_after w))"
      using Cons.prems(3) by auto
    with False have "wf_doc ?d1" by (intro wf_insertChild [OF Cons.prems(1)]) auto
    moreover have "\<forall>v\<in>set ws. (\<exists>it. get_item ?d1 (wi_id v) = Some it \<and> it_after it = wi_after v) \<and>
        wi_id v \<notin> set (kids ?d1 (wi_after v))"
      using Cons.prems(2,3) by (auto simp: image_iff)
    ultimately have "wf_doc (fst (from_link ?d1 ws))"
      using Cons.prems(2) by (intro Cons.IH) auto
    with False show ?thesis by auto
  qed
qed simp

lemma get_item_register:
  assumes "items d = map (\<lambda>w. (wi_id w, wire_to_item w)) ws" "distinct (map wi_id ws)" "w \<in> set ws"
  shows "get_item d (wi_id w) = Some (wire_to_item w)"
proof -
  have "distinct (map fst (items d))" using assms(1,2) by (simp add: comp_def)
  then show ?thesis using assms(1,3) by (auto simp: get_item_def intro!: map_of_is_SomeI)
qed

lemma wf_fromItems [doc_intros]: "wf_doc (fst (fromItems ws))"
proof -
  obtain d r where reg: "from_register newDoc ws = (d, r)" by (cases "from_register newDoc ws")
  have wf: "wf_doc d" using wf_from_register [OF wf_newDoc reg] .
  show ?thesis
  proof (cases r)
    case (Some e)
    with reg wf show ?thesis by (simp add: fromItems_def)
  next
    case None
    with from_register_result [OF reg]
    have its: "items d = map (\<lambda>w. (wi_id w, wire_to_item w)) ws" and ch: "children d = (\<lambda>_. None)"
      by (auto simp: newDoc_def)
    have dist: "distinct (map wi_id ws)" using wf its by (simp add: wf_doc_def comp_def)
    have "wf_doc (fst (from_link d ws))"
      using get_item_register [OF its dist] ch
      by (intro wf_from_link [OF wf dist]) (auto simp: wire_to_item_def kids_def)
    with reg None show ?thesis by (simp add: fromItems_def)
  qed
qed

lemma wf_clone [doc_intros]: "wf_doc (clone d)"
  by (simp add: clone_def wf_fromItems)

lemma wf_build_loop: "\<lbrakk>wf_doc d; build_loop d site cs k prev = Some d'\<rbrakk> \<Longrightarrow> wf_doc d'"
proof (induction cs arbitrary: d k prev)
  case (Cons c cs)
  then show ?case
    using wf_doc_insert [OF Cons.prems(1), of "formatID site (k + 1)" prev c]
    by (auto simp: Let_def split: prod.splits sum.splits)
qed simp

lemma wf_buildFromString [doc_intros]: "buildFromString site s = Some d \<Longrightarrow> wf_doc d"
  unfolding buildFromString_def by (rule wf_build_loop [OF wf_newDoc])

section \<open>The traversal as a relation\<close>

inductive walks :: "doc \<Rightarrow> jsstring list \<Rightarrow> item list \<Rightarrow> bool" for d where
  walks_Nil: "walks d [] []"
| walks_skip: "\<lbrakk>get_item d i = None; walks d st out\<rbrakk> \<Longrightarrow> walks d (i # st) out"
| walks_item: "\<lbrakk>get_item d i = Some it; walks d (kids d i @ st) out\<rbrakk> \<Longrightarrow> walks d (i # st) (it # out)"

inductive_simps walks_Nil_iff [simp]: "walks d [] out"
inductive_simps walks_Cons_iff: "walks d (i # st) out"
inductive_cases walks_ConsE: "walks d (i # st) out"

lemma walks_loop: "walk_loop n d st = Some out \<Longrightarrow> walks d st out"
proof (induction n arbitrary: st out)
  case (Suc n)
  then show ?case
    by (auto split: list.splits option.splits intro: walks.intros)
qed simp

lemma walks_deterministic: "\<lbrakk>walks d st out; walks d st out'\<rbrakk> \<Longrightarrow> out = out'"
proof (induction arbitrary: out' rule: walks.induct)
  case (walks_skip i st out)
  from walks_skip.prems walks_skip.hyps(1) have "walks d st out'" by (simp add: walks_Cons_iff)
  then show ?case by (rule walks_skip.IH)
next
  case (walks_item i it st out)
  from walks_item.prems walks_item.hyps(1) obtain o2 where "out' = it # o2" "walks d (kids d i @ st) o2"
    by (auto simp: walks_Cons_iff)
  with walks_item.IH show ?case by simp
qed simp

text \<open>
  The fuel: a popped identifier is an item, no identifier is popped twice because it is a child of
  one parent only, and the root \<open>""\<close> is no item. \<open>V\<close> is the set of identifiers popped so far.
\<close>

lemma walk_loop_enough:
  assumes wf: "wf_doc d"
    and "distinct st" "set st \<subseteq> doc_ids d" "V \<inter> set st = {}"
    and "\<forall>k\<in>V \<union> set st. \<forall>it. get_item d k = Some it \<longrightarrow> it_after it = [] \<or> it_after it \<in> V"
    and "card (doc_ids d - V) < n"
  shows "\<exists>out. walk_loop n d st = Some out"
  using assms(2-)
proof (induction n arbitrary: st V)
  case (Suc n)
  show ?case
  proof (cases st)
    case (Cons i st')
    then obtain it where it: "get_item d i = Some it" "i \<noteq> []"
      using Suc.prems(2) wf_get_item [OF wf] doc_ids_get_item by fastforce
    have iV: "i \<notin> V" "i \<in> doc_ids d" using Suc.prems(2,3) Cons by auto
    have kid: "\<exists>x. get_item d k = Some x \<and> it_after x = i" if "k \<in> set (kids d i)" for k
      using wf_kids [OF wf that] .
    have fresh: "k \<notin> V \<union> set st" if "k \<in> set (kids d i)" for k
      using kid [OF that] Suc.prems(4) it(2) iV(1) by auto
    have fin: "finite (doc_ids d - V)" by (simp add: doc_ids_def)
    have "\<exists>out. walk_loop n d (kids d i @ st') = Some out"
    proof (rule Suc.IH [of _ "insert i V"])
      show "distinct (kids d i @ st')"
        using Suc.prems(1) Cons fresh wf_kids_distinct [OF wf] by auto
      show "set (kids d i @ st') \<subseteq> doc_ids d"
        using Suc.prems(2) Cons wf_kids_ids [OF wf] by auto
      show "insert i V \<inter> set (kids d i @ st') = {}"
        using Suc.prems(1,3) Cons fresh by auto
      show "\<forall>k\<in>insert i V \<union> set (kids d i @ st'). \<forall>x. get_item d k = Some x \<longrightarrow>
          it_after x = [] \<or> it_after x \<in> insert i V"
        using Suc.prems(4) Cons kid by fastforce
      have "card (doc_ids d - insert i V) < card (doc_ids d - V)"
        using fin iV by (intro psubset_card_mono) auto
      with Suc.prems(5) show "card (doc_ids d - insert i V) < n" by linarith
    qed
    with it Cons show ?thesis by auto
  qed simp
qed simp

lemma walk_loop_root: "wf_doc d \<Longrightarrow> \<exists>out. walk_loop (Suc (length (items d))) d (kids d []) = Some out"
proof (rule walk_loop_enough [where V = "{}"])
  assume wf: "wf_doc d"
  show "distinct (kids d [])" by (rule wf_kids_distinct [OF wf])
  show "set (kids d []) \<subseteq> doc_ids d" by (rule wf_kids_ids [OF wf])
  show "\<forall>k\<in>{} \<union> set (kids d []). \<forall>it. get_item d k = Some it \<longrightarrow> it_after it = [] \<or> it_after it \<in> {}"
    using wf_kids [OF wf] by fastforce
  show "card (doc_ids d - {}) < Suc (length (items d))"
    by (simp add: doc_ids_def less_Suc_eq_le) (metis card_length length_map list.set_map)
qed auto

lemma walks_walk: "wf_doc d \<Longrightarrow> walks d (kids d []) (walk d [])"
proof -
  assume "wf_doc d"
  then obtain out where out: "walk_loop (Suc (length (items d))) d (kids d []) = Some out"
    using walk_loop_root by blast
  then have "walk d [] = out" by (simp add: walk_def del: walk_loop.simps)
  with walks_loop [OF out] show ?thesis by simp
qed

lemma walk_eqI: "\<lbrakk>wf_doc d; walks d (kids d []) out\<rbrakk> \<Longrightarrow> walk d [] = out"
  using walks_walk walks_deterministic by blast

end
