(* ===== verification/CrdtOrder.thy ===== *)
theory CrdtOrder
  imports CrdtInv
begin

text \<open>
  Document order: what the traversal returns, and how an insert and a delete change it. An insert
  keeps the relative order of everything already there; an insert with the greatest clock among
  its siblings lands immediately after its parent.
\<close>

section \<open>What the traversal returns\<close>

definition order :: "doc \<Rightarrow> jsstring list" where
  "order d = map it_id (walk d [])"

lemma walks_items: "walks d st out \<Longrightarrow> wf_doc d \<Longrightarrow> it \<in> set out \<Longrightarrow> get_item d (it_id it) = Some it"
  by (induction rule: walks.induct) (auto dest: wf_get_item)

lemma walks_closed:
  assumes "walks d st out" "wf_doc d"
    and "distinct st" "set st \<subseteq> doc_ids d" "V \<inter> set st = {}"
    and "\<forall>k\<in>V \<union> set st. \<forall>it. get_item d k = Some it \<longrightarrow> it_after it = [] \<or> it_after it \<in> V"
  shows "distinct (map it_id out) \<and> it_id ` set out \<inter> V = {} \<and> set st \<subseteq> it_id ` set out \<and>
    (\<forall>k\<in>it_id ` set out. set (kids d k) \<subseteq> it_id ` set out)"
  using assms
proof (induction arbitrary: V rule: walks.induct)
  case walks_Nil
  then show ?case by simp
next
  case (walks_skip i st out)
  then show ?case by (auto simp: doc_ids_get_item)
next
  case (walks_item i it st out)
  note wf = walks_item.prems(1)
  have ii: "it_id it = i" "i \<noteq> []" using wf_get_item [OF wf walks_item.hyps(1)] by auto
  have iV: "i \<notin> V" using walks_item.prems(4) by auto
  have kid: "\<exists>x. get_item d k = Some x \<and> it_after x = i" if "k \<in> set (kids d i)" for k
    using wf_kids [OF wf that] .
  have fresh: "k \<notin> V \<union> set (i # st)" if "k \<in> set (kids d i)" for k
    using kid [OF that] walks_item.prems(5) ii(2) iV by auto
  have IH: "distinct (map it_id out) \<and> it_id ` set out \<inter> insert i V = {} \<and>
      set (kids d i @ st) \<subseteq> it_id ` set out \<and>
      (\<forall>k\<in>it_id ` set out. set (kids d k) \<subseteq> it_id ` set out)"
  proof (rule walks_item.IH [OF wf])
    show "distinct (kids d i @ st)"
      using walks_item.prems(2) fresh wf_kids_distinct [OF wf] by auto
    show "set (kids d i @ st) \<subseteq> doc_ids d"
      using walks_item.prems(3) wf_kids_ids [OF wf] by auto
    show "insert i V \<inter> set (kids d i @ st) = {}"
      using walks_item.prems(2,4) fresh by auto
    show "\<forall>k\<in>insert i V \<union> set (kids d i @ st). \<forall>x. get_item d k = Some x \<longrightarrow>
        it_after x = [] \<or> it_after x \<in> insert i V"
      using walks_item.prems(5) kid by fastforce
  qed
  then show ?case using ii iV by auto
qed

lemma walk_closed:
  assumes wf: "wf_doc d"
  shows "distinct (order d)" "set (kids d []) \<subseteq> set (order d)"
    and "\<And>k. k \<in> set (order d) \<Longrightarrow> set (kids d k) \<subseteq> set (order d)"
proof -
  have "distinct (map it_id (walk d [])) \<and> it_id ` set (walk d []) \<inter> {} = {} \<and>
      set (kids d []) \<subseteq> it_id ` set (walk d []) \<and>
      (\<forall>k\<in>it_id ` set (walk d []). set (kids d k) \<subseteq> it_id ` set (walk d []))"
    using wf_kids [OF wf]
    by (intro walks_closed [OF walks_walk [OF wf] wf wf_kids_distinct [OF wf] wf_kids_ids [OF wf]])
       fastforce+
  then show "distinct (order d)" "set (kids d []) \<subseteq> set (order d)"
    and "\<And>k. k \<in> set (order d) \<Longrightarrow> set (kids d k) \<subseteq> set (order d)"
    by (auto simp: order_def)
qed

lemma walk_item: "\<lbrakk>wf_doc d; it \<in> set (walk d [])\<rbrakk> \<Longrightarrow> get_item d (it_id it) = Some it"
  using walks_items [OF walks_walk] by blast

lemma order_ids: "wf_doc d \<Longrightarrow> set (order d) \<subseteq> doc_ids d"
  using walk_item by (fastforce simp: order_def doc_ids_get_item)

lemma walk_order: "wf_doc d \<Longrightarrow> walk d [] = map (\<lambda>k. the (get_item d k)) (order d)"
  by (simp add: order_def comp_def walk_item map_idI)

lemma visibleIds_order: "wf_doc d \<Longrightarrow> visibleIds d = filter (\<lambda>k. \<not> it_del (the (get_item d k))) (order d)"
  by (simp add: visibleIds_def order_def filter_map comp_def walk_item cong: filter_cong)

lemma visible_chars:
  "wf_doc d \<Longrightarrow> map it_ch (filter (\<lambda>it. \<not> it_del it) (walk d [])) = map (\<lambda>k. it_ch (the (get_item d k))) (visibleIds d)"
  by (simp add: visibleIds_def comp_def walk_item cong: map_cong)

lemma materialize_order:
  "wf_doc d \<Longrightarrow> materialize d = concat (map (\<lambda>k. it_ch (the (get_item d k))) (visibleIds d))"
  by (simp only: materialize_def visible_chars)

lemma distinct_visibleIds: "wf_doc d \<Longrightarrow> distinct (visibleIds d)"
  by (simp add: visibleIds_order walk_closed)

text \<open>The items that the traversal reaches are all of them when each is below the root.\<close>

definition rooted :: "doc \<Rightarrow> bool" where
  "rooted d \<longleftrightarrow> doc_ids d \<subseteq> set (order d)"

lemma rooted_newDoc: "rooted newDoc"
  by (simp add: rooted_def doc_ids_def newDoc_def)

section \<open>The effect of an insert on the tree\<close>

text \<open>\<open>adds d d' i it\<close>: \<open>d'\<close> is \<open>d\<close> with the new atom \<open>it\<close> under the identifier \<open>i\<close>.\<close>

definition adds :: "doc \<Rightarrow> doc \<Rightarrow> jsstring \<Rightarrow> item \<Rightarrow> bool" where
  "adds d d' i it \<longleftrightarrow>
     it_id it = i \<and> get_item d i = None \<and>
     (\<forall>k. get_item d' k = (if k = i then Some it else get_item d k)) \<and>
     (\<forall>p. kids d' p = (if p = it_after it then insert_sibling compareSibling (kids d p) i else kids d p))"

lemma doc_insert_cases:
  obtains (invalid) "parseID i = None" "doc_insert d i a c = (d, Inl InvalidId)"
  | (badchar) "parseID i \<noteq> None" "\<not> singleCodePoint c" "doc_insert d i a c = (d, Inl BadChar)"
  | (known) "parseID i \<noteq> None" "singleCodePoint c" "get_item d i \<noteq> None" "doc_insert d i a c = (d, Inr False)"
  | (noparent) "parseID i \<noteq> None" "singleCodePoint c" "get_item d i = None" "a \<noteq> []" "get_item d a = None"
      "doc_insert d i a c = (d, Inl UnknownParent)"
  | (added) d' where "parseID i \<noteq> None" "singleCodePoint c" "get_item d i = None" "a = [] \<or> get_item d a \<noteq> None"
      "doc_insert d i a c = (d', Inr True)"
      "adds d d' i \<lparr>it_id = i, it_after = a, it_ch = c, it_del = False\<rparr>"
      "items d' = items d @ [(i, \<lparr>it_id = i, it_after = a, it_ch = c, it_del = False\<rparr>)]"
proof -
  let ?it = "\<lparr>it_id = i, it_after = a, it_ch = c, it_del = False\<rparr>"
  let ?d' = "insertChild (d\<lparr>items := items d @ [(i, ?it)]\<rparr>) a i"
  consider (1) "parseID i = None" | (2) "parseID i \<noteq> None" "\<not> singleCodePoint c"
    | (3) "parseID i \<noteq> None" "singleCodePoint c" "get_item d i \<noteq> None"
    | (4) "parseID i \<noteq> None" "singleCodePoint c" "get_item d i = None" "a \<noteq> []" "get_item d a = None"
    | (5) "parseID i \<noteq> None" "singleCodePoint c" "get_item d i = None" "a = [] \<or> get_item d a \<noteq> None"
    by blast
  then show ?thesis
  proof cases
    case 1
    then show ?thesis by (intro invalid) (simp_all add: doc_insert_def)
  next
    case 2
    then show ?thesis by (intro badchar) (simp_all add: doc_insert_def)
  next
    case 3
    then show ?thesis by (intro known) (simp_all add: doc_insert_def)
  next
    case 4
    then show ?thesis by (intro noparent) (simp_all add: doc_insert_def)
  next
    case 5
    then have "doc_insert d i a c = (?d', Inr True)" by (auto simp: doc_insert_def)
    moreover have "adds d ?d' i ?it" using 5 by (auto simp: adds_def split: option.splits)
    moreover have "items ?d' = items d @ [(i, ?it)]" by (simp add: insertChild_def)
    ultimately show ?thesis using 5 added by blast
  qed
qed

lemma adds_own_kids: "\<lbrakk>wf_doc d; adds d d' i it; it_after it \<noteq> i; i \<noteq> []\<rbrakk> \<Longrightarrow> kids d' i = []"
  using wf_kids_unknown [of d i] by (auto simp: adds_def)

lemma filter_fresh: "i \<notin> set xs \<Longrightarrow> filter (\<lambda>k. k \<noteq> i) xs = xs"
  by (induction xs) auto

text \<open>Anywhere among the siblings: the old items keep their relative order.\<close>

lemma walks_adds_skip:
  assumes "adds d d' i it" "kids d' i = []"
    and "\<exists>out'. walks d' st out' \<and> filter (\<lambda>x. it_id x \<noteq> i) out' = out"
  shows "\<exists>out'. walks d' (i # st) out' \<and> filter (\<lambda>x. it_id x \<noteq> i) out' = out"
proof -
  obtain out' where "walks d' st out'" "filter (\<lambda>x. it_id x \<noteq> i) out' = out" using assms(3) by blast
  then have "walks d' (i # st) (it # out') \<and> filter (\<lambda>x. it_id x \<noteq> i) (it # out') = out"
    using assms(1,2) by (auto simp: adds_def intro: walks.intros)
  then show ?thesis by blast
qed

lemma adds_kids:
  assumes wf: "wf_doc d" and ad: "adds d d' i it"
  shows "i \<notin> set (kids d k)" "filter (\<lambda>k. k \<noteq> i) (kids d' k) = kids d k"
proof -
  show ni: "i \<notin> set (kids d k)" using wf_kids [OF wf, of i k] ad by (auto simp: adds_def)
  show "filter (\<lambda>k. k \<noteq> i) (kids d' k) = kids d k"
  proof (cases "k = it_after it")
    case True
    then obtain pre suf where "kids d k = pre @ suf" "kids d' k = pre @ i # suf"
      using insert_sibling_split [OF ni, of compareSibling] ad by (auto simp: adds_def)
    with ni show ?thesis by (simp add: filter_fresh)
  next
    case False
    then show ?thesis using ni ad by (simp add: adds_def filter_fresh)
  qed
qed

lemma walks_adds:
  assumes "walks d st out" and wf: "wf_doc d" and ad: "adds d d' i it" and ki: "kids d' i = []"
    and "filter (\<lambda>k. k \<noteq> i) st' = st"
  shows "\<exists>out'. walks d' st' out' \<and> filter (\<lambda>x. it_id x \<noteq> i) out' = out"
  using assms(1,5)
proof (induction arbitrary: st' rule: walks.induct)
  case walks_Nil
  then show ?case
  proof (induction st')
    case (Cons k st')
    then show ?case using walks_adds_skip [OF ad ki, of st' "[]"] by (auto split: if_splits)
  qed (simp add: walks.intros)
next
  case (walks_skip k st out)
  from walks_skip.prems show ?case
  proof (induction st')
    case (Cons j st')
    show ?case
    proof (cases "j = i")
      case True
      with Cons show ?thesis using walks_adds_skip [OF ad ki, of st' out] by simp
    next
      case False
      with Cons.prems have jk: "j = k" "filter (\<lambda>k. k \<noteq> i) st' = st" by auto
      then obtain out' where "walks d' st' out'" "filter (\<lambda>x. it_id x \<noteq> i) out' = out"
        using walks_skip.IH by blast
      moreover have "get_item d' j = None" using walks_skip.hyps(1) jk(1) False ad by (simp add: adds_def)
      ultimately show ?thesis by (blast intro: walks.walks_skip)
    qed
  qed simp
next
  case (walks_item k x st out)
  from walks_item.prems show ?case
  proof (induction st')
    case (Cons j st')
    show ?case
    proof (cases "j = i")
      case True
      with Cons show ?thesis using walks_adds_skip [OF ad ki, of st' "x # out"] by simp
    next
      case False
      with Cons.prems have jk: "j = k" "filter (\<lambda>k. k \<noteq> i) st' = st" by auto
      obtain out' where o: "walks d' (kids d' k @ st') out'" "filter (\<lambda>x. it_id x \<noteq> i) out' = out"
        using walks_item.IH [of "kids d' k @ st'"] adds_kids(2) [OF wf ad, of k] jk(2) by auto
      have gx: "get_item d' j = Some x" "it_id x \<noteq> i"
        using walks_item.hyps(1) jk(1) False ad wf_get_item [OF wf] by (auto simp: adds_def)
      have "walks d' (j # st') (x # out')"
        by (rule walks.walks_item [where d = d', OF gx(1)]) (use o(1) jk(1) in simp)
      with o(2) gx(2) show ?thesis by (intro exI [of _ "x # out'"]) simp
    qed
  qed simp
qed

lemma order_adds:
  assumes wf: "wf_doc d" "wf_doc d'" and ad: "adds d d' i it" and ne: "it_after it \<noteq> i" "i \<noteq> []"
  shows "filter (\<lambda>x. it_id x \<noteq> i) (walk d' []) = walk d []"
    and "filter (\<lambda>k. k \<noteq> i) (order d') = order d"
proof -
  obtain out' where "walks d' (kids d' []) out'" "filter (\<lambda>x. it_id x \<noteq> i) out' = walk d []"
    using walks_adds [OF walks_walk [OF wf(1)] wf(1) ad adds_own_kids [OF wf(1) ad ne]
      adds_kids(2) [OF wf(1) ad]] by blast
  then show w: "filter (\<lambda>x. it_id x \<noteq> i) (walk d' []) = walk d []"
    using walk_eqI [OF wf(2)] by simp
  then show "filter (\<lambda>k. k \<noteq> i) (order d') = order d"
    unfolding order_def filter_map comp_def by (metis (no_types, lifting) filter_cong)
qed

text \<open>First among the siblings: directly after the parent, or at the head of the document.\<close>

lemma walks_adds_first:
  assumes "walks d st out" and wf: "wf_doc d" and ad: "adds d d' i it" and ki: "kids d' i = []"
    and first: "kids d' (it_after it) = i # kids d (it_after it)"
    and "i \<notin> set st" "it_after it \<noteq> []"
  shows "walks d' st (concat (map (\<lambda>x. if it_id x = it_after it then [x, it] else [x]) out))"
  using assms(1,6)
proof (induction rule: walks.induct)
  case walks_Nil
  then show ?case by (simp add: walks.intros)
next
  case (walks_skip k st out)
  then show ?case using ad by (auto simp: adds_def intro!: walks.walks_skip)
next
  case (walks_item k x st out)
  have kx: "it_id x = k" "k \<noteq> i" using wf_get_item [OF wf walks_item.hyps(1)] walks_item.prems by auto
  have ni: "i \<notin> set (kids d k @ st)"
    using wf_kids [OF wf, of i k] ad walks_item.prems by (auto simp: adds_def)
  let ?f = "\<lambda>x. if it_id x = it_after it then [x, it] else [x]"
  have IH: "walks d' (kids d k @ st) (concat (map ?f out))" by (rule walks_item.IH [OF ni])
  have gx: "get_item d' k = Some x" using walks_item.hyps(1) kx(2) ad by (simp add: adds_def)
  show ?case
  proof (cases "k = it_after it")
    case True
    have "walks d' (i # kids d k @ st) (it # concat (map ?f out))"
      using IH ki ad by (intro walks.walks_item) (simp_all add: adds_def)
    then have "walks d' (kids d' k @ st) (it # concat (map ?f out))" using first True by simp
    then show ?thesis using gx kx(1) True by (auto intro: walks.walks_item)
  next
    case False
    then have "kids d' k = kids d k" using ad by (simp add: adds_def)
    then show ?thesis using IH gx kx(1) False by (auto intro: walks.walks_item)
  qed
qed

lemma walks_adds_root:
  assumes "walks d st out" and wf: "wf_doc d" and ad: "adds d d' i it"
    and "i \<notin> set st" "it_after it = []"
  shows "walks d' st out"
  using assms(1,4)
proof (induction rule: walks.induct)
  case walks_Nil
  then show ?case by (simp add: walks.intros)
next
  case (walks_skip k st out)
  then show ?case using ad by (auto simp: adds_def intro!: walks.walks_skip)
next
  case (walks_item k x st out)
  have k: "k \<noteq> i" "k \<noteq> []" using wf_get_item [OF wf walks_item.hyps(1)] walks_item.prems by auto
  have "i \<notin> set (kids d k @ st)"
    using wf_kids [OF wf, of i k] ad walks_item.prems by (auto simp: adds_def)
  moreover have "kids d' k = kids d k" "get_item d' k = Some x"
    using ad assms(5) k walks_item.hyps(1) by (simp_all add: adds_def)
  ultimately show ?case using walks_item.IH by (simp add: walks.walks_item)
qed

lemma walk_adds_first:
  assumes wf: "wf_doc d" "wf_doc d'" and ad: "adds d d' i it" and ne: "it_after it \<noteq> i" "i \<noteq> []"
    and first: "kids d' (it_after it) = i # kids d (it_after it)"
  shows "walk d' [] = (if it_after it = [] then it # walk d []
    else concat (map (\<lambda>x. if it_id x = it_after it then [x, it] else [x]) (walk d [])))"
proof -
  have ki: "kids d' i = []" by (rule adds_own_kids [OF wf(1) ad ne])
  have ni: "i \<notin> set (kids d [])"
    using wf_kids [OF wf(1), of i "[]"] ad by (auto simp: adds_def)
  show ?thesis
  proof (cases "it_after it = []")
    case True
    have "walks d' (kids d []) (walk d [])"
      by (rule walks_adds_root [OF walks_walk [OF wf(1)] wf(1) ad ni True])
    then have "walks d' (i # kids d []) (it # walk d [])"
      using ki ad by (intro walks.walks_item) (simp_all add: adds_def)
    with first True walk_eqI [OF wf(2)] show ?thesis by simp
  next
    case False
    have "kids d' [] = kids d []" using ad False by (simp add: adds_def)
    with walks_adds_first [OF walks_walk [OF wf(1)] wf(1) ad ki first ni False] walk_eqI [OF wf(2)]
    show ?thesis using False by simp
  qed
qed

section \<open>The effect of a delete\<close>

lemma walks_delete:
  assumes "walks d st out" and wf: "wf_doc d"
  shows "walks (fst (doc_delete d i)) st (map (\<lambda>x. if it_id x = i then x\<lparr>it_del := True\<rparr> else x) out)"
  using assms(1)
proof (induction rule: walks.induct)
  case walks_Nil
  then show ?case by (simp add: walks.intros)
next
  case (walks_skip k st out)
  then show ?case by (auto simp: get_item_delete intro!: walks.walks_skip)
next
  case (walks_item k x st out)
  have "it_id x = k" using wf_get_item [OF wf walks_item.hyps(1)] by simp
  with walks_item show ?case by (auto simp: get_item_delete intro!: walks.walks_item)
qed

lemma walk_delete:
  "wf_doc d \<Longrightarrow>
   walk (fst (doc_delete d i)) [] = map (\<lambda>x. if it_id x = i then x\<lparr>it_del := True\<rparr> else x) (walk d [])"
  using walks_delete [OF walks_walk, of d i] by (intro walk_eqI) (auto intro: doc_intros)

lemma order_delete: "wf_doc d \<Longrightarrow> order (fst (doc_delete d i)) = order d"
  by (simp add: order_def walk_delete comp_def if_distrib cong: if_cong)

lemma visibleIds_delete:
  assumes "wf_doc d"
  shows "visibleIds (fst (doc_delete d i)) = filter (\<lambda>k. k \<noteq> i) (visibleIds d)"
proof -
  have "map it_id (filter (\<lambda>x. \<not> it_del x) (map (\<lambda>x. if it_id x = i then x\<lparr>it_del := True\<rparr> else x) xs)) =
      filter (\<lambda>k. k \<noteq> i) (map it_id (filter (\<lambda>x. \<not> it_del x) xs))" for xs
    by (induction xs) auto
  then show ?thesis by (simp add: visibleIds_def walk_delete assms)
qed

end
