(* ===== verification/CrdtCanon.thy ===== *)
theory CrdtCanon
  imports CrdtOrder
begin

text \<open>
  Documents all of whose identifiers are printed ones (\<open>formatID\<close>). Their items determine them, the
  operations keep them so, and a snapshot of one restores it, in whatever order its items arrive.
\<close>

section \<open>Canonical documents\<close>

text \<open>
  What a document built from printed identifiers is: every sibling list is sorted, holds every item
  of its parent, and the traversal reaches everything.
\<close>

definition canonical_doc :: "doc \<Rightarrow> bool" where
  "canonical_doc d \<longleftrightarrow> wf_doc d \<and> rooted d \<and>
     (\<forall>p. sorted_wrt (\<lambda>a b. compareSibling a b < 0) (kids d p)) \<and>
     (\<forall>i it. get_item d i = Some it \<longrightarrow>
        canonical_id i \<and> singleCodePoint (it_ch it) \<and> i \<in> set (kids d (it_after it)))"

text \<open>Two documents no operation and no reader can tell apart.\<close>

definition same_doc :: "doc \<Rightarrow> doc \<Rightarrow> bool" where
  "same_doc d d' \<longleftrightarrow> (\<forall>i. get_item d i = get_item d' i) \<and> (\<forall>p. kids d p = kids d' p)"

lemma canonical_wf [doc_intros]: "canonical_doc d \<Longrightarrow> wf_doc d"
  by (simp add: canonical_doc_def)

lemma canonical_item:
  "\<lbrakk>canonical_doc d; get_item d i = Some it\<rbrakk> \<Longrightarrow>
     canonical_id i \<and> singleCodePoint (it_ch it) \<and> i \<in> set (kids d (it_after it)) \<and> it_id it = i"
  using wf_get_item by (auto simp: canonical_doc_def)

lemma canonical_kids:
  assumes "canonical_doc d"
  shows "set (kids d p) = {i. \<exists>it. get_item d i = Some it \<and> it_after it = p}"
    and "sorted_wrt (\<lambda>a b. compareSibling a b < 0) (kids d p)"
    and "set (kids d p) \<subseteq> Collect canonical_id"
proof -
  show s: "set (kids d p) = {i. \<exists>it. get_item d i = Some it \<and> it_after it = p}"
    using assms wf_kids [of d _ p] by (auto simp: canonical_doc_def)
  show "sorted_wrt (\<lambda>a b. compareSibling a b < 0) (kids d p)"
    using assms by (simp add: canonical_doc_def)
  show "set (kids d p) \<subseteq> Collect canonical_id"
    using assms by (auto simp: s canonical_doc_def)
qed

lemma canonical_after: "\<lbrakk>canonical_doc d; get_item d i = Some it\<rbrakk> \<Longrightarrow> it_after it = [] \<or> get_item d (it_after it) \<noteq> None"
  using canonical_item [of d i it] wf_parent [of d i "it_after it"] canonical_wf [of d]
  by (auto simp: doc_ids_get_item)

lemma canonical_order: "canonical_doc d \<Longrightarrow> set (order d) = doc_ids d"
  using order_ids [of d] by (auto simp: canonical_doc_def rooted_def)

lemma canonical_newDoc [doc_intros]: "canonical_doc newDoc"
  by (simp add: canonical_doc_def doc_intros rooted_newDoc)

text \<open>The items determine a canonical document.\<close>

lemma canonical_same:
  assumes "canonical_doc d" "canonical_doc d'" "\<forall>i. get_item d i = get_item d' i"
  shows "same_doc d d'"
proof -
  have "kids d p = kids d' p" for p
    using canonical_kids [OF assms(1), of p] canonical_kids [OF assms(2), of p] assms(3)
    by (intro sib.sorted_unique) auto
  with assms(3) show ?thesis by (simp add: same_doc_def)
qed

lemma same_walk: "\<lbrakk>same_doc d d'; wf_doc d; wf_doc d'\<rbrakk> \<Longrightarrow> walk d' [] = walk d []"
proof -
  assume s: "same_doc d d'" and wf: "wf_doc d" "wf_doc d'"
  have "walks d' st out" if "walks d st out" for st out
    using that
  proof (induction rule: walks.induct)
    case (walks_item k x st out)
    then show ?case using s by (auto simp: same_doc_def intro: walks.walks_item)
  next
    case (walks_skip k st out)
    then show ?case using s by (auto simp: same_doc_def intro: walks.walks_skip)
  qed (simp add: walks.intros)
  from this [OF walks_walk [OF wf(1)]] show ?thesis
    using s by (intro walk_eqI [OF wf(2)]) (simp add: same_doc_def)
qed

lemma same_readers:
  assumes "same_doc d d'" "wf_doc d" "wf_doc d'"
  shows "materialize d' = materialize d" "visibleIds d' = visibleIds d" "toItems d' = toItems d"
  using same_walk [OF assms] by (simp_all add: materialize_def visibleIds_def toItems_def)

section \<open>Operations keep canonical documents\<close>

lemma canonical_nonempty: "canonical_id i \<Longrightarrow> i \<noteq> []"
  by (auto simp: canonical_id_def parseID_def)

lemma rooted_adds:
  assumes wf: "wf_doc d" "wf_doc d'" and ad: "adds d d' i it" and ne: "it_after it \<noteq> i" "i \<noteq> []"
    and r: "rooted d" and par: "it_after it = [] \<or> get_item d (it_after it) \<noteq> None"
  shows "rooted d'"
proof -
  have sub: "set (order d) \<subseteq> set (order d')"
    using order_adds(2) [OF wf ad ne] by (metis filter_is_subset)
  have "i \<in> set (kids d' (it_after it))" using ad by (simp add: adds_def)
  moreover have "it_after it = [] \<or> it_after it \<in> set (order d')"
    using par r sub doc_ids_get_item [of "it_after it" d] by (auto simp: rooted_def)
  ultimately have "i \<in> set (order d')" using walk_closed(2,3) [OF wf(2)] by auto
  moreover have "doc_ids d' = insert i (doc_ids d)"
    using ad by (auto simp: set_eq_iff doc_ids_get_item adds_def)
  ultimately show ?thesis using r sub by (auto simp: rooted_def)
qed

lemma canonical_adds:
  assumes c: "canonical_doc d" and wf: "wf_doc d'" and ad: "adds d d' i it"
    and i: "canonical_id i" "singleCodePoint (it_ch it)"
    and par: "it_after it = [] \<or> get_item d (it_after it) \<noteq> None"
  shows "canonical_doc d'"
proof -
  have ne: "it_after it \<noteq> i" "i \<noteq> []"
    using ad par canonical_nonempty [OF i(1)] by (auto simp: adds_def)
  have "rooted d'"
    using rooted_adds [OF canonical_wf [OF c] wf ad ne _ par] c by (simp add: canonical_doc_def)
  moreover have "sorted_wrt (\<lambda>a b. compareSibling a b < 0) (kids d' p)" for p
    using canonical_kids(2,3) [OF c, of p] sib.sorted_insert [of "kids d p" i] i(1) ad
    by (auto simp: adds_def)
  moreover have "canonical_id k \<and> singleCodePoint (it_ch x) \<and> k \<in> set (kids d' (it_after x))"
    if "get_item d' k = Some x" for k x
    using that ad i canonical_item [OF c, of k x] by (auto simp: adds_def split: if_splits)
  ultimately show ?thesis using wf by (simp add: canonical_doc_def)
qed

lemma canonical_insert [doc_intros]:
  "\<lbrakk>canonical_doc d; canonical_id i\<rbrakk> \<Longrightarrow> canonical_doc (fst (doc_insert d i a c))"
  by (rule doc_insert_cases [of i d a c])
     (use wf_doc_insert [OF canonical_wf, of d i a c] in \<open>auto intro: canonical_adds\<close>)

lemma canonical_delete [doc_intros]: "canonical_doc d \<Longrightarrow> canonical_doc (fst (doc_delete d i))"
  using wf_doc_delete [OF canonical_wf, of d i] order_delete [OF canonical_wf, of d i]
  by (auto simp: canonical_doc_def rooted_def get_item_delete doc_ids_get_item split: if_splits)

lemma canonical_apply [doc_intros]:
  "\<lbrakk>canonical_doc d; op_kind x = js ''ins'' \<longrightarrow> canonical_id (op_id x)\<rbrakk> \<Longrightarrow> canonical_doc (fst (doc_apply d x))"
  by (auto simp: doc_apply_def intro: doc_intros)

lemma canonical_apply_loop:
  "\<lbrakk>canonical_doc d; \<forall>x\<in>set xs. op_kind x = js ''ins'' \<longrightarrow> canonical_id (op_id x)\<rbrakk> \<Longrightarrow>
    canonical_doc (fst (apply_loop d xs k c))"
proof (induction xs arbitrary: d k c)
  case (Cons x xs)
  then show ?case using canonical_apply [of d x]
    by (auto split: prod.splits sum.splits)
qed simp

lemma canonical_applyBatch [doc_intros]:
  "\<lbrakk>canonical_doc d; \<forall>x\<in>set xs. op_kind x = js ''ins'' \<longrightarrow> canonical_id (op_id x)\<rbrakk> \<Longrightarrow>
    canonical_doc (fst (applyBatch d xs))"
  by (auto simp: applyBatch_def intro: canonical_apply_loop)

section \<open>Operations cannot tell documents apart that are the same\<close>

lemma same_doc_refl [simp]: "same_doc d d"
  by (simp add: same_doc_def)

lemma same_doc_apply:
  assumes "same_doc d d'"
  shows "snd (doc_apply d x) = snd (doc_apply d' x) \<and> same_doc (fst (doc_apply d x)) (fst (doc_apply d' x))"
proof -
  have g: "get_item d' = get_item d" "kids d' = kids d" using assms by (auto simp: same_doc_def)
  have "snd (doc_insert d i a c) = snd (doc_insert d' i a c) \<and>
      same_doc (fst (doc_insert d i a c)) (fst (doc_insert d' i a c))" for i a c
    using assms by (auto simp: doc_insert_def g same_doc_def split: option.splits)
  moreover have "snd (doc_delete d i) = snd (doc_delete d' i)" for i
    by (auto simp: doc_delete_def g split: option.splits)
  moreover have "same_doc (fst (doc_delete d i)) (fst (doc_delete d' i))" for i
    using assms by (simp add: same_doc_def get_item_delete g)
  ultimately show ?thesis using assms by (simp add: doc_apply_def)
qed

lemma same_apply_loop:
  "same_doc d d' \<Longrightarrow>
   snd (apply_loop d xs k c) = snd (apply_loop d' xs k c) \<and>
   same_doc (fst (apply_loop d xs k c)) (fst (apply_loop d' xs k c))"
proof (induction xs arbitrary: d d' k c)
  case (Cons x xs)
  note s = same_doc_apply [OF Cons.prems, of x]
  obtain d1 r where 1: "doc_apply d x = (d1, r)" by (cases "doc_apply d x")
  with s obtain d2 where 2: "doc_apply d' x = (d2, r)" by (cases "doc_apply d' x") simp
  have s12: "same_doc d1 d2" using s 1 2 by simp
  show ?case
  proof (cases r)
    case (Inl e)
    with 1 2 s12 show ?thesis by simp
  next
    case (Inr b)
    with 1 2 Cons.IH [OF s12] show ?thesis by simp
  qed
qed simp

lemma same_applyBatch:
  "same_doc d d' \<Longrightarrow>
   snd (applyBatch d xs) = snd (applyBatch d' xs) \<and> same_doc (fst (applyBatch d xs)) (fst (applyBatch d' xs))"
  using same_apply_loop [of d d' xs 0 False] by (auto simp: applyBatch_def)

section \<open>Snapshots\<close>

definition wire_of :: "item \<Rightarrow> wire_item" where
  "wire_of it = \<lparr>wi_id = it_id it, wi_after = it_after it, wi_ch = Some (it_ch it), wi_Value = None,
     wi_del = it_del it, wi_Deleted = False\<rparr>"

lemma toItems_wire: "toItems d = map wire_of (walk d [])"
  by (simp add: toItems_def wire_of_def)

lemma wire_to_item_wire_of [simp]: "wire_to_item (wire_of it) = it"
  by (simp add: wire_to_item_def wire_of_def wi_stored_def)

lemma wire_of_sel [simp]: "wi_id (wire_of it) = it_id it" "wi_after (wire_of it) = it_after it"
  by (simp_all add: wire_of_def)

lemma singleCodePoint_nonempty: "singleCodePoint c \<Longrightarrow> c \<noteq> []"
  by (auto simp: singleCodePoint_def code_point_at_def split: option.splits)

lemma wi_checked_wire_of: "singleCodePoint (it_ch it) \<Longrightarrow> wi_checked (wire_of it) = it_ch it"
  using singleCodePoint_nonempty by (auto simp: wi_checked_def wire_of_def)

lemma from_register_ok:
  assumes "\<forall>it\<in>set its. parseID (it_id it) \<noteq> None \<and> singleCodePoint (it_ch it)"
    and "distinct (map it_id its)" "\<forall>it\<in>set its. get_item d (it_id it) = None"
  shows "from_register d (map wire_of its) =
    (d\<lparr>items := items d @ map (\<lambda>it. (it_id it, it)) its\<rparr>, None)"
  using assms
proof (induction its arbitrary: d)
  case (Cons it its)
  let ?d1 = "d\<lparr>items := items d @ [(it_id it, it)]\<rparr>"
  have "from_register ?d1 (map wire_of its) =
      (?d1\<lparr>items := items ?d1 @ map (\<lambda>it. (it_id it, it)) its\<rparr>, None)"
    using Cons.prems by (intro Cons.IH) (auto simp: image_iff)
  then show ?case using Cons.prems by (simp add: wi_checked_wire_of)
qed simp

lemma from_link_ok:
  assumes "\<forall>it\<in>set its. it_after it = [] \<or> get_item d (it_after it) \<noteq> None"
  shows "\<exists>d'. from_link d (map wire_of its) = (d', None) \<and> items d' = items d \<and>
    (\<forall>p. kids d' p = fold (\<lambda>i ks. insert_sibling compareSibling ks i)
        (map it_id (filter (\<lambda>it. it_after it = p) its)) (kids d p))"
  using assms
proof (induction its arbitrary: d)
  case (Cons it its)
  let ?d1 = "insertChild d (it_after it) (it_id it)"
  have "\<forall>x\<in>set its. it_after x = [] \<or> get_item ?d1 (it_after x) \<noteq> None"
    using Cons.prems by simp
  from Cons.IH [OF this] obtain d' where d': "from_link ?d1 (map wire_of its) = (d', None)" "items d' = items ?d1"
    "\<forall>p. kids d' p = fold (\<lambda>i ks. insert_sibling compareSibling ks i)
       (map it_id (filter (\<lambda>it. it_after it = p) its)) (kids ?d1 p)"
    by blast
  have "kids d' p = fold (\<lambda>i ks. insert_sibling compareSibling ks i)
       (map it_id (filter (\<lambda>x. it_after x = p) (it # its))) (kids d p)" for p
    using d'(3) by auto
  with d' Cons.prems show ?case by (intro exI [of _ d']) auto
qed simp

lemma fold_insert_sibling:
  assumes "sorted_wrt (\<lambda>a b. compareSibling a b < 0) ks" "set ks \<union> set is \<subseteq> Collect canonical_id"
  shows "sorted_wrt (\<lambda>a b. compareSibling a b < 0) (fold (\<lambda>i ks. insert_sibling compareSibling ks i) is ks)"
    and "set (fold (\<lambda>i ks. insert_sibling compareSibling ks i) is ks) = set ks \<union> set is"
  using assms
proof (induction "is" arbitrary: ks)
  case (Cons i "is")
  { case 1 then show ?case using sib.sorted_insert [of ks i] by (auto intro!: Cons.IH(1)) next
    case 2 then show ?case using sib.sorted_insert [of ks i] Cons.IH(2) [of "insert_sibling compareSibling ks i"] by auto }
qed simp_all

lemma newDoc_items: "items newDoc = []"
  by (simp add: newDoc_def)

text \<open>The items of a canonical document, in any order, load back to it.\<close>

lemma fromItems_any_order:
  assumes c: "canonical_doc d" and ws: "set its = set (walk d [])" "distinct (map it_id its)"
  shows "\<exists>d'. fromItems (map wire_of its) = (d', None) \<and> same_doc d d'"
proof -
  have wf: "wf_doc d" by (rule canonical_wf [OF c])
  have get: "get_item d (it_id it) = Some it" if "it \<in> set its" for it
    using walk_item [OF wf] that ws(1) by simp
  have all: "it \<in> set its" if "get_item d i = Some it" for i it
  proof -
    have "i \<in> set (order d)" using that canonical_order [OF c] by (simp add: doc_ids_get_item)
    then obtain x where "x \<in> set its" "it_id x = i" using ws(1) by (auto simp: order_def)
    with get that show ?thesis by auto
  qed
  let ?d1 = "newDoc\<lparr>items := map (\<lambda>it. (it_id it, it)) its\<rparr>"
  have reg: "from_register newDoc (map wire_of its) = (?d1, None)"
    using get canonical_item [OF c] wf_get_item [OF wf] ws(2) from_register_ok [of its newDoc]
    by (fastforce simp: newDoc_items)
  have "distinct (map fst (items ?d1))" using ws(2) by (simp add: comp_def)
  then have "get_item ?d1 (it_id it) = Some it" if "it \<in> set its" for it
    using that by (auto simp: get_item_def intro!: map_of_is_SomeI)
  moreover have "get_item ?d1 k = None" if "get_item d k = None" for k
    using that get unfolding get_item_def [of ?d1] by (fastforce simp: map_of_eq_None_iff)
  ultimately have get1: "get_item ?d1 k = get_item d k" for k
    using all canonical_item [OF c] by (cases "get_item d k") fastforce+
  have "\<forall>it\<in>set its. it_after it = [] \<or> get_item ?d1 (it_after it) \<noteq> None"
    using get canonical_after [OF c] by (fastforce simp: get1)
  from from_link_ok [OF this] obtain d' where d': "from_link ?d1 (map wire_of its) = (d', None)"
    "items d' = items ?d1" "\<forall>p. kids d' p = fold (\<lambda>i ks. insert_sibling compareSibling ks i)
        (map it_id (filter (\<lambda>it. it_after it = p) its)) (kids ?d1 p)" by blast
  have "kids d' p = kids d p" for p
  proof -
    let ?is = "map it_id (filter (\<lambda>it. it_after it = p) its)"
    have can: "set [] \<union> set ?is \<subseteq> Collect canonical_id" using get canonical_item [OF c] by fastforce
    have "set ?is = set (kids d p)"
      using canonical_kids(1) [OF c, of p] get all canonical_item [OF c] by fastforce
    then show ?thesis
      using d'(3) fold_insert_sibling [OF _ can] canonical_kids(2,3) [OF c, of p]
      by (intro sib.sorted_unique) simp_all
  qed
  moreover have "get_item d' k = get_item d k" for k
    using get1 [of k] d'(2) by (simp add: get_item_def)
  ultimately have "same_doc d d'" by (simp add: same_doc_def)
  then show ?thesis using reg d'(1) by (intro exI [of _ d']) (simp add: fromItems_def)
qed

lemma fromItems_toItems:
  "canonical_doc d \<Longrightarrow> \<exists>d'. fromItems (toItems d) = (d', None) \<and> same_doc d d'"
  using fromItems_any_order [of d "walk d []"] walk_closed(1) [OF canonical_wf]
  by (simp add: toItems_wire order_def)

lemma same_doc_canonical: "\<lbrakk>canonical_doc d; same_doc d d'; wf_doc d'\<rbrakk> \<Longrightarrow> canonical_doc d'"
proof -
  assume c: "canonical_doc d" and s: "same_doc d d'" and wf: "wf_doc d'"
  have "order d' = order d" using same_walk [OF s canonical_wf [OF c] wf] by (simp add: order_def)
  then show ?thesis using c s wf by (simp add: canonical_doc_def rooted_def same_doc_def doc_ids_get_item subset_iff)
qed

lemma same_clone: "canonical_doc d \<Longrightarrow> same_doc d (clone d)"
  using fromItems_toItems [of d] by (auto simp: clone_def)

lemma canonical_clone [doc_intros]: "canonical_doc d \<Longrightarrow> canonical_doc (clone d)"
  using same_doc_canonical [OF _ same_clone wf_clone] by blast

end
