(* ===== verification/CrdtConverge.thy ===== *)
theory CrdtConverge
  imports CrdtCanon
begin

text \<open>
  Convergence. The locale \<open>replica\<close> is the contract of a replicated object: its state, seen through
  a view, is what the log of applied operations says, and the log matters only as a set. It is
  interpreted on the document, so two replicas that applied the same operations, each in an order
  in which an atom comes after its parent and a deletion after its atom, hold the same document.
\<close>

section \<open>Replicas\<close>

text \<open>Every operation of \<open>xs\<close> is ready when the log so far is \<open>l\<close>.\<close>

fun delivered :: "('o list \<Rightarrow> 'o \<Rightarrow> bool) \<Rightarrow> 'o list \<Rightarrow> 'o list \<Rightarrow> bool" where
  "delivered rdy l [] = True"
| "delivered rdy l (x # xs) = (rdy l x \<and> delivered rdy (l @ [x]) xs)"

lemma delivered_append: "delivered rdy l (xs @ ys) \<longleftrightarrow> delivered rdy l xs \<and> delivered rdy (l @ xs) ys"
  by (induction xs arbitrary: l) auto

locale replica =
  fixes step :: "'s \<Rightarrow> 'o \<Rightarrow> 's"
    and rdy :: "'o list \<Rightarrow> 'o \<Rightarrow> bool"
    and good :: "'s \<Rightarrow> bool"
    and sem :: "'o list \<Rightarrow> 'v"
    and view :: "'s \<Rightarrow> 'v"
  assumes step_good: "\<lbrakk>good s; view s = sem l; delivered rdy [] l; rdy l x\<rbrakk> \<Longrightarrow> good (step s x)"
    and step_view: "\<lbrakk>good s; view s = sem l; delivered rdy [] l; rdy l x\<rbrakk> \<Longrightarrow> view (step s x) = sem (l @ [x])"
    and sem_set: "\<lbrakk>delivered rdy [] l; delivered rdy [] l'; set l = set l'\<rbrakk> \<Longrightarrow> sem l = sem l'"
begin

lemma run_view:
  "\<lbrakk>good s; view s = sem l; delivered rdy [] (l @ xs)\<rbrakk> \<Longrightarrow>
     good (foldl step s xs) \<and> view (foldl step s xs) = sem (l @ xs)"
proof (induction xs arbitrary: s l)
  case (Cons x xs)
  have "good (foldl step (step s x) xs) \<and> view (foldl step (step s x) xs) = sem ((l @ [x]) @ xs)"
    using Cons.prems step_good step_view by (intro Cons.IH) (auto simp: delivered_append)
  then show ?case by simp
qed simp

lemma run_converges:
  assumes "good s" "view s = sem []" "delivered rdy [] xs" "delivered rdy [] ys" "set xs = set ys"
  shows "view (foldl step s xs) = view (foldl step s ys)"
  using run_view [of s "[]"] assms sem_set [OF assms(3,4,5)] by simp

end

section \<open>The document as a replica\<close>

definition is_ins :: "crdt_op \<Rightarrow> bool" where
  [js_eval]: "is_ins x \<longleftrightarrow> op_kind x = js ''ins''"

definition is_del :: "crdt_op \<Rightarrow> bool" where
  [js_eval]: "is_del x \<longleftrightarrow> op_kind x = js ''del''"

lemma kinds [simp]: "is_ins x \<Longrightarrow> \<not> is_del x" "is_ins (ins_op i a c)" "is_del (del_op i)"
    "\<not> is_del (ins_op i a c)" "\<not> is_ins (del_op i)"
  by (auto simp: is_ins_def is_del_def js_def)

text \<open>
  When an operation may be delivered: an insert has a printed identifier, one code point, its parent
  already there, and no other insert of the log uses the identifier; a delete comes after the insert.
\<close>

definition crdt_ready :: "crdt_op list \<Rightarrow> crdt_op \<Rightarrow> bool" where
  [js_eval]: "crdt_ready l x \<longleftrightarrow>
     canonical_id (op_id x) \<and>
     (if is_ins x then
        singleCodePoint (op_ch x) \<and>
        (op_after x = [] \<or> list_ex (\<lambda>y. is_ins y \<and> op_id y = op_after x) l) \<and>
        list_all (\<lambda>y. is_ins y \<and> op_id y = op_id x \<longrightarrow> y = x) l
      else is_del x \<and> list_ex (\<lambda>y. is_ins y \<and> op_id y = op_id x) l)"

text \<open>What the log says of an identifier.\<close>

definition log_item :: "crdt_op list \<Rightarrow> jsstring \<Rightarrow> item option" where
  "log_item l i =
     (case find (\<lambda>x. is_ins x \<and> op_id x = i) l of
        None \<Rightarrow> None
      | Some x \<Rightarrow> Some \<lparr>it_id = i, it_after = op_after x, it_ch = op_ch x,
                       it_del = list_ex (\<lambda>y. is_del y \<and> op_id y = i) l\<rparr>)"

lemma find_snoc: "find P (l @ [x]) = (case find P l of Some y \<Rightarrow> Some y | None \<Rightarrow> if P x then Some x else None)"
  by (induction l) auto

lemma find_ex: "find P l \<noteq> None \<longleftrightarrow> list_ex P l"
  by (induction l) auto

lemma log_item_known: "log_item l i \<noteq> None \<longleftrightarrow> list_ex (\<lambda>x. is_ins x \<and> op_id x = i) l"
  by (auto simp: log_item_def find_ex [symmetric] split: option.splits)

text \<open>In a delivered log every delete has its insert, and no identifier is inserted twice.\<close>

definition log_ok :: "crdt_op list \<Rightarrow> bool" where
  "log_ok l \<longleftrightarrow>
     (\<forall>x\<in>set l. is_del x \<longrightarrow> (\<exists>y\<in>set l. is_ins y \<and> op_id y = op_id x)) \<and>
     (\<forall>x\<in>set l. \<forall>y\<in>set l. is_ins x \<and> is_ins y \<and> op_id x = op_id y \<longrightarrow> x = y)"

lemma log_ok_snoc: "log_ok l \<Longrightarrow> crdt_ready l x \<Longrightarrow> log_ok (l @ [x])"
  unfolding log_ok_def crdt_ready_def by (auto simp: list_ex_iff list_all_iff split: if_splits)

lemma delivered_log_ok: "log_ok l \<Longrightarrow> delivered crdt_ready l xs \<Longrightarrow> log_ok (l @ xs)"
proof (induction xs arbitrary: l)
  case (Cons x xs)
  then show ?case using Cons.IH [of "l @ [x]"] log_ok_snoc by simp
qed simp

lemma find_set:
  assumes "set l = set l'" "\<forall>x\<in>set l. \<forall>y\<in>set l. P x \<and> P y \<longrightarrow> x = y"
  shows "find P l = find P l'"
proof (cases "find P l")
  case None
  then have "find P l' = None" using assms(1) by (simp add: find_None_iff)
  with None show ?thesis by simp
next
  case (Some x)
  then have "x \<in> set l" "P x" by (auto simp: find_Some_iff)
  moreover from this obtain y where "find P l' = Some y"
    using assms(1) by (cases "find P l'") (auto simp: find_None_iff)
  moreover from this have "y \<in> set l'" "P y" by (auto simp: find_Some_iff)
  ultimately show ?thesis using Some assms by auto
qed

lemma log_item_set:
  assumes "log_ok l" "set l = set l'"
  shows "log_item l = log_item l'"
proof
  fix i
  have "find (\<lambda>x. is_ins x \<and> op_id x = i) l = find (\<lambda>x. is_ins x \<and> op_id x = i) l'"
    using assms by (intro find_set) (auto simp: log_ok_def)
  moreover have "list_ex (\<lambda>y. is_del y \<and> op_id y = i) l = list_ex (\<lambda>y. is_del y \<and> op_id y = i) l'"
    by (simp add: list_ex_iff assms(2))
  ultimately show "log_item l i = log_item l' i" by (simp only: log_item_def)
qed

lemma ready_result:
  assumes c: "canonical_doc d" and v: "get_item d = log_item l" and r: "crdt_ready l x"
  shows "\<exists>b. snd (doc_apply d x) = Inr b"
proof (cases "is_ins x")
  case True
  with r have p: "canonical_id (op_id x)" "singleCodePoint (op_ch x)"
    "op_after x = [] \<or> list_ex (\<lambda>y. is_ins y \<and> op_id y = op_after x) l"
    by (simp_all add: crdt_ready_def)
  moreover have "parseID (op_id x) \<noteq> None" using p(1) by (auto simp: canonical_id_def split: option.splits)
  moreover have "op_after x = [] \<or> get_item d (op_after x) \<noteq> None" unfolding v log_item_known by (rule p(3))
  ultimately show ?thesis using True
    by (cases rule: doc_insert_cases [of "op_id x" d "op_after x" "op_ch x"])
       (auto simp: doc_apply_def is_ins_def js_def)
next
  case False
  with r have "is_del x" "canonical_id (op_id x)" by (simp_all add: crdt_ready_def)
  then show ?thesis
    by (auto simp: doc_apply_def is_del_def js_def doc_delete_def canonical_id_def split: option.splits)
qed

lemma ready_view:
  assumes c: "canonical_doc d" and v: "get_item d = log_item l" and r: "crdt_ready l x" and ok: "log_ok l"
  shows "get_item (fst (doc_apply d x)) = log_item (l @ [x])"
proof
  fix k
  show "get_item (fst (doc_apply d x)) k = log_item (l @ [x]) k"
  proof (cases "is_ins x")
    case True
    have ap: "doc_apply d x = doc_insert d (op_id x) (op_after x) (op_ch x)"
      using True by (simp add: doc_apply_def is_ins_def js_def)
    have p: "canonical_id (op_id x)" "singleCodePoint (op_ch x)"
      "op_after x = [] \<or> get_item d (op_after x) \<noteq> None" "parseID (op_id x) \<noteq> None"
      using r True log_item_known [of l "op_after x"]
      by (auto simp: crdt_ready_def v canonical_id_def split: option.splits)
    show ?thesis
    proof (cases rule: doc_insert_cases [of "op_id x" d "op_after x" "op_ch x"])
      case known
      then have "find (\<lambda>y. is_ins y \<and> op_id y = op_id x) l \<noteq> None"
        unfolding v log_item_known find_ex by blast
      then show ?thesis
        using known(4) True by (auto simp: ap v log_item_def find_snoc split: option.splits)
    next
      case (added d')
      then have "find (\<lambda>y. is_ins y \<and> op_id y = op_id x) l = None"
        using find_ex [of _ l] log_item_known [of l "op_id x"] v by fastforce
      moreover from this have "\<not> list_ex (\<lambda>y. is_del y \<and> op_id y = op_id x) l"
        using ok by (fastforce simp: log_ok_def list_ex_iff find_None_iff)
      ultimately show ?thesis using added(5,6) True
        by (auto simp: ap adds_def v log_item_def find_snoc split: option.splits)
    qed (use p in auto)
  next
    case False
    with r have d: "is_del x" "list_ex (\<lambda>y. is_ins y \<and> op_id y = op_id x) l" "parseID (op_id x) \<noteq> None"
      by (auto simp: crdt_ready_def canonical_id_def split: option.splits)
    then have ap: "doc_apply d x = doc_delete d (op_id x)"
      by (auto simp: doc_apply_def is_del_def js_def)
    show ?thesis using False d(1)
      by (auto simp: ap get_item_delete v log_item_def find_snoc split: option.splits)
  qed
qed
interpretation doc_replica:
  replica "\<lambda>d x. fst (doc_apply d x)" crdt_ready canonical_doc log_item get_item
proof unfold_locales
  fix d :: doc and l :: "crdt_op list" and x :: crdt_op
  assume "canonical_doc d" "get_item d = log_item l" "delivered crdt_ready [] l" "crdt_ready l x"
  then show "canonical_doc (fst (doc_apply d x))" "get_item (fst (doc_apply d x)) = log_item (l @ [x])"
    using ready_view delivered_log_ok [of "[]" l]
    by (auto intro: canonical_apply simp: crdt_ready_def log_ok_def)
next
  fix l l' :: "crdt_op list"
  assume "delivered crdt_ready [] l" "set l = set l'"
  then show "log_item l = log_item l'"
    using delivered_log_ok [of "[]" l] by (intro log_item_set) (simp_all add: log_ok_def)
qed

section \<open>Batches\<close>

lemma apply_loop_foldl:
  "\<lbrakk>canonical_doc d; get_item d = log_item l; delivered crdt_ready [] (l @ xs)\<rbrakk> \<Longrightarrow>
     \<exists>b. apply_loop d xs k c = (foldl (\<lambda>d x. fst (doc_apply d x)) d xs, BatchOk b)"
proof (induction xs arbitrary: d l k c)
  case (Cons x xs)
  have r: "crdt_ready l x" "delivered crdt_ready [] l" using Cons.prems(3) by (simp_all add: delivered_append)
  obtain b where b: "snd (doc_apply d x) = Inr b" using ready_result [OF Cons.prems(1,2) r(1)] by blast
  have "\<exists>b'. apply_loop (fst (doc_apply d x)) xs (Suc k) (c \<or> b) =
      (foldl (\<lambda>d x. fst (doc_apply d x)) (fst (doc_apply d x)) xs, BatchOk b')"
    using Cons.prems r doc_replica.step_good [OF Cons.prems(1,2) r(2,1)]
      doc_replica.step_view [OF Cons.prems(1,2) r(2,1)]
    by (intro Cons.IH [of _ "l @ [x]"]) auto
  then show ?case using b by (auto split: prod.splits)
qed simp

text \<open>A causally ordered batch that is not empty is applied in full.\<close>

lemma applyBatch_foldl:
  assumes "canonical_doc d" "get_item d = log_item l" "delivered crdt_ready [] (l @ xs)"
  shows "fst (applyBatch d xs) = foldl (\<lambda>d x. fst (doc_apply d x)) d xs"
    and "xs \<noteq> [] \<Longrightarrow> batch_ok (snd (applyBatch d xs))"
  using apply_loop_foldl [OF assms, of 0 False] by (auto simp: applyBatch_def batch_ok_def)

lemma batches_foldl:
  assumes "canonical_doc d" "get_item d = log_item l" "delivered crdt_ready [] (l @ concat bs)"
  shows "foldl (\<lambda>d b. fst (applyBatch d b)) d bs = foldl (\<lambda>d x. fst (doc_apply d x)) d (concat bs)"
  using assms
proof (induction bs arbitrary: d l)
  case (Cons b bs)
  have ds: "delivered crdt_ready [] (l @ b)" using Cons.prems(3) by (simp add: delivered_append)
  note rv = doc_replica.run_view [OF Cons.prems(1,2) ds]
  have "foldl (\<lambda>d b. fst (applyBatch d b)) (foldl (\<lambda>d x. fst (doc_apply d x)) d b) bs =
      foldl (\<lambda>d x. fst (doc_apply d x)) (foldl (\<lambda>d x. fst (doc_apply d x)) d b) (concat bs)"
    using rv Cons.prems(3) by (intro Cons.IH [of _ "l @ b"]) auto
  then show ?case using applyBatch_foldl(1) [OF Cons.prems(1,2) ds] by simp
qed simp

lemma batches_converge:
  assumes "delivered crdt_ready [] (concat bs)" "delivered crdt_ready [] (concat cs)"
    and "set (concat bs) = set (concat cs)"
  shows "canonical_doc (foldl (\<lambda>d b. fst (applyBatch d b)) newDoc bs)"
    and "same_doc (foldl (\<lambda>d b. fst (applyBatch d b)) newDoc bs) (foldl (\<lambda>d b. fst (applyBatch d b)) newDoc cs)"
proof -
  have new: "canonical_doc newDoc" "get_item newDoc = log_item []"
    by (auto simp: canonical_newDoc log_item_def)
  note b = batches_foldl [OF new, of bs] and c = batches_foldl [OF new, of cs]
  note rb = doc_replica.run_view [OF new, of "concat bs"] and rc = doc_replica.run_view [OF new, of "concat cs"]
  show "canonical_doc (foldl (\<lambda>d b. fst (applyBatch d b)) newDoc bs)" using b rb assms(1) by simp
  show "same_doc (foldl (\<lambda>d b. fst (applyBatch d b)) newDoc bs) (foldl (\<lambda>d b. fst (applyBatch d b)) newDoc cs)"
    using b c rb rc assms doc_replica.run_converges [OF new assms]
    by (intro canonical_same) simp_all
qed

end
