(* ===== verification/CrdtDiff.thy ===== *)
theory CrdtDiff
  imports CrdtConverge
begin

text \<open>
  From an edited text to operations: \<open>diffToOps\<close> of \<open>static/crdt.js\<close>, and what applying its result
  does to the document it was computed from. \<open>visible\<close> is the list of atoms a reader sees; an insert
  with a fresh, greatest clock goes directly behind its visible parent, so the operations turn the
  old text into exactly the new one and the predicted identifiers are the ones the document has.
\<close>

section \<open>The diff\<close>

record diff_result =
  df_ops :: "crdt_op list"
  df_nextIds :: "jsstring list"
  df_clock :: nat

text \<open>An array element; reading past the end gives \<open>undefined\<close>, an absent identifier.\<close>

definition id_at :: "jsstring list \<Rightarrow> nat \<Rightarrow> jsstring" where
  [js_eval]: "id_at ids k = (if k < length ids then ids ! k else [])"

fun diff_lo :: "jsstring list \<Rightarrow> jsstring list \<Rightarrow> nat" where
  "diff_lo (x # xs) (y # ys) = (if x = y then Suc (diff_lo xs ys) else 0)"
| "diff_lo _ _ = 0"

fun diff_ro :: "nat \<Rightarrow> jsstring list \<Rightarrow> jsstring list \<Rightarrow> nat \<Rightarrow> nat \<Rightarrow> nat \<times> nat" where
  "diff_ro lo old new 0 roNew = (0, roNew)"
| "diff_ro lo old new (Suc o') roNew =
     (if lo < Suc o' \<and> lo < roNew \<and> old ! o' = new ! (roNew - 1) then diff_ro lo old new o' (roNew - 1)
      else (Suc o', roNew))"

fun diff_ins :: "jsstring \<Rightarrow> nat \<Rightarrow> jsstring \<Rightarrow> jsstring list \<Rightarrow> crdt_op list \<times> nat" where
  "diff_ins site clock after [] = ([], clock)"
| "diff_ins site clock after (c # cs) =
     (let clock' = num_inc clock;
          i = formatID site clock';
          (ops, end_clock) = diff_ins site clock' i cs
      in (ins_op i after c # ops, end_clock))"

definition diffToOps :: "jsstring list \<Rightarrow> jsstring list \<Rightarrow> jsstring list \<Rightarrow> jsstring \<Rightarrow> nat \<Rightarrow> diff_result" where
  [js_eval]: "diffToOps oldChars oldIds newChars site clockStart =
     (let lo = diff_lo oldChars newChars;
          (roOld, roNew) = diff_ro lo oldChars newChars (length oldChars) (length newChars);
          dels = map (\<lambda>k. del_op (id_at oldIds k)) [lo..<roOld];
          after = (if 0 < lo then id_at oldIds (lo - 1) else []);
          (inss, clock) = diff_ins site clockStart after (take (roNew - lo) (drop lo newChars));
          ops = dels @ inss
      in \<lparr>df_ops = ops,
          df_nextIds = map (id_at oldIds) [0..<lo] @ map op_id (filter is_ins ops) @
                       map (id_at oldIds) [roOld..<length oldChars],
          df_clock = clock\<rparr>)"

section \<open>The shape of a diff\<close>

lemma diff_lo_prefix:
  "diff_lo xs ys \<le> length xs \<and> diff_lo xs ys \<le> length ys \<and> take (diff_lo xs ys) xs = take (diff_lo xs ys) ys"
  by (induction xs ys rule: diff_lo.induct) auto

lemma diff_ro_suffix:
  assumes "diff_ro lo old new o0 n0 = (o1, n1)" "lo \<le> o0" "lo \<le> n0"
    and "o0 \<le> length old" "n0 \<le> length new" "drop o0 old = drop n0 new"
  shows "lo \<le> o1 \<and> lo \<le> n1 \<and> o1 \<le> o0 \<and> n1 \<le> n0 \<and> drop o1 old = drop n1 new"
  using assms
proof (induction lo old new o0 n0 rule: diff_ro.induct)
  case (2 lo old new o' n0)
  show ?case
  proof (cases "lo < Suc o' \<and> lo < n0 \<and> old ! o' = new ! (n0 - 1)")
    case True
    then have "drop o' old = drop (n0 - 1) new"
      using 2 Cons_nth_drop_Suc [of o' old] Cons_nth_drop_Suc [of "n0 - 1" new]
      by (cases n0) simp_all
    with True 2 have "lo \<le> o1 \<and> lo \<le> n1 \<and> o1 \<le> o' \<and> n1 \<le> n0 - 1 \<and> drop o1 old = drop n1 new"
      by auto
    then show ?thesis by linarith
  next
    case False
    with 2 show ?thesis by auto
  qed
qed simp

text \<open>The old list is prefix, deleted part, suffix; the new one prefix, inserted part, suffix.\<close>

lemma diff_split:
  assumes "lo = diff_lo old new" "diff_ro lo old new (length old) (length new) = (ro, rn)"
  shows "lo \<le> ro \<and> ro \<le> length old \<and> lo \<le> rn \<and> rn \<le> length new"
    and "new = take lo old @ take (rn - lo) (drop lo new) @ drop ro old"
proof -
  note p = diff_lo_prefix [of old new, folded assms(1)]
  have s: "lo \<le> ro \<and> lo \<le> rn \<and> ro \<le> length old \<and> rn \<le> length new \<and> drop ro old = drop rn new"
    using diff_ro_suffix [OF assms(2)] p by simp
  then show "lo \<le> ro \<and> ro \<le> length old \<and> lo \<le> rn \<and> rn \<le> length new" by simp
  have "new = take lo new @ take (rn - lo) (drop lo new) @ drop rn new"
    using s by (metis add.commute append_take_drop_id drop_drop le_add_diff_inverse2)
  with p s show "new = take lo old @ take (rn - lo) (drop lo new) @ drop ro old" by simp
qed

section \<open>Edits of the visible text\<close>

definition visible :: "doc \<Rightarrow> item list" where
  "visible d = filter (\<lambda>it. \<not> it_del it) (walk d [])"

lemma visible_readers:
  "visibleIds d = map it_id (visible d)" "materialize d = concat (map it_ch (visible d))"
  by (simp_all add: visible_def visibleIds_def materialize_def)

text \<open>Every clock in the document is at most \<open>m\<close>.\<close>

definition clocks_le :: "doc \<Rightarrow> nat \<Rightarrow> bool" where
  "clocks_le d m \<longleftrightarrow> (\<forall>k\<in>doc_ids d. id_clock k \<le> m)"

lemma clocks_le_maxClock: "\<lbrakk>canonical_doc d; maxClock d \<le> m\<rbrakk> \<Longrightarrow> clocks_le d m"
  unfolding clocks_le_def
proof
  fix k assume c: "canonical_doc d" and m: "maxClock d \<le> m" and k: "k \<in> doc_ids d"
  have "canonical_id k" using c k canonical_item [of d k] by (auto simp: doc_ids_get_item)
  then have "id_clock k \<le> maxClock d"
    unfolding maxClock_def using k by (intro maxClockFromIds_ge [OF _ parseID_key]) (simp_all add: doc_ids_def)
  with m show "id_clock k \<le> m" by simp
qed

lemma id_formatID:
  assumes "site \<noteq> []" "colon \<notin> set site" "0 < c" "c \<le> max_exact"
  shows "id_clock (formatID site c) = c" "canonical_id (formatID site c)"
  using parse_formatID_raw [OF assms] canonical_formatID [OF assms] by (simp_all add: id_clock_def)

lemma adds_doc_ids: "adds d d' i it \<Longrightarrow> doc_ids d' = insert i (doc_ids d)"
  by (auto simp: set_eq_iff doc_ids_get_item adds_def)

lemma concat_same: "a \<notin> f ` set xs \<Longrightarrow> concat (map (\<lambda>y. if f y = a then [y, t] else [y]) xs) = xs"
  by (induction xs) auto

lemma concat_behind:
  "distinct (map f (Q @ x # S)) \<Longrightarrow>
   concat (map (\<lambda>y. if f y = f x then [y, t] else [y]) (Q @ x # S)) = Q @ x # t # S"
  using concat_same [of "f x" f Q t] concat_same [of "f x" f S t] by simp

lemma filter_concat_behind:
  "\<lbrakk>\<forall>x\<in>set xs. f x = a \<longrightarrow> P x; P t\<rbrakk> \<Longrightarrow>
   filter P (concat (map (\<lambda>y. if f y = a then [y, t] else [y]) xs)) =
     concat (map (\<lambda>y. if f y = a then [y, t] else [y]) (filter P xs))"
  by (induction xs) auto

text \<open>The visible atoms after a walk that has the new atom directly behind its parent.\<close>

lemma visible_behind:
  assumes wf: "wf_doc d" and v: "visible d = P @ S" and a: "a = (if P = [] then [] else it_id (last P))"
    and it: "\<not> it_del x0"
    and w: "walk d' [] = (if a = [] then x0 # walk d []
      else concat (map (\<lambda>x. if it_id x = a then [x, x0] else [x]) (walk d [])))"
  shows "visible d' = P @ x0 # S"
proof (cases "P = []")
  case True
  with w a v it show ?thesis by (simp add: visible_def)
next
  case False
  then have a': "a = it_id (last P)" using a by simp
  obtain Q where Q: "P = Q @ [last P]" using False append_butlast_last_id [of P] by metis
  have "last P \<in> set (visible d)" using False v by simp
  then have mem: "get_item d a = Some (last P)" "\<not> it_del (last P)"
    using walk_item [OF wf, of "last P"] by (simp_all add: visible_def a')
  have "a \<noteq> []" using wf_get_item [OF wf mem(1)] by auto
  moreover have "\<forall>x\<in>set (walk d []). it_id x = a \<longrightarrow> \<not> it_del x"
    using walk_item [OF wf] mem by (metis option.inject)
  ultimately have "visible d' = concat (map (\<lambda>x. if it_id x = a then [x, x0] else [x]) (visible d))"
    using filter_concat_behind [of "walk d []" it_id a "\<lambda>x. \<not> it_del x" x0] w it by (simp add: visible_def)
  moreover have "distinct (map it_id (P @ S))" using distinct_visibleIds [OF wf] v by (simp add: visible_readers)
  moreover have "visible d = Q @ last P # S" by (subst v, subst Q) simp
  ultimately have "visible d' = Q @ last P # x0 # S"
    using concat_behind [of it_id Q "last P" S x0] a' by (metis v)
  then show ?thesis by (subst Q) simp
qed

text \<open>A fresh insert behind the last atom of \<open>P\<close>.\<close>

lemma visible_insert:
  assumes c: "canonical_doc d" and cl: "clocks_le d m" and i: "canonical_id i" "m < id_clock i"
    and ch: "singleCodePoint ch" and v: "visible d = P @ S"
    and a: "a = (if P = [] then [] else it_id (last P))"
  shows "\<exists>d'. doc_insert d i a ch = (d', Inr True) \<and> canonical_doc d' \<and> clocks_le d' (id_clock i) \<and>
    visible d' = P @ \<lparr>it_id = i, it_after = a, it_ch = ch, it_del = False\<rparr> # S"
proof -
  let ?it = "\<lparr>it_id = i, it_after = a, it_ch = ch, it_del = False\<rparr>"
  have wf: "wf_doc d" by (rule canonical_wf [OF c])
  have fresh: "get_item d i = None" using cl i(2) doc_ids_get_item [of i d] by (auto simp: clocks_le_def)
  have mem: "get_item d (it_id x) = Some x \<and> \<not> it_del x" if "x \<in> set P" for x
  proof -
    have "x \<in> set (visible d)" using that v by simp
    then show ?thesis using walk_item [OF wf, of x] by (simp add: visible_def)
  qed
  have par: "a = [] \<or> get_item d a \<noteq> None" using a mem [of "last P"] by auto
  have pi: "parseID i \<noteq> None" using i(1) by (auto simp: canonical_id_def split: option.splits)
  obtain d' where d': "doc_insert d i a ch = (d', Inr True)" "adds d d' i ?it"
    using doc_insert_cases [of i d a ch] pi ch fresh par by metis
  have c': "canonical_doc d'" using canonical_insert [OF c i(1), of a ch] d'(1) by simp
  have ne: "a \<noteq> i" "i \<noteq> []" using par fresh canonical_nonempty [OF i(1)] by auto
  have "compareSibling i k < 0" if "k \<in> set (kids d a)" for k
  proof -
    have "id_clock k \<le> m" "canonical_id k"
      using that canonical_kids(3) [OF c, of a] wf_kids_ids [OF wf, of a] cl by (auto simp: clocks_le_def)
    with i show ?thesis by (simp add: compareSibling_key)
  qed
  then have "kids d' a = i # kids d a"
    using d'(2) canonical_kids(3) [OF c, of a] i(1) sib.insert_first [of "kids d a" i] by (auto simp: adds_def)
  then have w: "walk d' [] = (if a = [] then ?it # walk d []
      else concat (map (\<lambda>x. if it_id x = a then [x, ?it] else [x]) (walk d [])))"
    using walk_adds_first [OF wf canonical_wf [OF c'] d'(2)] ne by simp
  then have "visible d' = P @ ?it # S" using visible_behind [OF wf v a, of ?it d'] by simp
  moreover have "clocks_le d' (id_clock i)" using cl i(2) adds_doc_ids [OF d'(2)] by (auto simp: clocks_le_def)
  ultimately show ?thesis using d'(1) c' by blast
qed

lemma filter_other: "i \<notin> f ` set xs \<Longrightarrow> filter (\<lambda>y. f y \<noteq> i) xs = xs"
  by (induction xs) auto

lemma filter_map_del:
  "filter (\<lambda>it. \<not> it_del it) (map (\<lambda>y. if it_id y = i then y\<lparr>it_del := True\<rparr> else y) xs) =
   filter (\<lambda>y. it_id y \<noteq> i) (filter (\<lambda>it. \<not> it_del it) xs)"
  by (induction xs) auto

lemma visible_dels:
  assumes "canonical_doc d" "clocks_le d m"
    and "visible d = P @ M @ S" "\<forall>x\<in>set M. canonical_id (it_id x)"
  shows "\<exists>d' b. apply_loop d (map (\<lambda>x. del_op (it_id x)) M) k c = (d', BatchOk b) \<and>
    canonical_doc d' \<and> clocks_le d' m \<and> visible d' = P @ S"
  using assms
proof (induction M arbitrary: d k c)
  case (Cons x M)
  let ?d = "fst (doc_delete d (it_id x))"
  have wf: "wf_doc d" by (rule canonical_wf [OF Cons.prems(1)])
  have ids: "doc_ids ?d = doc_ids d" by (simp only: doc_ids_def set_map [symmetric] items_delete_fst)
  have dist: "distinct (map it_id (P @ (x # M) @ S))"
    using distinct_visibleIds [OF wf] Cons.prems(3) by (simp add: visible_readers)
  have "visible ?d = filter (\<lambda>y. it_id y \<noteq> it_id x) (visible d)"
    unfolding visible_def walk_delete [OF wf] by (rule filter_map_del)
  also have "\<dots> = P @ M @ S"
    using dist Cons.prems(3) filter_other [of "it_id x" it_id P] filter_other [of "it_id x" it_id M]
      filter_other [of "it_id x" it_id S] by simp
  finally have v: "visible ?d = P @ M @ S" .
  have ap: "\<exists>b. doc_apply d (del_op (it_id x)) = (?d, Inr b)"
    using Cons.prems(4) by (auto simp: doc_apply_def js_def doc_delete_def canonical_id_def split: option.splits)
  have "\<exists>d' b. apply_loop ?d (map (\<lambda>x. del_op (it_id x)) M) (Suc k) c' = (d', BatchOk b) \<and>
      canonical_doc d' \<and> clocks_le d' m \<and> visible d' = P @ S" for c'
    using Cons.prems(2,4) ids v canonical_delete [OF Cons.prems(1)]
    by (intro Cons.IH) (simp_all add: clocks_le_def)
  with ap show ?case by fastforce
qed simp

lemma visible_inss:
  assumes "canonical_doc d" "clocks_le d m" "visible d = P @ S"
    and "a = (if P = [] then [] else it_id (last P))" "diff_ins site m a cs = (ops, m')"
    and "site \<noteq> []" "colon \<notin> set site" "m + length cs \<le> max_exact" "\<forall>c\<in>set cs. singleCodePoint c"
  shows "\<exists>d' b N. apply_loop d ops k ch = (d', BatchOk b) \<and> canonical_doc d' \<and> clocks_le d' m' \<and>
    visible d' = P @ N @ S \<and> map it_ch N = cs \<and> map it_id N = map op_id ops \<and> m' = m + length cs"
  using assms
proof (induction cs arbitrary: d m P a ops k ch)
  case Nil
  then show ?case by simp
next
  case (Cons c cs)
  let ?i = "formatID site (Suc m)" let ?it = "\<lparr>it_id = ?i, it_after = a, it_ch = c, it_del = False\<rparr>"
  have inc: "num_inc m = Suc m" using Cons.prems(8) by (intro num_inc_exact) simp
  have i: "id_clock ?i = Suc m" "canonical_id ?i"
    using id_formatID [OF Cons.prems(6,7), of "Suc m"] Cons.prems(8) by simp_all
  obtain ops' where ops': "ops = ins_op ?i a c # ops'" "diff_ins site (Suc m) ?i cs = (ops', m')"
    using Cons.prems(5) by (auto simp: inc Let_def split: prod.splits)
  obtain d1 where d1: "doc_insert d ?i a c = (d1, Inr True)" "canonical_doc d1" "clocks_le d1 (Suc m)"
    "visible d1 = P @ ?it # S"
    using visible_insert [OF Cons.prems(1,2) i(2) _ _ Cons.prems(3,4), of c] i Cons.prems(9) by auto
  have "\<exists>d' b N. apply_loop d1 ops' (Suc k) True = (d', BatchOk b) \<and> canonical_doc d' \<and> clocks_le d' m' \<and>
      visible d' = (P @ [?it]) @ N @ S \<and> map it_ch N = cs \<and> map it_id N = map op_id ops' \<and> m' = Suc m + length cs"
    using d1 Cons.prems(6-9) by (intro Cons.IH [OF _ _ _ _ ops'(2)]) simp_all
  then obtain d' b N where "apply_loop d1 ops' (Suc k) True = (d', BatchOk b)" "canonical_doc d'" "clocks_le d' m'"
    "visible d' = P @ (?it # N) @ S" "map it_ch N = cs" "map it_id N = map op_id ops'" "m' = Suc m + length cs"
    by auto
  moreover have "doc_apply d (ins_op ?i a c) = (d1, Inr True)" by (simp add: doc_apply_def js_def d1(1))
  ultimately show ?case
    by (intro exI [of _ d'] exI [of _ b] exI [of _ "?it # N"]) (simp add: ops'(1))
qed
section \<open>The diff applied\<close>

text \<open>The visible atoms are the code points of the text: no two halves of a pair stand side by side.\<close>

definition aligned :: "doc \<Rightarrow> bool" where
  "aligned d \<longleftrightarrow> codePoints (materialize d) = map it_ch (visible d)"

lemma codePoints_concat [simp]: "concat (codePoints s) = s"
  by (induction s rule: codePoints.induct) auto

lemma codePoints_single: "c \<in> set (codePoints s) \<Longrightarrow> singleCodePoint c"
proof (induction s rule: codePoints.induct)
  case (2 u)
  then show ?case using unat_codeunit [of u] by (auto simp: singleCodePoint_def code_point_at_def cp_width_def)
next
  case (3 u v us)
  then show ?case using unat_codeunit [of u]
    by (auto simp: singleCodePoint_def code_point_at_def cp_width_def split: if_splits)
qed simp

lemma apply_loop_append:
  "apply_loop d xs k c = (d1, BatchOk b) \<Longrightarrow> apply_loop d (xs @ ys) k c = apply_loop d1 ys (k + length xs) b"
  by (induction xs arbitrary: d k c) (auto split: prod.splits sum.splits)

lemma map_id_slice:
  "\<lbrakk>lo \<le> ro; ro \<le> length xs\<rbrakk> \<Longrightarrow>
   map (\<lambda>k. f (id_at (map it_id xs) k)) [lo..<ro] = map (\<lambda>x. f (it_id x)) (take (ro - lo) (drop lo xs))"
  by (rule nth_equalityI) (auto simp: id_at_def)

lemma diff_ins_kinds: "diff_ins site m a cs = (ops, m') \<Longrightarrow> list_all is_ins ops"
  by (induction cs arbitrary: m a ops) (auto simp: Let_def split: prod.splits)

lemma diff_applies:
  assumes c: "canonical_doc d" and cl: "clocks_le d m" and al: "map it_ch (visible d) = old"
    and site: "site \<noteq> []" "colon \<notin> set site" and m: "m + length new \<le> max_exact"
    and new: "\<forall>c\<in>set new. singleCodePoint c"
    and r: "diffToOps old (visibleIds d) new site m = r" "df_ops r \<noteq> []"
  shows "\<exists>d' b. applyBatch d (df_ops r) = (d', BatchOk b) \<and> canonical_doc d' \<and> clocks_le d' (df_clock r) \<and>
    map it_ch (visible d') = new \<and> visibleIds d' = df_nextIds r \<and>
    (\<exists>P M N S inss. visible d = P @ M @ S \<and> visible d' = P @ N @ S \<and> list_all is_ins inss \<and>
       df_ops r = map (\<lambda>x. del_op (it_id x)) M @ inss \<and> map it_id N = map op_id inss)"
proof -
  define lo where "lo = diff_lo old new"
  obtain ro rn where ro: "diff_ro lo old new (length old) (length new) = (ro, rn)" by force
  note s = diff_split [OF lo_def ro]
  have len: "length (visible d) = length old" using al by (metis length_map)
  let ?P = "take lo (visible d)" let ?M = "take (ro - lo) (drop lo (visible d))" let ?S = "drop ro (visible d)"
  have v: "visible d = ?P @ ?M @ ?S"
    using s(1) by (metis add.commute append_take_drop_id drop_drop le_add_diff_inverse2)
  let ?cs = "take (rn - lo) (drop lo new)"
  let ?a = "if ?P = [] then [] else it_id (last ?P)"
  obtain inss m' where i: "diff_ins site m ?a ?cs = (inss, m')" by force
  have dels: "map (\<lambda>k. del_op (id_at (visibleIds d) k)) [lo..<ro] = map (\<lambda>x. del_op (it_id x)) ?M"
    using s(1) len map_id_slice [of lo ro "visible d" del_op] by (simp add: visible_readers)
  have a: "(if 0 < lo then id_at (visibleIds d) (lo - 1) else []) = ?a"
    using s(1) len by (auto simp: id_at_def visible_readers last_conv_nth)
  have can: "\<forall>x\<in>set ?M. canonical_id (it_id x)"
    using walk_item [OF canonical_wf [OF c]] canonical_item [OF c]
    by (auto simp: visible_def dest!: in_set_takeD in_set_dropD)
  obtain d1 b1 where d1: "apply_loop d (map (\<lambda>x. del_op (it_id x)) ?M) 0 False = (d1, BatchOk b1)"
    "canonical_doc d1" "clocks_le d1 m" "visible d1 = ?P @ ?S"
    using visible_dels [OF c cl v can] by blast
  have "m + length ?cs \<le> max_exact" "\<forall>c\<in>set ?cs. singleCodePoint c"
    using m new by (auto dest: in_set_takeD in_set_dropD)
  then obtain d2 b2 N where d2: "apply_loop d1 inss (length ?M) b1 = (d2, BatchOk b2)" "canonical_doc d2"
    "clocks_le d2 m'" "visible d2 = ?P @ N @ ?S" "map it_ch N = ?cs" "map it_id N = map op_id inss"
    using visible_inss [OF d1(2,3,4) refl i site, of "length ?M" b1] by blast
  have ops: "df_ops r = map (\<lambda>x. del_op (it_id x)) ?M @ inss" "df_clock r = m'"
    "df_nextIds r = map (id_at (visibleIds d)) [0..<lo] @ map op_id (filter is_ins (df_ops r)) @
       map (id_at (visibleIds d)) [ro..<length old]"
    using r(1) i by (auto simp: diffToOps_def Let_def lo_def [symmetric] ro dels a)
  have fi: "filter is_ins (df_ops r) = inss"
    using diff_ins_kinds [OF i] by (simp add: ops(1) filter_map comp_def list_all_iff)
  have "map it_ch (visible d2) = new"
    using d2(4,5) by (subst s(2)) (simp add: al [symmetric] take_map drop_map)
  moreover have "visibleIds d2 = df_nextIds r"
    using s(1) len d2(4,6) map_id_slice [of 0 lo "visible d" "\<lambda>x. x"]
      map_id_slice [of ro "length old" "visible d" "\<lambda>x. x"]
    by (simp add: ops(3) fi visible_readers)
  moreover have "applyBatch d (df_ops r) = (d2, BatchOk b2)"
    using r(2) apply_loop_append [OF d1(1), of inss] d2(1) by (simp add: applyBatch_def ops(1))
  moreover have "list_all is_ins inss" by (rule diff_ins_kinds [OF i])
  ultimately show ?thesis using d2(2,3,4,6) ops(1,2) v by blast
qed

lemma diff_not_empty:
  assumes "old \<noteq> new"
  shows "df_ops (diffToOps old ids new site m) \<noteq> []"
proof
  assume e: "df_ops (diffToOps old ids new site m) = []"
  obtain ro rn where ro: "diff_ro (diff_lo old new) old new (length old) (length new) = (ro, rn)" by force
  note s = diff_split [OF refl ro]
  have ins: "cs = []" if "diff_ins site m a cs = ([], x)" for a cs x
    using that by (cases cs) (auto simp: Let_def split: prod.splits)
  have "ro \<le> diff_lo old new" "take (rn - diff_lo old new) (drop (diff_lo old new) new) = []"
    using e by (auto simp: diffToOps_def Let_def ro split: prod.splits dest!: ins)
  with s(1) have "ro = diff_lo old new" "take (rn - diff_lo old new) (drop (diff_lo old new) new) = []"
    by auto
  with s(2) assms show False by (metis append_Nil append_take_drop_id)
qed

section \<open>A built document\<close>

lemma build_loop_visible:
  assumes "canonical_doc d" "clocks_le d k" "visible d = P" "prev = (if P = [] then [] else it_id (last P))"
    and "site \<noteq> []" "colon \<notin> set site" "k + length cs \<le> max_exact" "\<forall>c\<in>set cs. singleCodePoint c"
  shows "\<exists>d' N. build_loop d site cs k prev = Some d' \<and> canonical_doc d' \<and> clocks_le d' (k + length cs) \<and>
    visible d' = P @ N \<and> map it_ch N = cs \<and> map it_id N = map (formatID site) [Suc k..<Suc (k + length cs)]"
  using assms
proof (induction cs arbitrary: d k prev P)
  case Nil
  then show ?case by simp
next
  case (Cons c cs)
  let ?i = "formatID site (Suc k)" let ?it = "\<lparr>it_id = ?i, it_after = prev, it_ch = c, it_del = False\<rparr>"
  have i: "id_clock ?i = Suc k" "canonical_id ?i"
    using id_formatID [OF Cons.prems(5,6), of "Suc k"] Cons.prems(7) by simp_all
  obtain d1 where d1: "doc_insert d ?i prev c = (d1, Inr True)" "canonical_doc d1" "clocks_le d1 (Suc k)"
    "visible d1 = P @ ?it # []"
    using visible_insert [OF Cons.prems(1,2) i(2) _ _ _ Cons.prems(4), of c "[]"] i Cons.prems(3,8) by auto
  have "\<exists>d' N. build_loop d1 site cs (Suc k) ?i = Some d' \<and> canonical_doc d' \<and> clocks_le d' (Suc k + length cs) \<and>
      visible d' = (P @ [?it]) @ N \<and> map it_ch N = cs \<and>
      map it_id N = map (formatID site) [Suc (Suc k)..<Suc (Suc k + length cs)]"
    using d1 Cons.prems(5-8) by (intro Cons.IH) simp_all
  then obtain d' N where "build_loop d1 site cs (Suc k) ?i = Some d'" "canonical_doc d'"
    "clocks_le d' (Suc k + length cs)" "visible d' = P @ ?it # N" "map it_ch N = cs"
    "map it_id N = map (formatID site) [Suc (Suc k)..<Suc (Suc k + length cs)]" by auto
  then show ?case
    by (intro exI [of _ d'] exI [of _ "?it # N"]) (simp add: d1(1) Let_def upt_conv_Cons del: upt_Suc)
qed

lemma buildFromString_ok:
  assumes "site \<noteq> []" "colon \<notin> set site" "length (codePoints s) \<le> max_exact"
  shows "\<exists>d. buildFromString site s = Some d \<and> canonical_doc d \<and> clocks_le d (length (codePoints s)) \<and>
    map it_ch (visible d) = codePoints s \<and>
    visibleIds d = map (formatID site) [1..<Suc (length (codePoints s))]"
proof -
  have "\<exists>d' N. build_loop newDoc site (codePoints s) 0 [] = Some d' \<and> canonical_doc d' \<and>
      clocks_le d' (0 + length (codePoints s)) \<and> visible d' = [] @ N \<and> map it_ch N = codePoints s \<and>
      map it_id N = map (formatID site) [Suc 0..<Suc (0 + length (codePoints s))]"
    using assms codePoints_single
    by (intro build_loop_visible)
       (auto simp: canonical_newDoc clocks_le_def doc_ids_get_item visible_def walk_eqI [OF wf_newDoc])
  then show ?thesis by (auto simp: buildFromString_def visible_readers)
qed

lemma aligned_chars: "map it_ch (visible d) = codePoints s \<Longrightarrow> materialize d = s \<and> aligned d"
  by (simp add: aligned_def visible_readers)

end
