(* ===== verification/TextOffsets.thy ===== *)
theory TextOffsets
  imports CrdtDiff
begin

text \<open>
  UTF-16 offsets and code-point offsets of a text (\<open>static/crdt.js\<close>, \<open>utf16ToCodePointOffset\<close> and
  \<open>codePointToUtf16Offset\<close>): both loops as recursive functions, and their meaning over the list of
  code points. An offset inside a surrogate pair is rounded up to the end of the pair.
\<close>

section \<open>Offsets\<close>

text \<open>\<open>i += code > 0xffff ? 2 : 1\<close> with \<open>code\<close> the code point at \<open>i\<close>, \<open>undefined\<close> past the end.\<close>

definition cp_step :: "jsstring \<Rightarrow> nat \<Rightarrow> nat" where
  [js_eval]: "cp_step s i = (case code_point_at s i of None \<Rightarrow> 1 | Some c \<Rightarrow> cp_width c)"

lemma cp_step_pos [simp]: "0 < cp_step s i"
  by (simp add: cp_step_def cp_width_def split: option.splits)

function utf16_loop :: "jsstring \<Rightarrow> nat \<Rightarrow> nat \<Rightarrow> nat \<Rightarrow> nat" where
  "utf16_loop s target i cp = (if i < target then utf16_loop s target (i + cp_step s i) (cp + 1) else cp)"
  by pat_completeness auto
termination by (relation "measure (\<lambda>(s, target, i, cp). target - i)") (auto intro: diff_less_mono2)

declare utf16_loop.simps [simp del, js_eval]

function cp_loop :: "jsstring \<Rightarrow> nat \<Rightarrow> nat \<Rightarrow> nat \<Rightarrow> nat" where
  "cp_loop s target i cp =
     (if i < length s \<and> cp < target then cp_loop s target (i + cp_step s i) (cp + 1) else i)"
  by pat_completeness auto
termination by (relation "measure (\<lambda>(s, target, i, cp). length s - i)") (auto intro: diff_less_mono2)

declare cp_loop.simps [simp del, js_eval]

definition utf16ToCodePointOffset :: "jsstring \<Rightarrow> int \<Rightarrow> nat" where
  [js_eval]: "utf16ToCodePointOffset s k = utf16_loop s (nat (max 0 (min k (int (length s))))) 0 0"

definition codePointToUtf16Offset :: "jsstring \<Rightarrow> int \<Rightarrow> nat" where
  [js_eval]: "codePointToUtf16Offset s k = cp_loop s (nat (max 0 k)) 0 0"

section \<open>The loops over the code points\<close>

lemma codePoints_step:
  assumes "i < length s"
  shows "codePoints (drop i s) = take (cp_step s i) (drop i s) # codePoints (drop (i + cp_step s i) s)"
proof -
  have w: "cp_step s i = (if Suc i < length s \<and> is_high (s ! i) \<and> is_low (s ! Suc i) then 2 else 1)"
    using code_point_at_width [OF assms] by (auto simp: cp_step_def)
  have d: "drop i s = s ! i # drop (Suc i) s" using assms by (simp add: Cons_nth_drop_Suc)
  show ?thesis
  proof (cases "Suc i < length s")
    case True
    then have e: "drop (Suc i) s = s ! Suc i # drop (Suc (Suc i)) s" by (simp add: Cons_nth_drop_Suc)
    show ?thesis using w True by (simp add: d e numeral_2_eq_2)
  next
    case False
    with assms have "drop (Suc i) s = []" by simp
    then show ?thesis using w False by (simp add: d)
  qed
qed

lemma codePoints_Nil_iff [simp]: "codePoints s = [] \<longleftrightarrow> s = []"
  by (cases s rule: codePoints.cases) auto

lemma cp_loop_codePoints:
  "i \<le> length s \<Longrightarrow> cp_loop s target i cp = i + length (concat (take (target - cp) (codePoints (drop i s))))"
proof (induction s target i cp rule: cp_loop.induct)
  case (1 s target i cp)
  show ?case
  proof (cases "i < length s \<and> cp < target")
    case True
    have c: "codePoints (drop i s) = take (cp_step s i) (drop i s) # codePoints (drop (i + cp_step s i) s)"
      using codePoints_step True by blast
    have le: "i + cp_step s i \<le> length s"
      using code_point_at_width [of i s] True by (auto simp: cp_step_def split: if_splits)
    have "target - cp = Suc (target - (cp + 1))" using True by linarith
    then show ?thesis using 1 True c le by (simp add: cp_loop.simps [of s target i])
  next
    case False
    then show ?thesis using 1 by (auto simp: cp_loop.simps [of s target i])
  qed
qed

text \<open>The number of code points that begin before the offset \<open>t\<close>.\<close>

fun begun :: "nat \<Rightarrow> jsstring list \<Rightarrow> nat" where
  "begun t [] = 0"
| "begun t (c # cs) = (if t = 0 then 0 else Suc (begun (t - length c) cs))"

lemma utf16_loop_codePoints:
  "target \<le> length s \<Longrightarrow> utf16_loop s target i cp = cp + begun (target - i) (codePoints (drop i s))"
proof (induction s target i cp rule: utf16_loop.induct)
  case (1 s target i cp)
  show ?case
  proof (cases "i < target")
    case True
    then have i: "i < length s" using 1 by simp
    have "length (take (cp_step s i) (drop i s)) = cp_step s i"
      using code_point_at_width [OF i] i by (auto simp: cp_step_def split: if_splits)
    moreover have "cp_step s i \<noteq> 0" using cp_step_pos [of s i] by linarith
    ultimately show ?thesis using 1 True by (simp add: utf16_loop.simps [of s target i] codePoints_step [OF i])
  next
    case False
    then show ?thesis by (cases "codePoints (drop i s)") (simp_all add: utf16_loop.simps [of s target i])
  qed
qed

lemma offset_of_cp: "codePointToUtf16Offset s (int k) = length (concat (take k (codePoints s)))"
  by (simp add: codePointToUtf16Offset_def cp_loop_codePoints)

lemma cp_of_offset: "i \<le> length s \<Longrightarrow> utf16ToCodePointOffset s (int i) = begun i (codePoints s)"
  by (simp add: utf16ToCodePointOffset_def utf16_loop_codePoints)

section \<open>Round trips\<close>

lemma begun_prefix: "\<forall>c\<in>set cs. c \<noteq> [] \<Longrightarrow> begun (length (concat (take k cs))) cs = min k (length cs)"
proof (induction cs arbitrary: k)
  case (Cons c cs)
  then show ?case by (cases k) simp_all
qed simp

lemma begun_le: "begun t cs \<le> length cs"
  by (induction t cs rule: begun.induct) auto

lemma begun_covers:
  "\<lbrakk>t \<le> length (concat cs); \<forall>c\<in>set cs. c \<noteq> [] \<and> length c \<le> 2\<rbrakk> \<Longrightarrow>
    t \<le> length (concat (take (begun t cs) cs)) \<and> length (concat (take (begun t cs) cs)) \<le> t + 1"
proof (induction t cs rule: begun.induct)
  case (2 t c cs)
  show ?case
  proof (cases "t = 0")
    case False
    have "t - length c \<le> length (concat cs)" using 2 by simp
    then have "t - length c \<le> length (concat (take (begun (t - length c) cs) cs)) \<and>
        length (concat (take (begun (t - length c) cs) cs)) \<le> t - length c + 1"
      using 2 False by simp
    moreover have "length c \<le> 2" "0 < length c" using 2 by auto
    moreover have "length c \<le> t \<or> begun (t - length c) cs = 0"
      by (cases cs) auto
    ultimately show ?thesis using False by auto
  qed simp
qed simp

lemma begun_mono: "t \<le> u \<Longrightarrow> begun t cs \<le> begun u cs"
  by (induction cs arbitrary: t u) (auto intro: diff_le_mono)

lemma codePoints_sizes: "c \<in> set (codePoints s) \<Longrightarrow> c \<noteq> [] \<and> length c \<le> 2"
  by (induction s rule: codePoints.induct) (auto split: if_splits)

end
