(* ===== verification/Carets.thy ===== *)
theory Carets
  imports TextOffsets
begin

text \<open>
  Carets as code-point gaps (\<open>static/app.js\<close>, \<open>clampPos\<close>, \<open>mapCaretIndex\<close>, \<open>anchorIdAt\<close>,
  \<open>posFromAfterId\<close>, \<open>resolveCaretCp\<close>): a caret moved through a text change keeps the text on its
  side of the edit, and a caret anchored to the character on its left keeps that character.
\<close>

section \<open>Definitions\<close>

definition clampPos :: "jsnum \<Rightarrow> nat \<Rightarrow> nat" where
  [js_eval]: "clampPos pos mx = (case pos of Fin r \<Rightarrow> if r < 0 then 0 else min (nat \<lfloor>r\<rfloor>) mx | _ \<Rightarrow> 0)"

text \<open>A number that is a natural already.\<close>

definition num :: "nat \<Rightarrow> jsnum" where
  [js_eval]: "num n = Fin (of_nat n)"

definition mapCaretIndex :: "jsstring \<Rightarrow> jsstring \<Rightarrow> nat \<Rightarrow> nat" where
  [js_eval]: "mapCaretIndex oldText newText pos0 =
     (let oldChars = codePoints oldText;
          newChars = codePoints newText;
          pos = clampPos (num pos0) (length oldChars)
      in if oldText = newText then pos
         else let lo = diff_lo oldChars newChars;
                  (roOld, roNew) = diff_ro lo oldChars newChars (length oldChars) (length newChars)
              in if pos \<le> lo then pos
                 else if roOld \<le> pos then nat (int pos + (int roNew - int roOld))
                 else lo)"

definition anchorIdAt :: "nat \<Rightarrow> jsstring list \<Rightarrow> jsstring" where
  [js_eval]: "anchorIdAt pos0 ids =
     (let pos = clampPos (num pos0) (length ids) in if 0 < pos then ids ! (pos - 1) else [])"

text \<open>The index of the first element equal to \<open>x\<close>.\<close>

fun index_from :: "nat \<Rightarrow> jsstring \<Rightarrow> jsstring list \<Rightarrow> nat option" where
  "index_from k x [] = None"
| "index_from k x (y # ys) = (if y = x then Some k else index_from (Suc k) x ys)"

text \<open>\<open>None\<close> is the result \<open>-1\<close>: the identifier is unknown.\<close>

definition posFromAfterId :: "jsstring \<Rightarrow> jsstring list \<Rightarrow> nat option" where
  [js_eval]: "posFromAfterId afterId ids =
     (if afterId = [] then Some 0 else map_option Suc (index_from 0 afterId ids))"

text \<open>The left neighbour of a captured caret: none recorded, the document start, or a character.\<close>

datatype left_id = NoAnchor | AtStart | LeftOf jsstring

definition resolveCaretCp :: "left_id \<Rightarrow> nat \<Rightarrow> jsstring list \<Rightarrow> nat" where
  [js_eval]: "resolveCaretCp leftId fallbackCp ids =
     (case leftId of
        NoAnchor \<Rightarrow> clampPos (num fallbackCp) (length ids)
      | AtStart \<Rightarrow> 0
      | LeftOf i \<Rightarrow>
          (case index_from 0 i ids of Some k \<Rightarrow> k + 1 | None \<Rightarrow> clampPos (num fallbackCp) (length ids)))"

section \<open>Facts\<close>

lemma clampPos_num [simp]: "clampPos (num n) mx = min n mx"
  by (simp add: clampPos_def num_def)

lemma clampPos_le [simp]: "clampPos x mx \<le> mx"
  by (auto simp: clampPos_def split: jsnum.splits)

lemma index_from_Some: "index_from k x ys = Some j \<longleftrightarrow>
    (\<exists>m. j = k + m \<and> m < length ys \<and> ys ! m = x \<and> x \<notin> set (take m ys))"
proof (induction ys arbitrary: k)
  case (Cons y ys)
  show ?case
  proof (cases "y = x")
    case True
    have "m = 0" if "x \<notin> set (take m (x # ys))" for m using that by (cases m) simp_all
    with True show ?thesis by fastforce
  next
    case False
    have "(\<exists>m. j = k + m \<and> m < length (y # ys) \<and> (y # ys) ! m = x \<and> x \<notin> set (take m (y # ys))) \<longleftrightarrow>
        (\<exists>m. j = Suc k + m \<and> m < length ys \<and> ys ! m = x \<and> x \<notin> set (take m ys))" (is "?L = ?R")
    proof
      assume ?L
      then obtain m where m: "j = k + m" "m < length (y # ys)" "(y # ys) ! m = x" "x \<notin> set (take m (y # ys))"
        by blast
      then show ?R using False by (cases m) auto
    next
      assume ?R
      then obtain m where "j = Suc k + m" "m < length ys" "ys ! m = x" "x \<notin> set (take m ys)" by blast
      then show ?L using False by (intro exI [of _ "Suc m"]) auto
    qed
    then show ?thesis using False Cons [of "Suc k"] by simp
  qed
qed simp

lemma index_from_None: "index_from k x ys = None \<longleftrightarrow> x \<notin> set ys"
  by (induction ys arbitrary: k) auto

lemma index_from_nth: "\<lbrakk>distinct ys; j < length ys\<rbrakk> \<Longrightarrow> index_from 0 (ys ! j) ys = Some j"
  by (auto simp: index_from_Some in_set_conv_nth nth_eq_iff_index_eq)

lemma posFromAfterId_le: "posFromAfterId a ids = Some p \<Longrightarrow> p \<le> length ids"
  by (auto simp: posFromAfterId_def index_from_Some split: if_splits)

lemma posFromAfterId_left:
  "\<lbrakk>posFromAfterId a ids = Some p; a \<noteq> []\<rbrakk> \<Longrightarrow> 0 < p \<and> ids ! (p - 1) = a"
  by (auto simp: posFromAfterId_def index_from_Some)

lemma anchor_pos:
  assumes "distinct ids" "[] \<notin> set ids"
  shows "posFromAfterId (anchorIdAt p ids) ids = Some (min p (length ids))"
proof (cases "min p (length ids)")
  case 0
  then show ?thesis by (auto simp: anchorIdAt_def posFromAfterId_def)
next
  case (Suc k)
  then have k: "k < length ids" by linarith
  then have "ids ! k \<noteq> []" using assms(2) nth_mem by metis
  then show ?thesis using Suc index_from_nth [OF assms(1) k] by (simp add: anchorIdAt_def posFromAfterId_def)
qed

lemma resolve_le: "resolveCaretCp l f ids \<le> length ids"
  by (auto simp: resolveCaretCp_def index_from_Some split: left_id.splits option.splits)

lemma mapCaret_cases:
  assumes "lo = diff_lo (codePoints old) (codePoints new)"
    and "diff_ro lo (codePoints old) (codePoints new) (length (codePoints old)) (length (codePoints new)) = (ro, rn)"
    and "old \<noteq> new" "p = min pos (length (codePoints old))"
  shows "mapCaretIndex old new pos = (if p \<le> lo then p else if ro \<le> p then p + rn - ro else lo)"
proof -
  have "ro \<le> length (codePoints old)" "lo \<le> rn" using diff_split(1) [OF assms(1,2)] by auto
  then have "ro \<le> p \<Longrightarrow> nat (int p + (int rn - int ro)) = p + rn - ro" by linarith
  then show ?thesis using assms(2,3) by (simp add: mapCaretIndex_def Let_def assms(1,4) [symmetric])
qed

lemma mapCaret_le: "mapCaretIndex old new pos \<le> length (codePoints new)"
proof (cases "old = new")
  case False
  obtain ro rn where d: "diff_ro (diff_lo (codePoints old) (codePoints new)) (codePoints old) (codePoints new)
      (length (codePoints old)) (length (codePoints new)) = (ro, rn)" by force
  note s = diff_split [OF refl d]
  have "length (codePoints new) + ro = length (codePoints old) + rn"
    using arg_cong [OF s(2), of length] s(1) by (auto simp: min_def split: if_splits)
  then show ?thesis using s(1) by (auto simp: mapCaret_cases [OF refl d False refl])
qed (simp add: mapCaretIndex_def Let_def)

text \<open>A caret left of the edit keeps the text before it; right of it, the text after it.\<close>

lemma mapCaret_sticky:
  assumes "pos \<le> length (codePoints old)"
  shows "take (mapCaretIndex old new pos) (codePoints new) = take pos (codePoints old) \<or>
    drop (mapCaretIndex old new pos) (codePoints new) = drop pos (codePoints old) \<or>
    mapCaretIndex old new pos = diff_lo (codePoints old) (codePoints new)"
proof (cases "old = new")
  case True
  then show ?thesis using assms by (simp add: mapCaretIndex_def Let_def)
next
  case False
  let ?lo = "diff_lo (codePoints old) (codePoints new)"
  obtain ro rn where d: "diff_ro ?lo (codePoints old) (codePoints new)
      (length (codePoints old)) (length (codePoints new)) = (ro, rn)" by force
  note s = diff_split [OF refl d]
  note c = mapCaret_cases [OF refl d False, of pos pos]
  have pre: "take ?lo (codePoints old) = take ?lo (codePoints new)"
    using diff_lo_prefix by blast
  have suf: "drop ro (codePoints old) = drop rn (codePoints new)"
    using diff_ro_suffix [OF d] diff_lo_prefix [of "codePoints old" "codePoints new"] by simp
  consider "pos \<le> ?lo" | "?lo < pos" "ro \<le> pos" | "?lo < pos" "pos < ro" by linarith
  then show ?thesis
  proof cases
    case 1
    then have "take pos (codePoints new) = take pos (codePoints old)"
      using arg_cong [OF pre, of "take pos"] by simp
    then show ?thesis using c 1 assms by simp
  next
    case 2
    have "drop (pos + rn - ro) (codePoints new) = drop (pos - ro) (drop rn (codePoints new))"
      using 2 by (simp add: add.commute)
    also have "\<dots> = drop pos (codePoints old)" using 2 by (simp add: suf [symmetric])
    finally show ?thesis using c 2 assms by simp
  next
    case 3
    then show ?thesis using c assms by simp
  qed
qed

lemma mapCaret_mono:
  assumes "p \<le> q"
  shows "mapCaretIndex old new p \<le> mapCaretIndex old new q"
proof (cases "old = new")
  case True
  then show ?thesis using assms by (simp add: mapCaretIndex_def Let_def min_le_iff_disj)
next
  case False
  let ?lo = "diff_lo (codePoints old) (codePoints new)" let ?n = "length (codePoints old)"
  obtain ro rn where d: "diff_ro ?lo (codePoints old) (codePoints new) ?n (length (codePoints new)) = (ro, rn)" by force
  have "?lo \<le> ro" "?lo \<le> rn" using diff_split(1) [OF refl d] by auto
  moreover have "min p ?n \<le> min q ?n" using assms by simp
  ultimately show ?thesis
    unfolding mapCaret_cases [OF refl d False refl] by (auto simp: not_le)
qed

end
