(* ===== verification/Colors.thy ===== *)
theory Colors
  imports JsNumber
begin

text \<open>
  Client identity and colours (\<open>static/app.js\<close>, \<open>generateClientId\<close> to \<open>colorWithAlpha\<close>). The string hash
  is 32-bit wrap-around arithmetic; a colour is the first of the palette, from the hashed start on,
  that no peer uses, else one computed from the hash. \<open>toLowerCase\<close> is modelled on ASCII letters, the
  only ones in a colour; the floating-point formula of \<open>hashToHexColor\<close> is computed exactly, which
  gives the same rounded channels because no channel comes within \<open>1/10000\<close> of a tie.
\<close>

section \<open>Identity\<close>

definition hex_chars :: jsstring where
  [js_eval]: "hex_chars = js ''0123456789abcdef''"

text \<open>\<open>Math.floor(Math.random() * 16)\<close> is one of 0 to 15; the draws are an argument.\<close>

definition generateClientId :: "nat list \<Rightarrow> jsstring" where
  [js_eval]: "generateClientId draws = map (\<lambda>r. hex_chars ! (r mod 16)) (take 16 draws)"

definition valid_client_id :: "jsstring \<Rightarrow> bool" where
  [js_eval]: "valid_client_id iden \<longleftrightarrow> length iden = 16 \<and> list_all (\<lambda>u. u \<in> set hex_chars) iden"

text \<open>The identifier and what is written to the session storage.\<close>

definition loadOrCreateClientId :: "jsstring option \<Rightarrow> nat list \<Rightarrow> jsstring \<times> jsstring option" where
  [js_eval]: "loadOrCreateClientId stored draws =
     (let iden = or_empty stored
      in if valid_client_id iden then (iden, None)
         else let fresh = generateClientId draws in (fresh, Some fresh))"

section \<open>Hash\<close>

text \<open>\<open>hash = ((hash << 5) - hash) + code; hash |= 0\<close>, on 32 bits.\<close>

definition hash_step :: "codeunit \<Rightarrow> 32 word \<Rightarrow> 32 word" where
  [js_eval]: "hash_step u h = (push_bit 5 h - h) + ucast u"

definition hashId :: "jsstring \<Rightarrow> int" where
  [js_eval]: "hashId iden = sint (fold hash_step iden 0)"

section \<open>Colours\<close>

definition js_lower :: "jsstring \<Rightarrow> jsstring" where
  [js_eval]: "js_lower s = map (\<lambda>u. if 65 \<le> u \<and> u \<le> 90 then u + 32 else u) s"

definition normalizeColor :: "jsstring \<Rightarrow> jsstring" where
  [js_eval]: "normalizeColor color = js_lower (js_trim color)"

definition CURSOR_COLORS :: "jsstring list" where
  [js_eval]: "CURSOR_COLORS = map js
    [''#e06c75'', ''#61afef'', ''#98c379'', ''#d19a66'', ''#c678dd'', ''#56b6c2'',
     ''#e5c07b'', ''#be5046'', ''#528bff'', ''#e2b86b'', ''#7aa2f7'', ''#9ece6a'',
     ''#f7768e'', ''#bb9af7'', ''#2ac3de'', ''#ff9e64'', ''#73daca'', ''#ff7a93'']"

definition hex_digit :: "nat \<Rightarrow> codeunit" where
  [js_eval]: "hex_digit d = hex_chars ! d"

text \<open>The inner \<open>hex\<close>: \<open>Math.round((n + m) * 255)\<close>, clamped, as two hexadecimal digits.\<close>

definition hex_channel :: "rat \<Rightarrow> rat \<Rightarrow> jsstring" where
  [js_eval]: "hex_channel m n =
     (let v0 = \<lfloor>(n + m) * 255 + 1 / 2\<rfloor>;
          v = nat (if v0 < 0 then 0 else if 255 < v0 then 255 else v0)
      in [hex_digit (v div 16), hex_digit (v mod 16)])"

definition hashToHexColor :: "int \<Rightarrow> jsstring" where
  [js_eval]: "hashToHexColor hash =
     (let hue = nat \<bar>hash\<bar> mod 360;
          s = 62 / 100; l = 52 / 100;
          c = (1 - \<bar>2 * l - 1\<bar>) * s;
          hh = (of_nat hue / 60 :: rat);
          x = c * (1 - \<bar>(hh - 2 * of_int \<lfloor>hh / 2\<rfloor>) - 1\<bar>);
          m = l - c / 2;
          (r, g, b) = (if hue < 60 then (c, x, 0) else if hue < 120 then (x, c, 0)
                       else if hue < 180 then (0, c, x) else if hue < 240 then (0, x, c)
                       else if hue < 300 then (x, 0, c) else (c, 0, x))
      in 35 # hex_channel m r @ hex_channel m g @ hex_channel m b)"

definition pickColor :: "jsstring \<Rightarrow> jsstring list \<Rightarrow> jsstring" where
  [js_eval]: "pickColor iden usedColors =
     (let hash = hashId iden;
          start = nat \<bar>hash\<bar> mod length CURSOR_COLORS;
          used = map normalizeColor usedColors;
          candidates = map (\<lambda>i. CURSOR_COLORS ! ((start + i) mod length CURSOR_COLORS)) [0..<length CURSOR_COLORS]
      in case find (\<lambda>c. c \<notin> set used) candidates of
           Some c \<Rightarrow> c
         | None \<Rightarrow> hashToHexColor hash)"

text \<open>\<open>parseInt(s, 16)\<close>: white space, a sign and a prefix \<open>0x\<close> are skipped; \<open>None\<close> is \<open>NaN\<close>.\<close>

definition parse_hex :: "jsstring \<Rightarrow> int option" where
  [js_eval]: "parse_hex s =
     (let t = dropWhile is_space s;
          neg = (t \<noteq> [] \<and> hd t = 45);
          t1 = (if t \<noteq> [] \<and> (hd t = 43 \<or> hd t = 45) then tl t else t);
          t2 = (if take 2 t1 = js ''0x'' \<or> take 2 t1 = js ''0X'' then drop 2 t1 else t1);
          ds = takeWhile (\<lambda>u. radix_digit 16 u \<noteq> None) t2
      in if ds = [] then None
         else map_option (\<lambda>v. if neg then - int v else int v) (radix_val 16 0 ds))"

definition int_str :: "int \<Rightarrow> jsstring" where
  [js_eval]: "int_str n = (if n < 0 then 45 # num_str (nat (- n)) else num_str (nat n))"

definition rgba :: "int \<Rightarrow> int \<Rightarrow> int \<Rightarrow> jsstring \<Rightarrow> jsstring" where
  [js_eval]: "rgba r g b alpha =
     js ''rgba('' @ int_str r @ js '', '' @ int_str g @ js '', '' @ int_str b @ js '', '' @ alpha @ js '')''"

definition colorWithAlpha :: "jsstring \<Rightarrow> jsstring \<Rightarrow> jsstring" where
  [js_eval]: "colorWithAlpha color alpha =
     (if color = [] \<or> color ! 0 \<noteq> 35 then rgba 97 175 239 alpha
      else let h0 = drop 1 color;
               h = (if length h0 = 3 then [h0!0, h0!0, h0!1, h0!1, h0!2, h0!2] else h0)
           in if length h \<noteq> 6 then rgba 97 175 239 alpha
              else case (parse_hex (js_slice h 0 2), parse_hex (js_slice h 2 4), parse_hex (js_slice h 4 6)) of
                     (Some r, Some g, Some b) \<Rightarrow> rgba r g b alpha
                   | _ \<Rightarrow> rgba 97 175 239 alpha)"

section \<open>Facts\<close>

lemma hex_chars_length [simp]: "length hex_chars = 16"
  by (simp add: hex_chars_def js_def)

lemma hex_chars_nth: "d < 16 \<Longrightarrow> hex_chars ! d \<in> set hex_chars"
  by (simp add: nth_mem)

lemma generate_valid: "16 \<le> length draws \<Longrightarrow> valid_client_id (generateClientId draws)"
  by (auto simp: valid_client_id_def generateClientId_def list_all_iff intro!: hex_chars_nth)

lemma valid_site: "valid_client_id iden \<Longrightarrow> iden \<noteq> [] \<and> colon \<notin> set iden"
  by (auto simp: valid_client_id_def list_all_iff hex_chars_def js_def colon_def)

lemma palette_length [simp]: "length CURSOR_COLORS = 18"
  by (simp add: CURSOR_COLORS_def)

lemma palette_rotation: "set (map (\<lambda>i. CURSOR_COLORS ! ((s + i) mod 18)) [0..<18]) = set CURSOR_COLORS"
proof
  show "set (map (\<lambda>i. CURSOR_COLORS ! ((s + i) mod 18)) [0..<18]) \<subseteq> set CURSOR_COLORS"
    by (auto intro!: nth_mem)
  show "set CURSOR_COLORS \<subseteq> set (map (\<lambda>i. CURSOR_COLORS ! ((s + i) mod 18)) [0..<18])"
  proof
    fix c assume "c \<in> set CURSOR_COLORS"
    then obtain k where k: "k < 18" "CURSOR_COLORS ! k = c" by (auto simp: in_set_conv_nth)
    define r where "r = s mod 18"
    define j where "j = (if r \<le> k then k - r else k + 18 - r)"
    have r: "r < 18" by (simp add: r_def)
    have "(s + j) mod 18 = (r + j) mod 18" unfolding r_def by (simp add: mod_add_left_eq)
    moreover have "r + j = k \<or> r + j = k + 18" using r by (auto simp: j_def)
    ultimately have "j < 18" "(s + j) mod 18 = k" using k(1) r by (auto simp: j_def)
    with k(2) have "c = CURSOR_COLORS ! ((s + j) mod 18)" "j \<in> set [0..<18]" by simp_all
    then show "c \<in> set (map (\<lambda>i. CURSOR_COLORS ! ((s + i) mod 18)) [0..<18])"
      unfolding set_map by (rule image_eqI)
  qed
qed

lemma find_unused: "find P xs = Some c \<Longrightarrow> c \<in> set xs \<and> P c"
  by (auto simp: find_Some_iff)

lemma hex_channel_digits: "length (hex_channel m n) = 2 \<and> set (hex_channel m n) \<subseteq> set hex_chars"
proof -
  define f where "f = \<lfloor>(n + m) * 255 + 1 / 2\<rfloor>"
  define v where "v = nat (if f < 0 then 0 else if 255 < f then 255 else f)"
  have "v \<le> 255" by (auto simp: v_def)
  then have "v div 16 < 16" "v mod 16 < 16" by auto
  moreover have "hex_channel m n = [hex_digit (v div 16), hex_digit (v mod 16)]"
    by (simp only: hex_channel_def Let_def f_def v_def)
  ultimately show ?thesis by (simp add: hex_digit_def hex_chars_nth)
qed

end
