(* ===== verification/ClientState.thy ===== *)
theory ClientState
  imports Carets Colors
begin

text \<open>
  The state of an open room (\<open>static/app.js\<close>): every variable the collaboration code keeps, under its
  own name, the editor (a text area), the messages of the server, and the effects a handler has on
  the outside, collected in \<open>out\<close> in the order in which they happen. \<open>Date.now()\<close> and random numbers
  are arguments of the handlers that use them. Drawing (carets, peer tabs, the preview, traffic
  dots) leaves no state and is an effect only.
\<close>

section \<open>The editor\<close>

record editor =
  ed_value :: jsstring
  ed_start :: nat
  ed_end :: nat
  ed_dir :: jsstring
  ed_readOnly :: bool
  ed_focused :: bool

text \<open>The value of a text area has its line ends normalised to a single line feed.\<close>

fun normalize_newlines :: "jsstring \<Rightarrow> jsstring" where
  "normalize_newlines [] = []"
| "normalize_newlines [u] = [if u = 13 then 10 else u]"
| "normalize_newlines (u # v # us) =
     (if u = 13 then (if v = 10 then 10 # normalize_newlines us else 10 # normalize_newlines (v # us))
      else u # normalize_newlines (v # us))"

text \<open>Assigning \<open>.value\<close>: a different text puts the caret at its end.\<close>

definition set_value :: "jsstring \<Rightarrow> editor \<Rightarrow> editor" where
  [js_eval]: "set_value v ed =
     (let nv = normalize_newlines v
      in if nv = ed_value ed then ed
         else ed\<lparr>ed_value := nv, ed_start := length nv, ed_end := length nv, ed_dir := js ''none''\<rparr>)"

definition setSelectionRange :: "nat \<Rightarrow> nat \<Rightarrow> jsstring \<Rightarrow> editor \<Rightarrow> editor" where
  [js_eval]: "setSelectionRange s e dir ed =
     (let e' = min e (length (ed_value ed))
      in ed\<lparr>ed_start := min s e', ed_end := e', ed_dir := dir\<rparr>)"

section \<open>Messages\<close>

record wire_cursor =
  wc_clientId :: jsstring
  wc_cursorPos :: jsnum
  wc_selectionEnd :: "jsnum option"
  wc_afterId :: "jsstring option"
  wc_selectionAfterId :: "jsstring option"
  wc_color :: jsstring
  wc_timestamp :: int

text \<open>A field that may be missing is an option; \<open>m_generation\<close> is the number the field converts to.\<close>

record msg =
  m_type :: jsstring
  m_version :: "nat option"
  m_generation :: "jsnum option"
  m_exists :: "bool option"
  m_content :: "jsstring option"
  m_items :: "wire_item list option"
  m_itemsSite :: "jsstring option"
  m_ops :: "crdt_op list option"
  m_updatedBy :: "jsstring option"
  m_editPasswordSet :: "bool option"
  m_passwordScope :: "jsstring option"
  m_passwordRequired :: bool
  m_ttlSeconds :: "nat option"
  m_expiresAt :: "jsstring option"
  m_error :: "jsstring option"
  m_seq :: "nat option"
  m_cursors :: "wire_cursor list option"

datatype deferred = DMsg msg | DRest msg | DRestLoad msg bool

section \<open>Effects\<close>

datatype ready_state = Connecting | Open | Closing | Closed

datatype status_kind = Live | Saving | LockedStatus | Pending | Syncing | ErrorStatus

datatype room_access = Locked | Unlocked

datatype timer = FlushTimer | PutFallbackTimer | CursorTimer | ReconnectTimer | CompositionCommit
  | RestPollTimer | PresenceHeartbeat | PresencePrune

datatype toast = FirstSaveToast | InvalidTtlToast | ReadOnlyToast | WrongPasswordToast | VerifyFailedToast
  | EmptyPasswordToast

datatype traffic = Up | Down

datatype unlock_purpose = GateCheck | UnlockDialog | LockForm

datatype ws_out =
    WsOps "crdt_op list" nat nat jsstring
  | WsSync
  | WsAuth jsstring
  | WsCursor nat nat jsstring jsstring jsstring

text \<open>\<open>PUT\<close> body: text, lifetime, client, password, \<open>baseVersion\<close> when it is sent.\<close>

datatype effect =
    RenderCursors | UpdatePeers | UpdateEmptyHint | SchedulePreview | ShowSelfLabel
  | PulseTraffic traffic
  | ShowToast toast
  | RoomLockError toast
  | ReadOnlyControls bool
  | UndoButtons bool bool
  | MarkTtl bool
  | RenderExpires jsstring
  | Arm timer nat
  | Send ws_out
  | NewSocket nat
  | CloseSocket nat
  | FetchLoad jsstring bool
  | FetchPoll jsstring
  | FetchUnlock unlock_purpose jsstring
  | FetchPut jsstring nat jsstring jsstring "nat option"
  | RemoteFiles
  | AskEditPassword

section \<open>The state\<close>

record sent_batch =
  sb_ids :: "jsstring list"
  sb_at :: nat

record undo_entry =
  ue_ops :: "crdt_op list"
  ue_at :: nat

record cursor_entry =
  ce_color :: jsstring
  ce_timestamp :: int
  ce_rawPos :: jsnum
  ce_rawEnd :: jsnum
  ce_pos :: nat
  ce_end :: nat
  ce_afterId :: "jsstring option"
  ce_endAfterId :: "jsstring option"

record app =
  CLIENT_ID :: jsstring
  CLIENT_COLOR :: jsstring
  the_doc :: doc
  localClock :: nat
  knownVersion :: nat
  knownGeneration :: nat
  knownExists :: bool
  pendingOps :: "crdt_op list"
  sentBatches :: "(nat \<times> sent_batch) list"
  nextSeq :: nat
  lastSyncedText :: jsstring
  flushTimer :: bool
  putFallbackTimer :: bool
  putFailures :: nat
  putInFlight :: bool
  applyingRemote :: bool
  compositionActive :: bool
  compositionCommitPending :: bool
  compositionInputPending :: bool
  compositionBaseText :: jsstring
  compositionBaseDoc :: "doc option"
  deferredContentMessages :: "deferred list"
  lastExpiresAt :: "jsstring option"
  firstSaveAnnounced :: bool
  initialStateSeen :: bool
  ttlInvalidNotified :: bool
  syncRequestedAt :: nat
  cursorTimer :: bool
  remoteCursors :: "(jsstring \<times> cursor_entry) list"
  socket :: "(nat \<times> ready_state) option"
  socketCount :: nat
  reconnectTimer :: bool
  reconnectAttempts :: nat
  intentionalClose :: bool
  ws_connected :: bool
  everConnected :: bool
  lastMsgAt :: nat
  restPollTimer :: bool
  presenceHeartbeatTimer :: bool
  undoStack :: "undo_entry list"
  redoStack :: "undo_entry list"
  ttlValue :: jsstring
  ttlUnit :: jsstring
  content :: editor
  roomAccess :: room_access
  editPasswordSet :: bool
  passwordScope :: jsstring
  editPasswordJustSet :: bool
  roomLockBusy :: bool
  editPass :: "jsstring option"
  viewPass :: "jsstring option"
  initialSnapshotApplied :: bool
  statusKind :: status_kind
  out :: "effect list"

definition emit :: "effect \<Rightarrow> app \<Rightarrow> app" where
  [js_eval]: "emit e s = s\<lparr>out := out s @ [e]\<rparr>"

definition socket_open :: "app \<Rightarrow> bool" where
  [js_eval]: "socket_open s \<longleftrightarrow> (case socket s of Some (_, r) \<Rightarrow> r = Open | None \<Rightarrow> False)"

end
