(* ===== verification/RoomLock.thy ===== *)
theory RoomLock
  imports ClientState
begin

text \<open>
  The status pill, the room lock and the room password (\<open>static/app.js\<close>). An edit-locked room is
  readable and its editor is read-only; a view-locked room shows the gate. Every handler of a
  promise (\<open>then\<close>, \<open>catch\<close>) is a definition of its own, applied when the answer arrives.
\<close>

section \<open>Status\<close>

definition setStatus :: "status_kind \<Rightarrow> app \<Rightarrow> app" where
  [js_eval]: "setStatus k s = s\<lparr>statusKind := k\<rparr>"

text \<open>The \<open>data-tone\<close> attribute of the pill.\<close>

definition status_tone :: "status_kind \<Rightarrow> jsstring" where
  [js_eval]: "status_tone k =
     (if k = Live then js ''ok''
      else if k = LockedStatus then js ''locked''
      else if k = Saving \<or> k = Syncing then js ''pending''
      else if k = Pending then js ''pending''
      else js ''err'')"

definition roomNeedsUnlock :: "app \<Rightarrow> bool" where
  [js_eval]: "roomNeedsUnlock s \<longleftrightarrow> roomAccess s \<noteq> Unlocked"

definition isViewGate :: "app \<Rightarrow> bool" where
  [js_eval]: "isViewGate s \<longleftrightarrow> passwordScope s = js ''view''"

definition setIdleStatus :: "app \<Rightarrow> app" where
  [js_eval]: "setIdleStatus s =
     (if ws_connected s \<and> \<not> initialSnapshotApplied s then setStatus Pending s
      else if roomNeedsUnlock s then setStatus LockedStatus s
      else if ws_connected s then setStatus Live s
      else setStatus (if everConnected s \<or> \<not> initialSnapshotApplied s then Syncing else ErrorStatus) s)"

definition setConnected :: "bool \<Rightarrow> app \<Rightarrow> app" where
  [js_eval]: "setConnected on s =
     emit UpdatePeers (s\<lparr>ws_connected := on, everConnected := (if on then True else everConnected s)\<rparr>)"

definition hideLoading :: "app \<Rightarrow> app" where
  [js_eval]: "hideLoading s = emit UpdatePeers (s\<lparr>initialSnapshotApplied := True\<rparr>)"

definition announceFirstSave :: "bool \<Rightarrow> app \<Rightarrow> app" where
  [js_eval]: "announceFirstSave exists s =
     (if \<not> initialStateSeen s \<and> exists then s\<lparr>initialStateSeen := True, firstSaveAnnounced := True\<rparr>
      else let s1 = s\<lparr>initialStateSeen := True\<rparr>
           in if firstSaveAnnounced s1 \<or> \<not> exists then s1
              else emit (ShowToast FirstSaveToast) (s1\<lparr>firstSaveAnnounced := True\<rparr>))"

definition updateMeta :: "msg \<Rightarrow> app \<Rightarrow> app" where
  [js_eval]: "updateMeta data s =
     (let e = or_empty (m_expiresAt data);
          s1 = (if e \<noteq> [] then emit (RenderExpires e) (s\<lparr>lastExpiresAt := Some e\<rparr>)
                else s\<lparr>lastExpiresAt := None\<rparr>)
      in announceFirstSave (m_exists data = Some True \<or> e \<noteq> []) s1)"

definition scheduleFlush :: "app \<Rightarrow> app" where
  [js_eval]: "scheduleFlush s =
     emit (Arm FlushTimer 60) ((if ws_connected s then setStatus Saving s else s)\<lparr>flushTimer := True\<rparr>)"

section \<open>The lock\<close>

definition applyReadOnlyControls :: "app \<Rightarrow> app" where
  [js_eval]: "applyReadOnlyControls s = emit (ReadOnlyControls (roomNeedsUnlock s \<and> \<not> isViewGate s)) s"

text \<open>The first component is the returned \<open>true\<close>: the caller stops.\<close>

definition blockWhenReadOnly :: "app \<Rightarrow> bool \<times> app" where
  [js_eval]: "blockWhenReadOnly s =
     (if \<not> roomNeedsUnlock s \<or> isViewGate s then (False, s) else (True, emit (ShowToast ReadOnlyToast) s))"

definition showRoomLock :: "app \<Rightarrow> app" where
  [js_eval]: "showRoomLock s =
     (let s1 = s\<lparr>roomAccess := Locked, content := (content s)\<lparr>ed_readOnly := True\<rparr>\<rparr>
      in emit UpdateEmptyHint (applyReadOnlyControls (setStatus LockedStatus s1)))"

definition hideRoomLock :: "app \<Rightarrow> app" where
  [js_eval]: "hideRoomLock s =
     (let s1 = s\<lparr>roomAccess := Unlocked, content := (content s)\<lparr>ed_readOnly := False\<rparr>\<rparr>
      in emit UpdateEmptyHint (applyReadOnlyControls s1))"

definition showRoomLockError :: "toast \<Rightarrow> app \<Rightarrow> app" where
  [js_eval]: "showRoomLockError m s = emit (RoomLockError m) s"

section \<open>Passwords\<close>

definition getEditPassword :: "app \<Rightarrow> jsstring" where
  [js_eval]: "getEditPassword s = or_empty (editPass s)"

definition setEditPassword :: "jsstring \<Rightarrow> app \<Rightarrow> app" where
  [js_eval]: "setEditPassword p s = s\<lparr>editPass := (if p \<noteq> [] then Some p else None)\<rparr>"

definition rememberedViewPassword :: "app \<Rightarrow> jsstring" where
  [js_eval]: "rememberedViewPassword s = or_empty (viewPass s)"

definition rememberViewPassword :: "jsstring \<Rightarrow> app \<Rightarrow> app" where
  [js_eval]: "rememberViewPassword p s = s\<lparr>viewPass := (if p \<noteq> [] then Some p else None)\<rparr>"

definition roomPassword :: "app \<Rightarrow> jsstring" where
  [js_eval]: "roomPassword s = (if getEditPassword s \<noteq> [] then getEditPassword s else rememberedViewPassword s)"

definition rememberRoomPassword :: "jsstring \<Rightarrow> jsstring \<Rightarrow> app \<Rightarrow> app" where
  [js_eval]: "rememberRoomPassword pw scope s =
     (if pw = [] then s
      else let s1 = setEditPassword pw s
           in if scope = js ''view'' \<or> passwordScope s1 = js ''view'' then rememberViewPassword pw s1 else s1)"

definition sendAuth :: "jsstring \<Rightarrow> app \<Rightarrow> app" where
  [js_eval]: "sendAuth pw s = (if socket_open s then emit (Send (WsAuth pw)) s else s)"

definition requestViewPassword :: "app \<Rightarrow> app" where
  [js_eval]: "requestViewPassword s =
     (let remembered = (if rememberedViewPassword s \<noteq> [] then rememberedViewPassword s
                        else if editPasswordSet s then getEditPassword s else [])
      in if remembered \<noteq> [] then sendAuth remembered s else showRoomLock s)"

definition onInvalidViewPassword :: "app \<Rightarrow> app" where
  [js_eval]: "onInvalidViewPassword s =
     showRoomLockError WrongPasswordToast (showRoomLock (setEditPassword [] (rememberViewPassword [] s)))"

text \<open>\<open>tryUnlock\<close> by the status of the answer: accepted, rejected, or thrown (\<open>None\<close>).\<close>

definition tryUnlock_result :: "nat \<Rightarrow> bool option" where
  [js_eval]: "tryUnlock_result st =
     (if st = 401 \<or> st = 403 then Some False else if 200 \<le> st \<and> st < 300 then Some True else None)"

definition noteEditPasswordSet :: "msg \<Rightarrow> app \<Rightarrow> app" where
  [js_eval]: "noteEditPasswordSet data s =
     (let s1 = (case m_editPasswordSet data of Some b \<Rightarrow> s\<lparr>editPasswordSet := b\<rparr> | None \<Rightarrow> s)
      in if or_empty (m_passwordScope data) \<noteq> [] then s1\<lparr>passwordScope := or_empty (m_passwordScope data)\<rparr>
         else if m_editPasswordSet data \<noteq> None
              then s1\<lparr>passwordScope := (if editPasswordSet s1 then js ''edit'' else [])\<rparr>
              else s1)"

definition syncEditLockGate :: "app \<Rightarrow> app" where
  [js_eval]: "syncEditLockGate s =
     (if passwordScope s \<noteq> js ''edit'' \<or> \<not> editPasswordSet s then
        (if roomNeedsUnlock s then hideRoomLock s else s)
      else if getEditPassword s = [] then showRoomLock s
      else if editPasswordJustSet s then hideRoomLock s
      else emit (FetchUnlock GateCheck (getEditPassword s)) s)"

definition syncEditLockGate_done :: "bool option \<Rightarrow> app \<Rightarrow> app" where
  [js_eval]: "syncEditLockGate_done r s =
     (case r of
        Some True \<Rightarrow> hideRoomLock s
      | Some False \<Rightarrow> showRoomLock (rememberViewPassword [] (setEditPassword [] s))
      | None \<Rightarrow> hideRoomLock s)"

definition unlockWithPassword :: "jsstring \<Rightarrow> app \<Rightarrow> app" where
  [js_eval]: "unlockWithPassword pw s = emit (FetchUnlock UnlockDialog pw) s"

definition unlockWithPassword_done :: "jsstring \<Rightarrow> bool option \<Rightarrow> app \<Rightarrow> app" where
  [js_eval]: "unlockWithPassword_done pw r s =
     (case r of
        None \<Rightarrow> emit (ShowToast VerifyFailedToast) s
      | Some False \<Rightarrow> emit (ShowToast WrongPasswordToast) s
      | Some True \<Rightarrow>
          scheduleFlush (hideRoomLock ((rememberRoomPassword pw (passwordScope s) s)\<lparr>editPasswordJustSet := True\<rparr>)))"

text \<open>The argument is the text of the password field.\<close>

definition submitRoomLock :: "jsstring \<Rightarrow> app \<Rightarrow> app" where
  [js_eval]: "submitRoomLock pw s =
     (if roomLockBusy s then s
      else if pw = [] then showRoomLockError EmptyPasswordToast s
      else emit (FetchUnlock LockForm pw) (s\<lparr>roomLockBusy := True\<rparr>))"

definition load_room :: "bool \<Rightarrow> app \<Rightarrow> app" where
  [js_eval]: "load_room force s = emit (FetchLoad (roomPassword s) force) (emit (PulseTraffic Down) s)"

definition submitRoomLock_done :: "jsstring \<Rightarrow> bool option \<Rightarrow> app \<Rightarrow> app" where
  [js_eval]: "submitRoomLock_done pw r s0 =
     (let s = s0\<lparr>roomLockBusy := False\<rparr>
      in case r of
           None \<Rightarrow> showRoomLockError VerifyFailedToast s
         | Some False \<Rightarrow> showRoomLockError WrongPasswordToast s
         | Some True \<Rightarrow>
             (let s1 = hideRoomLock ((rememberRoomPassword pw (passwordScope s) s)\<lparr>editPasswordJustSet := True\<rparr>)
              in if passwordScope s1 = js ''view'' then requestViewPassword s1
                 else load_room True (scheduleFlush s1)))"

end
