(* ===== verification/RemoteCursors.thy ===== *)
theory RemoteCursors
  imports RoomLock
begin

text \<open>
  The local selection and the carets of the peers (\<open>static/app.js\<close>). The selection is captured as
  code-point gaps with the character on their left and restored after the text was replaced; a
  peer's caret follows its anchor character, and its display index when the anchor is gone. The
  peers are an association list; no use depends on the order of the keys.
\<close>

section \<open>Selection\<close>

record selection =
  sl_startCp :: nat
  sl_endCp :: nat
  sl_dir :: jsstring
  sl_startLeft :: left_id
  sl_endLeft :: left_id
  sl_useAnchor :: bool
  sl_hadFocus :: bool

definition left_of :: "nat \<Rightarrow> jsstring list \<Rightarrow> left_id" where
  [js_eval]: "left_of cp ids = (if 0 < cp then LeftOf (ids ! (cp - 1)) else AtStart)"

definition captureSelection :: "app \<Rightarrow> selection" where
  [js_eval]: "captureSelection s =
     (let text = ed_value (content s);
          ids = visibleIds (the_doc s);
          startCp = clampPos (num (utf16ToCodePointOffset text (int (ed_start (content s))))) (length ids);
          endCp = clampPos (num (utf16ToCodePointOffset text (int (ed_end (content s))))) (length ids)
      in \<lparr>sl_startCp = startCp, sl_endCp = endCp, sl_dir = ed_dir (content s),
          sl_startLeft = left_of startCp ids, sl_endLeft = left_of endCp ids,
          sl_useAnchor = True, sl_hadFocus = ed_focused (content s)\<rparr>)"

definition captureTextSelection :: "jsstring \<Rightarrow> app \<Rightarrow> selection" where
  [js_eval]: "captureTextSelection value s =
     \<lparr>sl_startCp = utf16ToCodePointOffset value (int (ed_start (content s))),
      sl_endCp = utf16ToCodePointOffset value (int (ed_end (content s))), sl_dir = ed_dir (content s),
      sl_startLeft = NoAnchor, sl_endLeft = NoAnchor,
      sl_useAnchor = False, sl_hadFocus = ed_focused (content s)\<rparr>"

definition restoreSelection :: "selection \<Rightarrow> app \<Rightarrow> app" where
  [js_eval]: "restoreSelection sel s =
     (let text = ed_value (content s);
          ids = visibleIds (the_doc s);
          maxCp = max (length ids) (length (codePoints text));
          startCp = (if sl_useAnchor sel
                     then clampPos (num (resolveCaretCp (sl_startLeft sel) (sl_startCp sel) ids)) maxCp
                     else clampPos (num (sl_startCp sel)) maxCp);
          endCp = (if sl_useAnchor sel
                   then clampPos (num (resolveCaretCp (sl_endLeft sel) (sl_endCp sel) ids)) maxCp
                   else clampPos (num (sl_endCp sel)) maxCp);
          start = codePointToUtf16Offset text (int startCp);
          stop = codePointToUtf16Offset text (int endCp)
      in s\<lparr>content := setSelectionRange start stop (if sl_dir sel = [] then js ''none'' else sl_dir sel) (content s)\<rparr>)"

definition setContentValue :: "jsstring \<Rightarrow> selection option \<Rightarrow> app \<Rightarrow> app" where
  [js_eval]: "setContentValue value sel s =
     (let hadFocus = (case sel of Some x \<Rightarrow> sl_hadFocus x | None \<Rightarrow> ed_focused (content s))
      in if ed_value (content s) = value then s
         else let prevStart = ed_start (content s);
                  prevEnd = ed_end (content s);
                  s1 = emit SchedulePreview (s\<lparr>content := set_value value (content s)\<rparr>);
                  s2 = (case sel of
                          Some x \<Rightarrow> restoreSelection x s1
                        | None \<Rightarrow> s1\<lparr>content := setSelectionRange (min prevStart (length value))
                                       (min prevEnd (length value)) (js ''none'') (content s1)\<rparr>)
              in if hadFocus \<and> \<not> ed_focused (content s2)
                 then s2\<lparr>content := (content s2)\<lparr>ed_focused := True\<rparr>\<rparr> else s2)"

text \<open>\<open>applyingRemote = true; setContentValue(...); applyingRemote = false\<close>.\<close>

definition paint :: "jsstring \<Rightarrow> selection \<Rightarrow> app \<Rightarrow> app" where
  [js_eval]: "paint value sel s = (setContentValue value (Some sel) (s\<lparr>applyingRemote := True\<rparr>))\<lparr>applyingRemote := False\<rparr>"

section \<open>Carets of the peers\<close>

definition reanchorRemoteCursorsFromPos :: "app \<Rightarrow> app" where
  [js_eval]: "reanchorRemoteCursorsFromPos s =
     (let ids = visibleIds (the_doc s)
      in s\<lparr>remoteCursors := map (\<lambda>(i, c).
            let p = clampPos (num (ce_pos c)) (length ids); e = clampPos (num (ce_end c)) (length ids)
            in (i, c\<lparr>ce_pos := p, ce_end := e, ce_afterId := Some (anchorIdAt p ids),
                     ce_endAfterId := Some (anchorIdAt e ids)\<rparr>)) (remoteCursors s)\<rparr>)"

definition shiftRemoteCursorsByText :: "jsstring \<Rightarrow> jsstring \<Rightarrow> app \<Rightarrow> app" where
  [js_eval]: "shiftRemoteCursorsByText oldText newText s =
     (if oldText = newText then s
      else reanchorRemoteCursorsFromPos (s\<lparr>remoteCursors := map (\<lambda>(i, c).
             (i, c\<lparr>ce_pos := mapCaretIndex oldText newText (ce_pos c),
                   ce_end := mapCaretIndex oldText newText (ce_end c)\<rparr>)) (remoteCursors s)\<rparr>))"

text \<open>The display index of an anchor: its position when it is known and visible, else the clamped index.\<close>

definition refresh_pos :: "jsstring option \<Rightarrow> nat \<Rightarrow> jsstring list \<Rightarrow> nat" where
  [js_eval]: "refresh_pos anchor pos ids =
     (case anchor of
        Some a \<Rightarrow> (case posFromAfterId a ids of Some p \<Rightarrow> p | None \<Rightarrow> clampPos (num pos) (length ids))
      | None \<Rightarrow> clampPos (num pos) (length ids))"

definition refreshRemoteCursorPositions :: "app \<Rightarrow> app" where
  [js_eval]: "refreshRemoteCursorPositions s =
     (let ids = visibleIds (the_doc s)
      in s\<lparr>remoteCursors := map (\<lambda>(i, c).
            (i, c\<lparr>ce_pos := refresh_pos (ce_afterId c) (ce_pos c) ids,
                  ce_end := refresh_pos (ce_endAfterId c) (ce_end c) ids\<rparr>)) (remoteCursors s)\<rparr>)"

text \<open>One edge of a caret after a text change: the new index and the anchor.\<close>

definition track_edge :: "jsstring \<Rightarrow> jsstring \<Rightarrow> jsstring list \<Rightarrow> jsstring option \<Rightarrow> nat \<Rightarrow> nat \<times> jsstring option" where
  [js_eval]: "track_edge oldText newText ids anchor pos =
     (case anchor of
        Some a \<Rightarrow>
          (case posFromAfterId a ids of
             Some p \<Rightarrow> (p, anchor)
           | None \<Rightarrow> (let p = mapCaretIndex oldText newText pos in (p, Some (anchorIdAt p ids))))
      | None \<Rightarrow> (let p = mapCaretIndex oldText newText pos in (p, Some (anchorIdAt p ids))))"

definition onLocalTextChanged :: "jsstring \<Rightarrow> jsstring \<Rightarrow> app \<Rightarrow> app" where
  [js_eval]: "onLocalTextChanged oldText newText s =
     (if oldText = newText then s
      else let ids = visibleIds (the_doc s)
           in (emit UpdateEmptyHint s)\<lparr>remoteCursors := map (\<lambda>(i, c).
                let (p, a) = track_edge oldText newText ids (ce_afterId c) (ce_pos c);
                    (e, b) = track_edge oldText newText ids (ce_endAfterId c) (ce_end c)
                in (i, c\<lparr>ce_pos := p, ce_afterId := a, ce_end := e, ce_endAfterId := b\<rparr>)) (remoteCursors s)\<rparr>)"

section \<open>Presence messages\<close>

fun alist_put :: "'k \<Rightarrow> 'v \<Rightarrow> ('k \<times> 'v) list \<Rightarrow> ('k \<times> 'v) list" where
  "alist_put k v [] = [(k, v)]"
| "alist_put k v ((k', v') # xs) = (if k = k' then (k, v) # xs else (k', v') # alist_put k v xs)"

definition cursorsVisuallyEqual :: "(jsstring \<times> cursor_entry) list \<Rightarrow> (jsstring \<times> cursor_entry) list \<Rightarrow> bool" where
  [js_eval]: "cursorsVisuallyEqual a b \<longleftrightarrow>
     length a = length b \<and>
     list_all (\<lambda>(i, ca).
       case map_of b i of
         None \<Rightarrow> False
       | Some cb \<Rightarrow>
           or_empty (ce_afterId ca) = or_empty (ce_afterId cb) \<and>
           or_empty (ce_endAfterId ca) = or_empty (ce_endAfterId cb) \<and>
           ce_pos ca = ce_pos cb \<and> ce_end ca = ce_end cb \<and>
           normalizeColor (ce_color ca) = normalizeColor (ce_color cb)) a"

definition peerUsedColors :: "app \<Rightarrow> jsstring list" where
  [js_eval]: "peerUsedColors s = filter (\<lambda>c. c \<noteq> []) (map (\<lambda>(i, c). ce_color c) (remoteCursors s))"

definition colorForPeer :: "jsstring \<Rightarrow> cursor_entry option \<Rightarrow> app \<Rightarrow> jsstring" where
  [js_eval]: "colorForPeer iden cursor s =
     (if iden = CLIENT_ID s then CLIENT_COLOR s
      else if (case cursor of Some c \<Rightarrow> ce_color c \<noteq> [] | None \<Rightarrow> False) then ce_color (the cursor)
      else case map_of (remoteCursors s) iden of
             Some c \<Rightarrow> if ce_color c \<noteq> [] then ce_color c else pickColor iden (CLIENT_COLOR s # peerUsedColors s)
           | None \<Rightarrow> pickColor iden (CLIENT_COLOR s # peerUsedColors s))"

definition ensureUniqueSelfColor :: "app \<Rightarrow> app" where
  [js_eval]: "ensureUniqueSelfColor s =
     (let selfColor = normalizeColor (CLIENT_COLOR s);
          conflictId = fold (\<lambda>(i, c) m. if normalizeColor (ce_color c) = selfColor \<and> (m = [] \<or> m < i) then i else m)
            (remoteCursors s) []
      in if conflictId = [] then s
         else if CLIENT_ID s < conflictId then s
         else let nxt = pickColor (CLIENT_ID s) (peerUsedColors s)
              in if normalizeColor nxt = selfColor then s
                 else emit ShowSelfLabel (s\<lparr>CLIENT_COLOR := nxt\<rparr>))"

text \<open>\<open>Number.isFinite(x) && x >= 0\<close>, or the default.\<close>

definition pos_or :: "jsnum \<Rightarrow> jsnum \<Rightarrow> jsnum" where
  [js_eval]: "pos_or x y = (case x of Fin r \<Rightarrow> if r < 0 then y else x | _ \<Rightarrow> y)"

definition cursor_of_wire :: "jsstring list \<Rightarrow> cursor_entry option \<Rightarrow> wire_cursor \<Rightarrow> cursor_entry" where
  [js_eval]: "cursor_of_wire ids prev c =
     (let rawPos = pos_or (wc_cursorPos c) (Fin 0);
          rawEnd = (case wc_selectionEnd c of None \<Rightarrow> rawPos | Some e \<Rightarrow> pos_or e rawPos);
          base = \<lparr>ce_color = wc_color c, ce_timestamp = wc_timestamp c, ce_rawPos = rawPos, ce_rawEnd = rawEnd,
                  ce_pos = 0, ce_end = 0, ce_afterId = None, ce_endAfterId = None\<rparr>;
          keep = (\<lambda>p. base\<lparr>ce_pos := ce_pos p, ce_end := ce_end p, ce_afterId := ce_afterId p,
                           ce_endAfterId := ce_endAfterId p\<rparr>)
      in case wc_afterId c of
           Some a \<Rightarrow>
             (let pa = posFromAfterId a ids
              in if pa = None \<and> (case prev of Some q \<Rightarrow> ce_afterId q = Some a | None \<Rightarrow> False)
                 then keep (the prev)
                 else let p = (case pa of Some p \<Rightarrow> p | None \<Rightarrow> clampPos rawPos (length ids))
                      in base\<lparr>ce_afterId := Some a, ce_pos := p,
                              ce_end := (case wc_selectionAfterId c of
                                 Some b \<Rightarrow> (case posFromAfterId b ids of Some e \<Rightarrow> e | None \<Rightarrow> clampPos rawEnd (length ids))
                               | None \<Rightarrow> p),
                              ce_endAfterId := (case wc_selectionAfterId c of Some b \<Rightarrow> Some b | None \<Rightarrow> Some a)\<rparr>)
         | None \<Rightarrow>
             (let p = clampPos rawPos (length ids); e = clampPos rawEnd (length ids);
                  fresh = base\<lparr>ce_pos := p, ce_end := e, ce_afterId := Some (anchorIdAt p ids),
                               ce_endAfterId := Some (anchorIdAt e ids)\<rparr>
              in case prev of
                   Some q \<Rightarrow> if ce_rawPos q = rawPos \<and> ce_rawEnd q = rawEnd then keep q else fresh
                 | None \<Rightarrow> fresh))"

definition updateRemoteCursors :: "msg \<Rightarrow> app \<Rightarrow> app" where
  [js_eval]: "updateRemoteCursors data s =
     (let ids = visibleIds (the_doc s);
          cs = (case m_cursors data of None \<Rightarrow> [] | Some cs \<Rightarrow> cs);
          nxt = foldl (\<lambda>acc c.
             if wc_clientId c = [] \<or> wc_clientId c = CLIENT_ID s then acc
             else alist_put (wc_clientId c)
                    (cursor_of_wire ids (map_of (remoteCursors s) (wc_clientId c)) c) acc) [] cs
      in if cursorsVisuallyEqual (remoteCursors s) nxt
         then s\<lparr>remoteCursors := map (\<lambda>(i, c). case map_of nxt i of
                  Some n \<Rightarrow> (i, c\<lparr>ce_timestamp := ce_timestamp n\<rparr>) | None \<Rightarrow> (i, c)) (remoteCursors s)\<rparr>
         else emit UpdatePeers (emit RenderCursors (ensureUniqueSelfColor (s\<lparr>remoteCursors := nxt\<rparr>))))"

definition peerStaleMs :: int where [js_eval]: "peerStaleMs = 14000"

definition pruneStalePeers :: "nat \<Rightarrow> app \<Rightarrow> app" where
  [js_eval]: "pruneStalePeers now s =
     (let nxt = filter (\<lambda>(i, c). \<not> (0 < ce_timestamp c \<and> peerStaleMs < int now - ce_timestamp c)) (remoteCursors s)
      in if length nxt = length (remoteCursors s) then s
         else emit UpdatePeers (emit RenderCursors (s\<lparr>remoteCursors := nxt\<rparr>)))"

text \<open>What \<open>renderCursors\<close> draws for a peer: the caret and the two ends of its selection, in UTF-16 offsets.\<close>

definition render_span :: "cursor_entry \<Rightarrow> app \<Rightarrow> nat \<times> nat \<times> nat" where
  [js_eval]: "render_span c s =
     (let text = ed_value (content s);
          ids = visibleIds (the_doc s);
          maxCp = max (length ids) (length (codePoints text));
          where_cp = (\<lambda>anchor pos. case anchor of
                  Some a \<Rightarrow> (case posFromAfterId a ids of Some p \<Rightarrow> p | None \<Rightarrow> clampPos (num pos) maxCp)
                | None \<Rightarrow> clampPos (num pos) maxCp);
          caretCp = clampPos (num (where_cp (ce_afterId c) (ce_pos c))) maxCp;
          otherCp = clampPos (num (where_cp (ce_endAfterId c) (ce_end c))) maxCp;
          caret = codePointToUtf16Offset text (int caretCp);
          other = codePointToUtf16Offset text (int otherCp)
      in (caret, min caret other, max caret other))"

section \<open>Sending the own caret\<close>

definition compositionIsActive :: "app \<Rightarrow> bool" where
  [js_eval]: "compositionIsActive s \<longleftrightarrow> compositionActive s \<or> compositionCommitPending s"

definition scheduleCursorSend :: "app \<Rightarrow> app" where
  [js_eval]: "scheduleCursorSend s =
     (let s1 = s\<lparr>cursorTimer := False\<rparr>
      in if compositionIsActive s1 then s1 else emit (Arm CursorTimer 80) (s1\<lparr>cursorTimer := True\<rparr>))"

definition sendCursorPosition :: "bool \<Rightarrow> app \<Rightarrow> app" where
  [js_eval]: "sendCursorPosition silent s =
     (if compositionIsActive s then s
      else if \<not> socket_open s then s
      else let text = ed_value (content s);
               ids = visibleIds (the_doc s);
               startCp = clampPos (num (utf16ToCodePointOffset text (int (ed_start (content s))))) (length ids);
               endCp = clampPos (num (utf16ToCodePointOffset text (int (ed_end (content s))))) (length ids);
               caret = (if ed_dir (content s) = js ''backward'' then startCp else endCp);
               anchor = (if caret = startCp then endCp else startCp);
               afterId = (if 0 < caret then ids ! (caret - 1) else []);
               selectionAfterId = (if 0 < anchor then ids ! (anchor - 1) else []);
               s1 = emit (Send (WsCursor caret anchor afterId selectionAfterId (CLIENT_COLOR s))) s
           in if silent then s1 else emit (PulseTraffic Up) s1)"

end
