(* ===== verification/Ttl.thy ===== *)
theory Ttl
  imports RemoteCursors
begin

text \<open>
  The lifetime control (\<open>static/app.js\<close>, \<open>readTTLSeconds\<close>, \<open>setTTLControls\<close>, \<open>checkTTL\<close>) and the texts
  computed from a time. The product of the two fields is compared with the greatest safe integer;
  the exact product decides as the rounded one does, since rounding is monotone.
\<close>

definition max_safe :: int where [js_eval]: "max_safe = 2 ^ 53 - 1"

definition safe_integer :: "jsnum \<Rightarrow> int option" where
  [js_eval]: "safe_integer x =
     (case x of Fin r \<Rightarrow> if r = of_int \<lfloor>r\<rfloor> \<and> \<bar>\<lfloor>r\<rfloor>\<bar> \<le> max_safe then Some \<lfloor>r\<rfloor> else None | _ \<Rightarrow> None)"

text \<open>\<open>0\<close> stands for an invalid lifetime, as in the code.\<close>

definition readTTLSeconds :: "app \<Rightarrow> nat" where
  [js_eval]: "readTTLSeconds s =
     (case (safe_integer (js_Number (ttlValue s)), safe_integer (js_Number (ttlUnit s))) of
        (Some value, Some unit) \<Rightarrow>
          if value \<le> 0 \<or> unit \<le> 0 then 0
          else if value * unit \<le> max_safe then nat (value * unit) else 0
      | _ \<Rightarrow> 0)"

definition setTTLControls :: "nat \<Rightarrow> app \<Rightarrow> app" where
  [js_eval]: "setTTLControls seconds s =
     (let unit = (case find (\<lambda>c. seconds mod c = 0) [86400, 3600, 60] of Some c \<Rightarrow> c | None \<Rightarrow> 60)
      in s\<lparr>ttlUnit := num_str unit, ttlValue := num_str (max 1 (seconds div unit))\<rparr>)"

definition checkTTL :: "app \<Rightarrow> bool \<times> app" where
  [js_eval]: "checkTTL s =
     (if readTTLSeconds s \<noteq> 0 then (True, emit (MarkTtl False) (s\<lparr>ttlInvalidNotified := False\<rparr>))
      else let s1 = emit (MarkTtl True) s
           in (False, if ttlInvalidNotified s1 then s1
                      else emit (ShowToast InvalidTtlToast) (s1\<lparr>ttlInvalidNotified := True\<rparr>)))"

definition onSettingsChange :: "app \<Rightarrow> app" where
  [js_eval]: "onSettingsChange s = (case checkTTL s of (ok, s1) \<Rightarrow> if ok then scheduleFlush s1 else s1)"

section \<open>Remaining time\<close>

datatype time_unit = Seconds | Minutes | Hours | Days

text \<open>
  The quotient of two naturals as a double, \<open>Math.ceil\<close> and \<open>Math.round\<close>, and \<open>toFixed(1)\<close>, which
  rounds the exact value of the double to a tenth, a tie going up.
\<close>

definition dquot :: "nat \<Rightarrow> nat \<Rightarrow> rat" where
  [js_eval]: "dquot p q = (case double_of p q of Fin r \<Rightarrow> r | _ \<Rightarrow> 0)"

definition js_round :: "rat \<Rightarrow> nat" where
  [js_eval]: "js_round r = nat \<lfloor>r + 1 / 2\<rfloor>"

definition toFixed1 :: "rat \<Rightarrow> jsstring" where
  [js_eval]: "toFixed1 r = (let n = nat \<lfloor>10 * r + 1 / 2\<rfloor> in num_str (n div 10) @ 46 # num_str (n mod 10))"

definition formatDuration :: "nat \<Rightarrow> jsstring \<times> time_unit" where
  [js_eval]: "formatDuration ms =
     (let s = nat \<lceil>dquot ms 1000\<rceil>
      in if s < 60 then (num_str s, Seconds)
         else if s < 3600 then (num_str (nat \<lceil>dquot s 60\<rceil>), Minutes)
         else if s < 86400 then
           (let h = dquot s 3600 in (if h < 10 then toFixed1 h else num_str (js_round h), Hours))
         else (let days = dquot s 86400 in (if days < 10 then toFixed1 days else num_str (js_round days), Days)))"

datatype expiry = BadDate | Expired | Remaining "jsstring \<times> time_unit" jsstring

text \<open>\<open>renderExpires\<close>: the time of the date (\<open>None\<close> when it does not parse) against the clock, with its tone.\<close>

definition renderExpires :: "int option \<Rightarrow> int \<Rightarrow> expiry" where
  [js_eval]: "renderExpires date now =
     (case date of
        None \<Rightarrow> BadDate
      | Some d \<Rightarrow>
          let ms = d - now
          in if ms \<le> 0 then Expired
             else Remaining (formatDuration (nat ms))
                    (if ms < 60000 then js ''urgent'' else if ms < 600000 then js ''soon'' else js ''normal''))"

section \<open>Facts\<close>

lemma Number_num_str: "n \<le> max_exact \<Longrightarrow> js_Number (num_str n) = Fin (of_nat n)"
  by (simp add: num_str_exact js_Number_dec_str)

lemma safe_integer_nat: "int n \<le> max_safe \<Longrightarrow> safe_integer (Fin (of_nat n)) = Some (int n)"
  by (simp add: safe_integer_def)

lemma max_safe_exact: "int n \<le> max_safe \<Longrightarrow> n \<le> max_exact"
  by (simp add: max_safe_def max_exact_def)

lemma ttl_read_set:
  assumes "60 dvd n" "0 < n" "int n \<le> max_safe"
  shows "readTTLSeconds (setTTLControls n s) = n"
proof -
  define u where "u = (case find (\<lambda>c. n mod c = 0) [86400, 3600, 60] of Some c \<Rightarrow> c | None \<Rightarrow> (60::nat))"
  have u: "u dvd n" "0 < u" "u \<le> 86400" using assms(1) by (auto simp: u_def mod_eq_0_iff_dvd)
  then have q: "max 1 (n div u) * u = n" "0 < n div u"
    using assms(2) by (auto simp: max_def dvd_div_mult_self div_greater_zero_iff dvd_imp_le)
  have le: "int (n div u) \<le> max_safe" "int u \<le> max_safe"
    using assms(3) u(3) order_trans [OF div_le_dividend [of n u]] by (auto simp: max_safe_def)
  have m: "max 1 (n div u) = n div u" using q(2) by simp
  have "setTTLControls n s = s\<lparr>ttlUnit := num_str u, ttlValue := num_str (n div u)\<rparr>"
    by (simp only: setTTLControls_def Let_def u_def [symmetric] m)
  moreover have "safe_integer (js_Number (num_str (n div u))) = Some (int (n div u))"
    "safe_integer (js_Number (num_str u)) = Some (int u)"
    using le by (simp_all add: Number_num_str max_safe_exact safe_integer_nat)
  moreover have "int (n div u) * int u = int n" using q(1) m by (metis of_nat_mult)
  ultimately show ?thesis using assms(2,3) q(2) u(2) by (simp add: readTTLSeconds_def)
qed

lemma ttl_read_set_rounded:
  assumes "0 < n" "int n \<le> max_safe"
  shows "readTTLSeconds (setTTLControls n s) = max 60 (n div 60 * 60)"
proof (cases "60 dvd n")
  case True
  then have "60 \<le> n" using assms(1) by (simp add: dvd_imp_le)
  then show ?thesis using ttl_read_set [OF True assms] True by simp
next
  case False
  then have nd: "n mod 86400 \<noteq> 0" "n mod 3600 \<noteq> 0" "n mod 60 \<noteq> 0"
    by (auto simp: mod_eq_0_iff_dvd elim!: dvd_trans [rotated])
  let ?v = "max 1 (n div 60)"
  have le: "int ?v \<le> max_safe" "int ?v * 60 \<le> max_safe" using assms(2) by (auto simp: max_def max_safe_def)
  have "setTTLControls n s = s\<lparr>ttlUnit := num_str 60, ttlValue := num_str ?v\<rparr>"
    using nd by (simp add: setTTLControls_def)
  moreover have "safe_integer (js_Number (num_str ?v)) = Some (int ?v)"
    "safe_integer (js_Number (num_str 60)) = Some 60"
    using le safe_integer_nat [of 60] by (simp_all add: Number_num_str max_safe_exact safe_integer_nat)
  ultimately have "readTTLSeconds (setTTLControls n s) = nat (int ?v * 60)"
    using le(2) by (simp add: readTTLSeconds_def)
  also have "\<dots> = max 60 (n div 60 * 60)" by (simp add: max_def nat_mult_distrib)
  finally show ?thesis .
qed

end
