(* ===== verification/LocalEdit.thy ===== *)
theory LocalEdit
  imports Ttl
begin

text \<open>
  Local edits (\<open>static/app.js\<close>): the Lamport clock, the undo and redo stacks with their inverse
  operations, typing and the Tab key, and the three-way merge. An operation made here goes into the
  document and into \<open>pendingOps\<close>, where it stays until the server confirms it.
\<close>

section \<open>Clock\<close>

definition opKey :: "crdt_op \<Rightarrow> jsstring" where
  [js_eval]: "opKey x = op_kind x @ [124] @ op_id x"

definition bumpClockFromDoc :: "app \<Rightarrow> app" where
  [js_eval]: "bumpClockFromDoc s =
     (let m = maxClock (the_doc s) in if localClock s < m then s\<lparr>localClock := m\<rparr> else s)"

definition bumpClockFromOps :: "crdt_op list \<Rightarrow> app \<Rightarrow> app" where
  [js_eval]: "bumpClockFromOps ops s =
     s\<lparr>localClock := fold (\<lambda>x c. if op_id x = [] then c
                             else case parseID (op_id x) of Some (_, k) \<Rightarrow> if c < k then k else c | None \<Rightarrow> c)
                     ops (localClock s)\<rparr>"

section \<open>Undo and redo\<close>

definition undoCoalesceMs :: nat where [js_eval]: "undoCoalesceMs = 800"

definition maxUndoDepth :: nat where [js_eval]: "maxUndoDepth = 100"

definition updateUndoButtons :: "app \<Rightarrow> app" where
  [js_eval]: "updateUndoButtons s = emit (UndoButtons (undoStack s = []) (redoStack s = [])) s"

definition clearUndoHistory :: "app \<Rightarrow> app" where
  [js_eval]: "clearUndoHistory s = updateUndoButtons (s\<lparr>undoStack := [], redoStack := []\<rparr>)"

definition push_entry :: "nat \<Rightarrow> crdt_op list \<Rightarrow> undo_entry list \<Rightarrow> undo_entry list" where
  [js_eval]: "push_entry now ops st =
     (if st \<noteq> [] \<and> now - ue_at (last st) \<le> undoCoalesceMs
      then butlast st @ [\<lparr>ue_ops = ue_ops (last st) @ ops, ue_at = now\<rparr>]
      else let st' = st @ [\<lparr>ue_ops = ops, ue_at = now\<rparr>]
           in if maxUndoDepth < length st' then tl st' else st')"

definition pushUndoEntry :: "nat \<Rightarrow> crdt_op list \<Rightarrow> app \<Rightarrow> app" where
  [js_eval]: "pushUndoEntry now ops s =
     (if ops = [] then s
      else updateUndoButtons (s\<lparr>undoStack := push_entry now ops (undoStack s), redoStack := []\<rparr>))"

text \<open>The loop of \<open>inverseOps\<close> over the reversed batch, with the clock it advances.\<close>

fun inverse_loop :: "doc \<Rightarrow> jsstring \<Rightarrow> crdt_op list \<Rightarrow> nat \<Rightarrow> crdt_op list \<times> nat" where
  "inverse_loop d site [] clock = ([], clock)"
| "inverse_loop d site (x # xs) clock =
     (if op_kind x = js ''ins'' then
        (let (ys, c) = inverse_loop d site xs clock in (del_op (op_id x) # ys, c))
      else if op_kind x = js ''del'' then
        (case get_item d (op_id x) of
           None \<Rightarrow> inverse_loop d site xs clock
         | Some it \<Rightarrow>
             (let clock' = num_inc clock;
                  (ys, c) = inverse_loop d site xs clock'
              in (ins_op (formatID site clock') (it_after it) (it_ch it) # ys, c)))
      else inverse_loop d site xs clock)"

definition inverseOps :: "crdt_op list \<Rightarrow> app \<Rightarrow> crdt_op list \<times> app" where
  [js_eval]: "inverseOps ops s =
     (case inverse_loop (the_doc s) (CLIENT_ID s) (rev ops) (localClock s) of
        (ys, c) \<Rightarrow> (ys, s\<lparr>localClock := c\<rparr>))"

definition applyOpsLocal :: "crdt_op list \<Rightarrow> app \<Rightarrow> bool \<times> app" where
  [js_eval]: "applyOpsLocal ops s =
     (if ops = [] then (True, s)
      else let s1 = bumpClockFromDoc s;
               (d', r) = applyBatch (the_doc s1) ops;
               s2 = s1\<lparr>the_doc := d'\<rparr>
           in if \<not> batch_ok r then (False, setStatus ErrorStatus s2)
              else let s3 = bumpClockFromOps ops s2
                   in (True, scheduleFlush (s3\<lparr>pendingOps := pendingOps s3 @ ops\<rparr>)))"

text \<open>What undo and redo do after the batch went through.\<close>

definition after_history_step :: "jsstring \<Rightarrow> app \<Rightarrow> app" where
  [js_eval]: "after_history_step oldText s =
     (let nxt = materialize (the_doc s);
          s1 = paint nxt (captureSelection s) s;
          s2 = emit RenderCursors (onLocalTextChanged oldText nxt s1)
      in updateUndoButtons (scheduleCursorSend s2))"

definition undo :: "nat \<Rightarrow> app \<Rightarrow> app" where
  [js_eval]: "undo now s0 =
     (case blockWhenReadOnly s0 of
        (True, s) \<Rightarrow> s
      | (False, s) \<Rightarrow>
          if undoStack s = [] then s
          else let entry = last (undoStack s);
                   (ops, s1) = inverseOps (ue_ops entry) (s\<lparr>undoStack := butlast (undoStack s)\<rparr>)
               in if ops = [] then updateUndoButtons s1
                  else let oldText = materialize (the_doc s1);
                           (ok, s2) = applyOpsLocal ops s1
                       in if \<not> ok then s2\<lparr>undoStack := undoStack s2 @ [entry]\<rparr>
                          else after_history_step oldText
                                 (s2\<lparr>redoStack := redoStack s2 @ [\<lparr>ue_ops = ops, ue_at = now\<rparr>]\<rparr>))"

definition redo :: "nat \<Rightarrow> app \<Rightarrow> app" where
  [js_eval]: "redo now s0 =
     (case blockWhenReadOnly s0 of
        (True, s) \<Rightarrow> s
      | (False, s) \<Rightarrow>
          if redoStack s = [] then s
          else let entry = last (redoStack s);
                   (ops, s1) = inverseOps (ue_ops entry) (s\<lparr>redoStack := butlast (redoStack s)\<rparr>)
               in if ops = [] then updateUndoButtons s1
                  else let oldText = materialize (the_doc s1);
                           (ok, s2) = applyOpsLocal ops s1
                       in if \<not> ok then s2\<lparr>redoStack := redoStack s2 @ [entry]\<rparr>
                          else after_history_step oldText
                                 (s2\<lparr>undoStack := undoStack s2 @ [\<lparr>ue_ops = ops, ue_at = now\<rparr>]\<rparr>))"

section \<open>Typing\<close>

definition applyLocalText :: "nat \<Rightarrow> jsstring \<Rightarrow> app \<Rightarrow> app" where
  [js_eval]: "applyLocalText now newText s =
     (let oldText = materialize (the_doc s);
          oldChars = codePoints oldText;
          oldIds = visibleIds (the_doc s);
          newChars = codePoints newText
      in if oldText = newText then s
         else let s1 = bumpClockFromDoc s;
                  diff = diffToOps oldChars oldIds newChars (CLIENT_ID s1) (localClock s1)
              in if df_ops diff = [] then s1
                 else let (d', r) = applyBatch (the_doc s1) (df_ops diff);
                          s2 = s1\<lparr>localClock := df_clock diff, the_doc := d'\<rparr>
                      in if \<not> batch_ok r then setStatus ErrorStatus s2
                         else scheduleFlush (pushUndoEntry now (df_ops diff)
                                (s2\<lparr>pendingOps := pendingOps s2 @ df_ops diff\<rparr>)))"

definition onInput :: "nat \<Rightarrow> app \<Rightarrow> app" where
  [js_eval]: "onInput now s =
     (if applyingRemote s then s
      else if compositionActive s \<or> compositionCommitPending s then s\<lparr>compositionInputPending := True\<rparr>
      else let oldText = materialize (the_doc s);
               s1 = applyLocalText now (ed_value (content s)) s;
               newText = materialize (the_doc s1)
           in scheduleCursorSend (emit RenderCursors (onLocalTextChanged oldText newText s1)))"

text \<open>\<open>value.lastIndexOf("\\n", k)\<close>: a negative \<open>k\<close> is read as \<open>0\<close>, and \<open>-1\<close> means none.\<close>

fun last_newline :: "jsstring \<Rightarrow> nat \<Rightarrow> int" where
  "last_newline s 0 = (if s \<noteq> [] \<and> s ! 0 = 10 then 0 else -1)"
| "last_newline s (Suc k) = (if Suc k < length s \<and> s ! Suc k = 10 then int (Suc k) else last_newline s k)"

definition line_end :: "codeunit \<Rightarrow> bool" where
  [js_eval]: "line_end u \<longleftrightarrow> u = 10 \<or> u = 13 \<or> u = 0x2028 \<or> u = 0x2029"

text \<open>\<open>block.replace(/^/gm, "  ")\<close>: two spaces at the start and after every line terminator.\<close>

fun indent_after :: "jsstring \<Rightarrow> jsstring" where
  "indent_after [] = []"
| "indent_after (u # us) = (if line_end u then u # 32 # 32 # indent_after us else u # indent_after us)"

definition indent_block :: "jsstring \<Rightarrow> jsstring" where
  [js_eval]: "indent_block b = 32 # 32 # indent_after b"

definition onTab :: "nat \<Rightarrow> app \<Rightarrow> app" where
  [js_eval]: "onTab now s =
     (let start = ed_start (content s);
          stop = ed_end (content s);
          value = ed_value (content s)
      in if start = stop then
           onInput now (s\<lparr>content := setSelectionRange (start + 2) (start + 2) (js ''none'')
             (set_value (take start value @ js ''  '' @ drop stop value) (content s))\<rparr>)
         else let lineStart = nat (last_newline value (start - 1) + 1);
                  indented = indent_block (js_slice value lineStart stop)
              in onInput now (s\<lparr>content := setSelectionRange lineStart (lineStart + length indented) (js ''none'')
                   (set_value (take lineStart value @ indented @ drop stop value) (content s))\<rparr>))"

section \<open>Three-way merge\<close>

definition build_or_new :: "jsstring \<Rightarrow> jsstring \<Rightarrow> doc" where
  [js_eval]: "build_or_new site text = (case buildFromString site text of Some d \<Rightarrow> d | None \<Rightarrow> newDoc)"

definition merge3 :: "jsstring \<Rightarrow> jsstring \<Rightarrow> jsstring \<Rightarrow> jsstring" where
  [js_eval]: "merge3 base mine theirs =
     (case buildFromString (js ''base'') base of
        None \<Rightarrow> mine
      | Some d \<Rightarrow>
          let baseCps = codePoints base;
              ids = visibleIds d;
              clock = maxClock d;
              dTheirs = diffToOps baseCps ids (codePoints theirs) (js ''their'') clock;
              dMine = diffToOps baseCps ids (codePoints mine) (js ''mine'') clock;
              (d1, r1) = (if df_ops dTheirs = [] then (d, BatchOk False) else applyBatch d (df_ops dTheirs))
          in if \<not> batch_ok r1 then mine
             else let (d2, r2) = (if df_ops dMine = [] then (d1, BatchOk False) else applyBatch d1 (df_ops dMine))
                  in if \<not> batch_ok r2 then mine else materialize d2)"

end
