(* ===== verification/Inbox.thy ===== *)
theory Inbox
  imports LocalEdit
begin

text \<open>
  Messages of the server (\<open>static/app.js\<close>): which snapshots are stale, how a snapshot, a broadcast
  batch and an acknowledgement change the state, and the request for a fresh snapshot.
\<close>

section \<open>Versions\<close>

definition messageGeneration :: "msg \<Rightarrow> nat" where
  [js_eval]: "messageGeneration data =
     (case m_generation data of
        Some (Fin r) \<Rightarrow> if r < 0 then 0 else nat \<lfloor>r\<rfloor>
      | _ \<Rightarrow> 0)"

definition messageExists :: "msg \<Rightarrow> bool" where
  [js_eval]: "messageExists data \<longleftrightarrow> m_exists data \<noteq> Some False"

definition hasGeneration :: "msg \<Rightarrow> bool" where
  [js_eval]: "hasGeneration data \<longleftrightarrow> m_generation data \<noteq> None"

definition snapshotIsStale :: "msg \<Rightarrow> app \<Rightarrow> bool" where
  [js_eval]: "snapshotIsStale data s =
     (let generation = messageGeneration data;
          exists = messageExists data;
          version = or_zero (m_version data)
      in if \<not> hasGeneration data then knownExists s \<and> exists \<and> version < knownVersion s
         else if generation < knownGeneration s then True
         else if knownGeneration s < generation then False
         else if \<not> exists \<and> knownExists s then False
         else if exists \<and> \<not> knownExists s then True
         else exists \<and> knownExists s \<and> version < knownVersion s)"

definition restSnapshotIsStale :: "msg \<Rightarrow> app \<Rightarrow> bool" where
  [js_eval]: "restSnapshotIsStale data s =
     (if snapshotIsStale data s then True
      else let generation = messageGeneration data;
               exists = messageExists data;
               version = or_zero (m_version data)
           in if hasGeneration data then
                (if generation \<noteq> knownGeneration s then False
                 else if exists \<and> (if knownExists s then version \<le> knownVersion s else True) then True
                 else False)
              else knownExists s \<and> exists \<and> version \<le> knownVersion s)"

text \<open>\<open>0\<close> is the time of no request.\<close>

definition requestSync :: "nat \<Rightarrow> app \<Rightarrow> app" where
  [js_eval]: "requestSync now s =
     (if syncRequestedAt s \<noteq> 0 \<and> int now - int (syncRequestedAt s) < 1500 then s
      else if socket_open s then emit (Send WsSync) (s\<lparr>syncRequestedAt := now\<rparr>)
      else load_room True s)"

section \<open>Snapshots\<close>

text \<open>The document a snapshot describes.\<close>

definition snapshot_doc :: "jsstring \<Rightarrow> msg \<Rightarrow> doc" where
  [js_eval]: "snapshot_doc cid data =
     (if or_empty (m_itemsSite data) \<noteq> [] then build_or_new (or_empty (m_itemsSite data)) (or_empty (m_content data))
      else if (case m_items data of Some ws \<Rightarrow> ws \<noteq> [] | None \<Rightarrow> False) then
        (case fromItems (the (m_items data)) of
           (d, None) \<Rightarrow> d
         | (d, Some e) \<Rightarrow> build_or_new cid (or_empty (m_content data)))
      else if or_empty (m_content data) \<noteq> [] then build_or_new (js ''server'') (or_empty (m_content data))
      else newDoc)"

text \<open>The new document with its clock, and the version, generation and metadata that go with it.\<close>

definition take_snapshot :: "msg \<Rightarrow> app \<Rightarrow> app" where
  [js_eval]: "take_snapshot data s =
     (let s1 = bumpClockFromDoc (s\<lparr>the_doc := snapshot_doc (CLIENT_ID s) data, localClock := 0\<rparr>);
          s2 = s1\<lparr>knownVersion := or_zero (m_version data)\<rparr>;
          s3 = (if hasGeneration data then s2\<lparr>knownGeneration := messageGeneration data\<rparr> else s2)
      in updateMeta data (s3\<lparr>knownExists := messageExists data, syncRequestedAt := 0\<rparr>))"

definition clear_undo_if_newer :: "nat \<Rightarrow> app \<Rightarrow> app" where
  [js_eval]: "clear_undo_if_newer generation s = (if knownGeneration s < generation then clearUndoHistory s else s)"

definition adopt_snapshot :: "msg \<Rightarrow> app \<Rightarrow> app" where
  [js_eval]: "adopt_snapshot data s =
     (let s1 = clear_undo_if_newer (messageGeneration data) (take_snapshot data s)
      in s1\<lparr>lastSyncedText := materialize (the_doc s1), sentBatches := []\<rparr>)"

text \<open>The unacknowledged operations again, on the document of the snapshot.\<close>

definition replay_pending :: "app \<Rightarrow> bool \<times> app" where
  [js_eval]: "replay_pending s =
     (if pendingOps s = [] then (False, s)
      else let (d', r) = applyBatch (the_doc s) (pendingOps s);
               s1 = s\<lparr>the_doc := d'\<rparr>
           in if batch_ok r then (True, bumpClockFromDoc s1) else (False, s1\<lparr>pendingOps := []\<rparr>))"

text \<open>An editor the lock no longer covers is writable again.\<close>

definition unlock_editor :: "app \<Rightarrow> app" where
  [js_eval]: "unlock_editor s =
     (if ed_readOnly (content s) \<and> \<not> roomNeedsUnlock s
      then s\<lparr>content := (content s)\<lparr>ed_readOnly := False\<rparr>\<rparr> else s)"

text \<open>
  Replay, or else the rebase of an unsynced text. \<open>base\<close> is the text of the last sync before the
  snapshot, \<open>unsynced\<close> whether there was something to lose.
\<close>

definition merge_unsynced :: "nat \<Rightarrow> jsstring \<Rightarrow> jsstring \<Rightarrow> bool \<Rightarrow> app \<Rightarrow> app" where
  [js_eval]: "merge_unsynced now localText base unsynced s =
     (let serverText = lastSyncedText s;
          (replayed, s1) = replay_pending s
      in if \<not> replayed \<and> localText \<noteq> serverText \<and> unsynced then
           (let rebasedText = (if base \<noteq> [] \<and> base \<noteq> localText then merge3 base localText serverText else localText)
            in if rebasedText \<noteq> serverText then applyLocalText now rebasedText s1 else s1)
         else s1)"

definition finish_state :: "msg \<Rightarrow> selection \<Rightarrow> app \<Rightarrow> app" where
  [js_eval]: "finish_state data sel s =
     (let s1 = hideLoading (paint (materialize (the_doc s)) sel s);
          s2 = reanchorRemoteCursorsFromPos (refreshRemoteCursorPositions s1);
          s3 = (if or_zero (m_ttlSeconds data) \<noteq> 0 then setTTLControls (or_zero (m_ttlSeconds data)) s2 else s2);
          s4 = scheduleCursorSend (emit UpdateEmptyHint (emit RenderCursors s3))
      in if pendingOps s4 \<noteq> [] then scheduleFlush s4 else setIdleStatus s4)"

definition handleState :: "nat \<Rightarrow> msg \<Rightarrow> app \<Rightarrow> app" where
  [js_eval]: "handleState now data s =
     (if compositionIsActive s then s\<lparr>deferredContentMessages := deferredContentMessages s @ [DMsg data]\<rparr>
      else if snapshotIsStale data s then s
      else let s1 = syncEditLockGate (noteEditPasswordSet data s)
      in if m_passwordRequired data then requestViewPassword (hideLoading s1)
      else let s2 = unlock_editor s1;
               localText = ed_value (content s2);
               hadPending = (pendingOps s2 \<noteq> []);
               untypedDraft = (if \<not> initialSnapshotApplied s2 \<and> \<not> hadPending \<and> lastSyncedText s2 = []
                               then localText else [])
           in finish_state data (captureSelection s2)
                (merge_unsynced now localText (lastSyncedText s2) (hadPending \<or> untypedDraft \<noteq> [])
                   (adopt_snapshot data s2)))"

section \<open>Broadcast batches\<close>

definition keys_of :: "crdt_op list \<Rightarrow> jsstring list" where
  [js_eval]: "keys_of ops = map opKey (filter (\<lambda>x. op_id x \<noteq> []) ops)"

definition forgetSentIds :: "jsstring list \<Rightarrow> app \<Rightarrow> app" where
  [js_eval]: "forgetSentIds acked s =
     s\<lparr>sentBatches := filter (\<lambda>(q, b). sb_ids b \<noteq> [])
        (map (\<lambda>(q, b). (q, b\<lparr>sb_ids := filter (\<lambda>k. k \<notin> set acked) (sb_ids b)\<rparr>)) (sentBatches s))\<rparr>"

definition drop_acked :: "jsstring list \<Rightarrow> crdt_op list \<Rightarrow> crdt_op list" where
  [js_eval]: "drop_acked acked ops = filter (\<lambda>x. \<not> (op_id x \<noteq> [] \<and> opKey x \<in> set acked)) ops"

definition note_version :: "msg \<Rightarrow> app \<Rightarrow> app" where
  [js_eval]: "note_version data s =
     (let s1 = s\<lparr>knownVersion := or_zero (m_version data)\<rparr>;
          s2 = (if hasGeneration data then s1\<lparr>knownGeneration := messageGeneration data\<rparr> else s1)
      in s2\<lparr>knownExists := True\<rparr>)"

text \<open>The own batch, echoed back.\<close>

definition handle_echo :: "msg \<Rightarrow> app \<Rightarrow> app" where
  [js_eval]: "handle_echo data s =
     (let s1 = updateMeta data (note_version data s);
          s2 = (case m_content data of Some c \<Rightarrow> s1\<lparr>lastSyncedText := c\<rparr> | None \<Rightarrow> s1);
          acked = keys_of (case m_ops data of Some ops \<Rightarrow> ops | None \<Rightarrow> []);
          s3 = (if acked \<noteq> [] then forgetSentIds acked (s2\<lparr>pendingOps := drop_acked acked (pendingOps s2)\<rparr>) else s2)
      in if \<not> flushTimer s3 \<and> pendingOps s3 = [] then setIdleStatus s3
         else if pendingOps s3 \<noteq> [] then scheduleFlush s3 else s3)"

definition finish_remote :: "jsstring \<Rightarrow> jsstring \<Rightarrow> app \<Rightarrow> app" where
  [js_eval]: "finish_remote oldText newText s =
     setIdleStatus (scheduleCursorSend (emit RenderCursors (onLocalTextChanged oldText newText s)))"

definition handleRemoteOps :: "nat \<Rightarrow> msg \<Rightarrow> app \<Rightarrow> app" where
  [js_eval]: "handleRemoteOps now data s =
     (if compositionIsActive s then s\<lparr>deferredContentMessages := deferredContentMessages s @ [DMsg data]\<rparr>
      else let version = or_zero (m_version data);
               generation = messageGeneration data;
               hasGen = hasGeneration data;
               fromSelf = (or_empty (m_updatedBy data) \<noteq> [] \<and> or_empty (m_updatedBy data) = CLIENT_ID s)
      in if hasGen \<and> generation < knownGeneration s then s
      else if hasGen \<and> knownGeneration s < generation then requestSync now s
      else if hasGen \<and> \<not> knownExists s \<and> m_exists data \<noteq> Some False then requestSync now s
      else if version \<le> knownVersion s then (if version = knownVersion s then updateMeta data s else s)
      else if knownVersion s + 1 < version then requestSync now s
      else if fromSelf then handle_echo data s
      else let sel = captureSelection s;
               oldText = materialize (the_doc s);
               ops = (case m_ops data of Some ops \<Rightarrow> ops | None \<Rightarrow> [])
           in if ops \<noteq> [] then
                (let (d', r) = applyBatch (the_doc s) ops;
                     s1 = s\<lparr>the_doc := d'\<rparr>
                 in if \<not> batch_ok r then requestSync now s1
                    else let s2 = bumpClockFromOps ops s1;
                             s3 = (case m_content data of Some c \<Rightarrow> s2\<lparr>lastSyncedText := c\<rparr> | None \<Rightarrow> s2);
                             s4 = updateMeta data (note_version data s3);
                             nxt = materialize (the_doc s4)
                         in finish_remote oldText nxt (paint nxt sel s4))
              else (case m_content data of
                      Some c \<Rightarrow>
                        (let s1 = note_version data (paint c sel s);
                             s2 = updateMeta data (s1\<lparr>lastSyncedText := c\<rparr>)
                         in finish_remote oldText c s2)
                    | None \<Rightarrow>
                        (let s1 = updateMeta data (note_version data s);
                             nxt = materialize (the_doc s1)
                         in finish_remote oldText nxt (paint nxt sel s1))))"

section \<open>Acknowledgements\<close>

text \<open>An acknowledgement without an error, after its batch was dropped.\<close>

definition ack_accepted :: "msg \<Rightarrow> app \<Rightarrow> app" where
  [js_eval]: "ack_accepted data s1 =
     (let version = or_zero (m_version data);
          generation = messageGeneration data;
          s2 = (if hasGeneration data \<and> knownGeneration s1 \<le> generation
                then s1\<lparr>knownGeneration := generation, knownExists := messageExists data\<rparr> else s1);
          s3 = (if version = knownVersion s2 + 1 then s2\<lparr>knownVersion := version\<rparr> else s2);
          s4 = (if or_empty (m_expiresAt data) \<noteq> [] then updateMeta data s3 else s3)
      in if pendingOps s4 \<noteq> [] then scheduleFlush s4
         else if \<not> flushTimer s4 then setIdleStatus s4 else s4)"

text \<open>The batch of an acknowledgement is in flight no longer.\<close>

definition ack_batch :: "nat \<Rightarrow> app \<Rightarrow> app" where
  [js_eval]: "ack_batch seq s = s\<lparr>sentBatches := filter (\<lambda>(q, b). q \<noteq> seq) (sentBatches s)\<rparr>"

definition handleAck :: "msg \<Rightarrow> app \<Rightarrow> app" where
  [js_eval]: "handleAck data s =
     (let seq = or_zero (m_seq data);
          batch = map_of (sentBatches s) seq;
          err = or_empty (m_error data);
          passwordNeeded = (err = js ''edit password required'' \<or> err = js ''view password required'');
          invalidView = (err = js ''invalid view password'')
      in if err \<noteq> [] \<and> (passwordNeeded \<or> invalidView) then
           (let s1 = (if batch \<noteq> None then ack_batch seq s else s)
            in if invalidView then onInvalidViewPassword s1
               else showRoomLockError WrongPasswordToast (showRoomLock (setEditPassword [] s1)))
         else let s1 = (case batch of
                          Some b \<Rightarrow> (ack_batch seq s)\<lparr>pendingOps := drop_acked (sb_ids b) (pendingOps s)\<rparr>
                        | None \<Rightarrow> s)
              in if err \<noteq> [] then setStatus ErrorStatus s1 else ack_accepted data s1)"

end
