(* ===== verification/Outbox.thy ===== *)
theory Outbox
  imports Inbox
begin

text \<open>
  Sending (\<open>static/app.js\<close>): the pending operations go out in batches over the socket, each operation
  in one batch at a time; with no usable socket the text is put as a whole, and a conflict or a poll
  that shows newer server state is merged three-way.
\<close>

definition maxOpsPerSend :: nat where [js_eval]: "maxOpsPerSend = 1000"

definition schedulePutFallback :: "app \<Rightarrow> app" where
  [js_eval]: "schedulePutFallback s =
     emit (Arm PutFallbackTimer (min 3200 (200 * 2 ^ min (putFailures s) 4))) (s\<lparr>putFallbackTimer := True\<rparr>)"

text \<open>The keys of every operation in flight.\<close>

definition outstanding :: "app \<Rightarrow> jsstring list" where
  [js_eval]: "outstanding s = concat (map (\<lambda>(q, b). sb_ids b) (sentBatches s))"

definition unsent :: "app \<Rightarrow> crdt_op list" where
  [js_eval]: "unsent s = filter (\<lambda>x. op_id x \<noteq> [] \<and> opKey x \<notin> set (outstanding s)) (pendingOps s)"

definition flushPending :: "nat \<Rightarrow> app \<Rightarrow> app" where
  [js_eval]: "flushPending now s =
     (let ttlSeconds = readTTLSeconds s
      in if ttlSeconds = 0 then snd (checkTTL s)
         else if ws_connected s \<and> socket_open s then
           (let batch0 = unsent s
            in if batch0 = [] \<and> pendingOps s \<noteq> [] then s
               else let overflow = maxOpsPerSend < length batch0;
                        batch = (if overflow then take maxOpsPerSend batch0 else batch0);
                        seq = nextSeq s;
                        s1 = emit (PulseTraffic Up) (emit (Send (WsOps batch ttlSeconds seq (roomPassword s)))
                               (s\<lparr>nextSeq := seq + 1\<rparr>));
                        s2 = (if batch \<noteq> []
                              then s1\<lparr>sentBatches := alist_put seq \<lparr>sb_ids = remdups (map opKey batch), sb_at = now\<rparr>
                                                        (sentBatches s1)\<rparr>
                              else s1)
                    in if overflow then scheduleFlush s2 else s2)
         else if \<not> intentionalClose s \<and> reconnectAttempts s < 2 then s
         else schedulePutFallback s)"

text \<open>The timer armed by \<open>scheduleFlush\<close>.\<close>

definition flushTimer_fired :: "nat \<Rightarrow> app \<Rightarrow> app" where
  [js_eval]: "flushTimer_fired now s = flushPending now (s\<lparr>flushTimer := False\<rparr>)"

section \<open>Whole-text save\<close>

definition putReplace :: "jsstring \<Rightarrow> nat \<Rightarrow> app \<Rightarrow> app" where
  [js_eval]: "putReplace text ttlSeconds s =
     (if putInFlight s then schedulePutFallback s
      else emit (FetchPut text ttlSeconds (CLIENT_ID s) (roomPassword s)
                   (if 0 < knownVersion s then Some (knownVersion s) else None))
             (emit (PulseTraffic Up) (s\<lparr>putInFlight := True\<rparr>)))"

definition putFallback_fired :: "app \<Rightarrow> app" where
  [js_eval]: "putFallback_fired s0 =
     (let s = s0\<lparr>putFallbackTimer := False\<rparr>
      in if readTTLSeconds s = 0 then snd (checkTTL s)
         else putReplace (ed_value (content s)) (readTTLSeconds s) s)"

definition merged_text :: "jsstring \<Rightarrow> jsstring \<Rightarrow> jsstring \<Rightarrow> jsstring" where
  [js_eval]: "merged_text base mine theirs =
     (if mine = base \<or> mine = theirs then theirs
      else if theirs = base then mine
      else merge3 base mine theirs)"

definition mergeServerState :: "msg \<Rightarrow> app \<Rightarrow> app" where
  [js_eval]: "mergeServerState data s0 =
     (if compositionIsActive s0 then s0\<lparr>deferredContentMessages := deferredContentMessages s0 @ [DRest data]\<rparr>
      else let s = syncEditLockGate (noteEditPasswordSet data s0);
               theirs = or_empty (m_content data);
               mine = ed_value (content s);
               sel = (captureSelection s)\<lparr>sl_useAnchor := False\<rparr>;
               merged = merged_text (lastSyncedText s) mine theirs;
               s1 = bumpClockFromDoc (s\<lparr>the_doc := build_or_new (CLIENT_ID s) merged, localClock := 0\<rparr>);
               s2 = s1\<lparr>knownVersion := or_zero (m_version data)\<rparr>;
               s3 = (if hasGeneration data then s2\<lparr>knownGeneration := messageGeneration data\<rparr> else s2);
               s4 = updateMeta data (s3\<lparr>knownExists := messageExists data, lastSyncedText := theirs,
                                         pendingOps := [], sentBatches := []\<rparr>);
               s5 = (if or_zero (m_ttlSeconds data) \<noteq> 0 then setTTLControls (or_zero (m_ttlSeconds data)) s4 else s4);
               s6 = shiftRemoteCursorsByText mine merged (hideLoading (paint merged sel s5));
               s7 = emit UpdateEmptyHint (emit RenderCursors s6)
           in if merged \<noteq> theirs then schedulePutFallback s7 else setIdleStatus s7)"

text \<open>The answer to a \<open>PUT\<close> by its status; \<open>0\<close> stands for a request that failed.\<close>

definition putReplace_done :: "jsstring \<Rightarrow> nat \<Rightarrow> nat \<Rightarrow> msg \<Rightarrow> app \<Rightarrow> app" where
  [js_eval]: "putReplace_done text ttlSeconds st data s0 =
     (let s = (emit (PulseTraffic Down) s0)\<lparr>putInFlight := False\<rparr>
      in if st = 403 then emit AskEditPassword s
         else if st = 409 then mergeServerState data (s\<lparr>putFailures := 0\<rparr>)
         else if st = 429 then schedulePutFallback (setStatus ErrorStatus (s\<lparr>putFailures := putFailures s + 1\<rparr>))
         else if 200 \<le> st \<and> st < 300 then
           (let s1 = updateMeta data (s\<lparr>putFailures := 0, knownVersion := or_zero (m_version data),
                       knownGeneration := messageGeneration data, knownExists := True\<rparr>);
                s2 = bumpClockFromDoc (s1\<lparr>pendingOps := [], sentBatches := [],
                       the_doc := build_or_new (CLIENT_ID s1) text, localClock := 0\<rparr>);
                s3 = setTTLControls (if or_zero (m_ttlSeconds data) \<noteq> 0 then or_zero (m_ttlSeconds data) else ttlSeconds)
                       (s2\<lparr>lastSyncedText := text\<rparr>)
            in if ed_value (content s3) \<noteq> text then schedulePutFallback s3 else setIdleStatus s3)
         else schedulePutFallback (setStatus ErrorStatus
                ((if st = 0 then s0\<lparr>putInFlight := False\<rparr> else s)\<lparr>putFailures := putFailures s + 1\<rparr>)))"

text \<open>The prompt opened by a \<open>403\<close>: \<open>None\<close> when it was cancelled.\<close>

definition putPassword_entered :: "jsstring option \<Rightarrow> app \<Rightarrow> app" where
  [js_eval]: "putPassword_entered p s =
     (if or_empty p = [] then setStatus ErrorStatus (s\<lparr>putFailures := putFailures s + 1\<rparr>)
      else schedulePutFallback ((setEditPassword (or_empty p) s)\<lparr>putFailures := 0\<rparr>))"

section \<open>Polling\<close>

definition startRestPoll :: "app \<Rightarrow> app" where
  [js_eval]: "startRestPoll s =
     (if restPollTimer s then s else emit (Arm RestPollTimer 4000) (s\<lparr>restPollTimer := True\<rparr>))"

definition restPoll_fired :: "app \<Rightarrow> app" where
  [js_eval]: "restPoll_fired s = (if ws_connected s \<or> putInFlight s then s else emit (FetchPoll (roomPassword s)) s)"

definition restPoll_done :: "msg \<Rightarrow> app \<Rightarrow> app" where
  [js_eval]: "restPoll_done data s =
     (if ws_connected s \<or> putInFlight s then s
      else if messageGeneration data \<noteq> knownGeneration s \<or> messageExists data \<noteq> knownExists s \<or>
              (messageExists data \<and> or_zero (m_version data) \<noteq> knownVersion s)
           then mergeServerState data s else s)"

definition stopRestPoll :: "app \<Rightarrow> app" where
  [js_eval]: "stopRestPoll s = s\<lparr>restPollTimer := False\<rparr>"

section \<open>First load\<close>

definition applyLoadedSnapshot :: "msg \<Rightarrow> bool \<Rightarrow> app \<Rightarrow> app" where
  [js_eval]: "applyLoadedSnapshot data force s0 =
     (let value = ed_value (content s0);
          localDirty = (value \<noteq> [] \<and> value \<noteq> lastSyncedText s0);
          canPaintEarly = (\<not> initialSnapshotApplied s0 \<and> pendingOps s0 = [] \<and> \<not> compositionIsActive s0 \<and> \<not> localDirty);
          socketLive = (case socket s0 of Some (_, r) \<Rightarrow> r = Connecting \<or> r = Open | None \<Rightarrow> False)
      in if \<not> force \<and> \<not> canPaintEarly \<and> socketLive then s0
         else if \<not> force \<and> pendingOps s0 \<noteq> [] then s0
         else if \<not> force \<and> ws_connected s0 \<and> restSnapshotIsStale data s0 then s0
         else let s = syncEditLockGate (noteEditPasswordSet data s0);
                  sel = (captureSelection s)\<lparr>sl_useAnchor := False\<rparr>;
                  text = or_empty (m_content data);
                  s1 = s\<lparr>the_doc := build_or_new (js ''server'') text, localClock := 0,
                         knownVersion := or_zero (m_version data)\<rparr>;
                  s2 = (if hasGeneration data then s1\<lparr>knownGeneration := messageGeneration data\<rparr> else s1);
                  s3 = s2\<lparr>knownExists := messageExists data, lastSyncedText := text,
                          pendingOps := [], sentBatches := []\<rparr>;
                  s4 = hideLoading (paint text sel s3);
                  s5 = setTTLControls (if or_zero (m_ttlSeconds data) \<noteq> 0 then or_zero (m_ttlSeconds data) else 3600) s4;
                  s6 = emit UpdateEmptyHint (emit RenderCursors (updateMeta data s5))
              in setIdleStatus s6)"

text \<open>The answer of \<open>load\<close>: a snapshot, or the failure of the request.\<close>

definition load_done :: "bool \<Rightarrow> msg option \<Rightarrow> app \<Rightarrow> app" where
  [js_eval]: "load_done force r s =
     (case r of
        Some data \<Rightarrow>
          if compositionIsActive s
          then s\<lparr>deferredContentMessages := deferredContentMessages s @ [DRestLoad data force]\<rparr>
          else applyLoadedSnapshot data force s
      | None \<Rightarrow> if \<not> ws_connected s then setStatus ErrorStatus (hideLoading s) else s)"

end
