(* ===== verification/Connection.thy ===== *)
theory Connection
  imports Outbox
begin

text \<open>
  Composition (IME input) and the connection (\<open>static/app.js\<close>). While a composition is active the
  content messages are queued; its commit diffs the final text against the document of its start
  and then handles the queue. A socket is its number; a handler of an older socket does nothing.
\<close>

section \<open>Composition\<close>

definition onCompositionStart :: "app \<Rightarrow> app" where
  [js_eval]: "onCompositionStart s =
     (if applyingRemote s \<or> compositionActive s then s
      else s\<lparr>cursorTimer := False, compositionActive := True, compositionCommitPending := False,
             compositionInputPending := False, compositionBaseText := ed_value (content s),
             compositionBaseDoc := Some (clone (the_doc s))\<rparr>)"

definition onCompositionEnd :: "app \<Rightarrow> app" where
  [js_eval]: "onCompositionEnd s =
     (if \<not> compositionActive s then s
      else emit (Arm CompositionCommit 0) (s\<lparr>compositionActive := False, compositionCommitPending := True\<rparr>))"

text \<open>One queued message, by its kind.\<close>

definition handle_deferred :: "nat \<Rightarrow> deferred \<Rightarrow> app \<Rightarrow> app" where
  [js_eval]: "handle_deferred now q s =
     (case q of
        DMsg data \<Rightarrow>
          if m_type data = js ''state'' \<or> m_type data = js ''update'' then handleState now data s
          else if m_type data = js ''ops'' then handleRemoteOps now data s
          else s
      | DRest data \<Rightarrow> mergeServerState data s
      | DRestLoad data force \<Rightarrow> applyLoadedSnapshot data force s)"

definition flushDeferredContentMessages :: "nat \<Rightarrow> app \<Rightarrow> app" where
  [js_eval]: "flushDeferredContentMessages now s =
     (if compositionIsActive s \<or> deferredContentMessages s = [] then s
      else fold (handle_deferred now) (deferredContentMessages s) (s\<lparr>deferredContentMessages := []\<rparr>))"

text \<open>The operations of the commit applied: whether they went through, and the state.\<close>

definition commit_diff :: "nat \<Rightarrow> diff_result \<Rightarrow> app \<Rightarrow> bool \<times> app" where
  [js_eval]: "commit_diff now diff s =
     (if df_ops diff = [] then (True, s)
      else let (d', r) = applyBatch (the_doc s) (df_ops diff);
               s1 = s\<lparr>localClock := df_clock diff, the_doc := d'\<rparr>
           in if \<not> batch_ok r then (False, requestSync now (setStatus ErrorStatus s1))
              else (True, pushUndoEntry now (df_ops diff) (s1\<lparr>pendingOps := pendingOps s1 @ df_ops diff\<rparr>)))"

definition commitComposition :: "nat \<Rightarrow> app \<Rightarrow> app" where
  [js_eval]: "commitComposition now s =
     (if \<not> compositionCommitPending s then s
      else let finalText = ed_value (content s);
               sel = captureTextSelection finalText s;
               oldText = materialize (the_doc s);
               (baseText, baseDoc) = (case compositionBaseDoc s of
                   Some d \<Rightarrow> (compositionBaseText s, d)
                 | None \<Rightarrow> (oldText, clone (the_doc s)));
               s1 = bumpClockFromDoc s;
               diff = diffToOps (codePoints baseText) (visibleIds baseDoc) (codePoints finalText)
                        (CLIENT_ID s1) (localClock s1);
               (applied, s2) = commit_diff now diff s1;
               s3 = s2\<lparr>compositionBaseText := [], compositionBaseDoc := None,
                       compositionInputPending := False, compositionCommitPending := False\<rparr>;
               s4 = (if applied then
                       (let nxt = materialize (the_doc s3);
                            s5 = scheduleCursorSend (emit RenderCursors (onLocalTextChanged oldText nxt (paint nxt sel s3)))
                        in if pendingOps s5 \<noteq> [] then scheduleFlush s5 else s5)
                     else s3)
           in flushDeferredContentMessages now s4)"

section \<open>Connection\<close>

definition stopPresenceHeartbeat :: "app \<Rightarrow> app" where
  [js_eval]: "stopPresenceHeartbeat s = s\<lparr>presenceHeartbeatTimer := False\<rparr>"

definition startPresenceHeartbeat :: "app \<Rightarrow> app" where
  [js_eval]: "startPresenceHeartbeat s =
     emit (Arm PresencePrune 5000) (emit (Arm PresenceHeartbeat 5000)
       ((stopPresenceHeartbeat s)\<lparr>presenceHeartbeatTimer := True\<rparr>))"

definition forceReconnect :: "app \<Rightarrow> app" where
  [js_eval]: "forceReconnect s =
     (case socket s of None \<Rightarrow> s | Some (n, r) \<Rightarrow> emit (CloseSocket n) (s\<lparr>socket := Some (n, Closing)\<rparr>))"

definition socketLooksDead :: "nat \<Rightarrow> app \<Rightarrow> bool" where
  [js_eval]: "socketLooksDead now s \<longleftrightarrow>
     (lastMsgAt s \<noteq> 0 \<and> 15000 < int now - int (lastMsgAt s)) \<or>
     list_ex (\<lambda>(q, b). 5000 < int now - int (sb_at b)) (sentBatches s)"

text \<open>The second argument tells whether the page is hidden.\<close>

definition heartbeat_fired :: "nat \<Rightarrow> bool \<Rightarrow> app \<Rightarrow> app" where
  [js_eval]: "heartbeat_fired now hidden s =
     (if \<not> ws_connected s then s
      else if socketLooksDead now s then forceReconnect s
      else if hidden then s
      else sendCursorPosition True s)"

text \<open>The page is shown or hidden; the argument tells whether it is visible now.\<close>

definition visibility_changed :: "bool \<Rightarrow> app \<Rightarrow> app" where
  [js_eval]: "visibility_changed shown s = (if shown \<and> ws_connected s then sendCursorPosition True s else s)"

text \<open>\<open>Math.floor(Math.random() * 400)\<close> is the argument \<open>jitter\<close>.\<close>

definition reconnect_delay :: "nat \<Rightarrow> nat \<Rightarrow> nat" where
  [js_eval]: "reconnect_delay attempts jitter = min 15000 (1000 * 2 ^ min (attempts - 1) 4) + jitter"

definition scheduleReconnect :: "nat \<Rightarrow> app \<Rightarrow> app" where
  [js_eval]: "scheduleReconnect jitter s0 =
     (let s = s0\<lparr>reconnectAttempts := reconnectAttempts s0 + 1\<rparr>;
          s1 = (if 2 \<le> reconnectAttempts s then startRestPoll s else s)
      in emit (Arm ReconnectTimer (reconnect_delay (reconnectAttempts s1) jitter)) (s1\<lparr>reconnectTimer := True\<rparr>))"

text \<open>\<open>connectWS\<close>; \<open>created\<close> is false when the constructor throws.\<close>

definition connectWS :: "bool \<Rightarrow> nat \<Rightarrow> app \<Rightarrow> app" where
  [js_eval]: "connectWS created jitter s0 =
     (let s1 = setConnected False (s0\<lparr>reconnectTimer := False, intentionalClose := False\<rparr>);
          s2 = setStatus (if initialSnapshotApplied s1 then Syncing else Pending) s1;
          s3 = (case socket s2 of None \<Rightarrow> s2 | Some (n, r) \<Rightarrow> emit (CloseSocket n) (s2\<lparr>socket := None\<rparr>))
      in if \<not> created then scheduleReconnect jitter (setStatus ErrorStatus s3)
         else emit (NewSocket (socketCount s3))
                (s3\<lparr>socket := Some (socketCount s3, Connecting), socketCount := socketCount s3 + 1\<rparr>))"

definition is_current :: "nat \<Rightarrow> app \<Rightarrow> bool" where
  [js_eval]: "is_current n s \<longleftrightarrow> (case socket s of Some (m, r) \<Rightarrow> m = n | None \<Rightarrow> False)"

definition ws_onopen :: "nat \<Rightarrow> nat \<Rightarrow> app \<Rightarrow> app" where
  [js_eval]: "ws_onopen n now s0 =
     (if \<not> is_current n s0 then s0
      else let s = stopRestPoll (s0\<lparr>socket := Some (n, Open), reconnectAttempts := 0\<rparr>);
               s1 = setIdleStatus (setConnected True (s\<lparr>lastMsgAt := now\<rparr>))
           in startPresenceHeartbeat (scheduleCursorSend s1))"

text \<open>A frame: \<open>None\<close> is one that does not parse.\<close>

definition ws_onmessage :: "nat \<Rightarrow> nat \<Rightarrow> msg option \<Rightarrow> app \<Rightarrow> app" where
  [js_eval]: "ws_onmessage n now frame s0 =
     (if \<not> is_current n s0 then s0
      else let s = emit (PulseTraffic Down) (s0\<lparr>lastMsgAt := now\<rparr>)
      in case frame of
           None \<Rightarrow> setStatus ErrorStatus s
         | Some data \<Rightarrow>
             let ty = m_type data
             in if ty = [] then s
                else if (ty = js ''state'' \<or> ty = js ''update'' \<or> ty = js ''ops'') \<and> compositionIsActive s
                     then s\<lparr>deferredContentMessages := deferredContentMessages s @ [DMsg data]\<rparr>
                else if ty = js ''state'' \<or> ty = js ''update'' then handleState now data s
                else if ty = js ''ops'' then handleRemoteOps now data s
                else if ty = js ''ack'' then handleAck data s
                else if ty = js ''files'' then emit RemoteFiles s
                else if ty = js ''cursor'' then
                  (let s1 = updateRemoteCursors data s
                   in if pendingOps s1 = [] \<and> \<not> flushTimer s1 then setIdleStatus s1 else s1)
                else s)"

definition ws_onclose :: "nat \<Rightarrow> nat \<Rightarrow> app \<Rightarrow> app" where
  [js_eval]: "ws_onclose n jitter s0 =
     (if \<not> is_current n s0 then s0
      else let s = stopPresenceHeartbeat (s0\<lparr>socket := None\<rparr>);
               s1 = emit RenderCursors (s\<lparr>sentBatches := [], remoteCursors := []\<rparr>);
               s2 = emit UpdatePeers (setConnected False s1);
               s3 = setStatus (if everConnected s2 then ErrorStatus
                               else if initialSnapshotApplied s2 then Syncing else Pending) s2
           in if intentionalClose s3 then s3 else scheduleReconnect jitter s3)"

definition beforeunload :: "app \<Rightarrow> app" where
  [js_eval]: "beforeunload s =
     (let s1 = s\<lparr>intentionalClose := True, reconnectTimer := False\<rparr>
      in case socket s1 of None \<Rightarrow> s1 | Some (n, r) \<Rightarrow> emit (CloseSocket n) (s1\<lparr>socket := Some (n, Closing)\<rparr>))"

section \<open>Start\<close>

definition initial_app :: "jsstring \<Rightarrow> app" where
  [js_eval]: "initial_app cid =
     \<lparr>CLIENT_ID = cid, CLIENT_COLOR = pickColor cid [], the_doc = newDoc, localClock = 0, knownVersion = 0,
      knownGeneration = 0, knownExists = False, pendingOps = [], sentBatches = [], nextSeq = 1,
      lastSyncedText = [], flushTimer = False, putFallbackTimer = False, putFailures = 0, putInFlight = False,
      applyingRemote = False, compositionActive = False, compositionCommitPending = False,
      compositionInputPending = False, compositionBaseText = [], compositionBaseDoc = None,
      deferredContentMessages = [], lastExpiresAt = None, firstSaveAnnounced = False, initialStateSeen = False,
      ttlInvalidNotified = False, syncRequestedAt = 0, cursorTimer = False, remoteCursors = [], socket = None,
      socketCount = 0, reconnectTimer = False, reconnectAttempts = 0, intentionalClose = False,
      ws_connected = False, everConnected = False, lastMsgAt = 0, restPollTimer = False,
      presenceHeartbeatTimer = False, undoStack = [], redoStack = [], ttlValue = js ''1'', ttlUnit = js ''3600'',
      content = \<lparr>ed_value = [], ed_start = 0, ed_end = 0, ed_dir = js ''none'', ed_readOnly = False, ed_focused = False\<rparr>,
      roomAccess = Locked, editPasswordSet = False, passwordScope = [], editPasswordJustSet = False,
      roomLockBusy = False, editPass = None, viewPass = None, initialSnapshotApplied = False,
      statusKind = Pending, out = []\<rparr>"

text \<open>
  What the script does last: connect, load the room over HTTP, and announce the caret. The browser may have kept
  passwords of the room, and the editor may hold text typed before the script ran.
\<close>

definition boot :: "nat \<Rightarrow> jsstring \<Rightarrow> jsstring option \<Rightarrow> jsstring option \<Rightarrow> jsstring \<Rightarrow> app" where
  [js_eval]: "boot jitter cid editPw viewPw typed =
     (let s = (initial_app cid)\<lparr>editPass := editPw, viewPass := viewPw, content :=
                set_value typed (content (initial_app cid))\<rparr>
      in scheduleCursorSend (load_room False (connectWS True jitter s)))"

end
