(* ===== verification/Dialogs.thy ===== *)
theory Dialogs
  imports Connection
begin

text \<open>
  The page around the editor (\<open>static/app.js\<close>): the state of its dialogs, panels and requests, and the two
  dialogs that answer with a promise, \<open>askPassword\<close> and \<open>confirmAction\<close>. What a caller does with
  the answer is the purpose kept with the dialog; settling the promise queues a job with it, which runs after
  the current event as a microtask does. Titles, hints and labels of the dialogs are not modelled; a text of the
  page is a constructor of \<open>notice\<close>.
\<close>

section \<open>Texts\<close>

datatype text_key = WrongRoomPassword | WrongAdminPassword | WrongFilePassword | NeedRoomPassword
  | NothingToArchive | Archived | ContentUnchanged | ArchiveFailed | NoHistory | HistoryCleared
  | ClearHistoryFailed | LoadHistoryFailed | RestoreFailed | Restored | SetFailed | UnlockFailed
  | FileFeatureDisabled | UploadDisabled | FileTooLarge | FileMissing | FileAccessDisabled
  | DownloadFailed | DownloadStarted | Downloading | DeleteFailed | Deleted | Deleting | FileListFailed
  | Uploading nat | UploadedFiles nat | UploadFailed | RoomUploadOn | RoomUploadOff | SwitchingUpload bool
  | EmptyPassword

text \<open>
  A translated text, the \<open>error\<close> text of an answer, \<open>"HTTP " + status\<close>, the message of a failed \<open>json()\<close>, that
  of a failed request, or the summary of an upload.
\<close>

datatype notice = Translated text_key | ServerText jsstring | HttpStatus nat | ParseFailure | NetworkFailure
  | PartialUpload nat nat "notice option"

datatype tone = OkTone | WarnTone | ErrTone

section \<open>What waits for an answer\<close>

record file_blob =
  fb_name :: jsstring
  fb_type :: jsstring

datatype hist_next = OpenPanel | CaptureNow | ClearNow

datatype save_next = SetRoomPassword jsstring | ChangeRoomPassword jsstring | RemoveRoomPassword

datatype purpose =
    PutRetry | HistoryAccess hist_next | HistoryRetry
  | SaveRetry jsstring jsstring save_next
  | NewRoomPassword | NextRoomPassword | CopyPassword | EditUnlock
  | UploadAdmin "file_blob list" | UploadPassword "file_blob list" jsstring
  | UploadAdminRetry "file_blob list" jsstring
  | ToggleUpload bool | ToggleUploadRetry bool
  | Download jsstring jsstring | DownloadRetry jsstring jsstring
  | Delete jsstring jsstring | DeleteRetry jsstring jsstring

datatype confirm_purpose = ClearTrail

datatype job = AnswerJob purpose "jsstring option" | ConfirmJob confirm_purpose bool | AccessJob hist_next

datatype password_kind = AdminKind | EditKind | FileKind

record ask_options =
  ao_kind :: password_kind
  ao_initial :: "jsstring option"
  ao_preferRemembered :: bool
  ao_generate :: bool
  ao_scope :: jsstring
  ao_fileNames :: "jsstring list"

record modal_state =
  md_purpose :: purpose
  md_options :: ask_options

section \<open>Requests\<close>

record snapshot =
  hs_at :: int
  hs_text :: jsstring
  hs_version :: nat
  hs_manual :: bool

record file_meta =
  fm_id :: jsstring
  fm_name :: jsstring
  fm_size :: nat
  fm_expiresAt :: jsstring

record upload =
  up_files :: "file_blob list"
  up_rest :: "file_blob list"
  up_admin :: jsstring
  up_password :: jsstring
  up_ttl :: nat
  up_ok :: nat
  up_fail :: nat
  up_lastErr :: "notice option"
  up_badAdmin :: bool

datatype req_kind =
    HistoryList bool | HistoryCapture | HistoryDelete
  | SavePassword jsstring jsstring jsstring save_next
  | VerifyPassword jsstring
  | UploadSetting bool bool
  | FileListing bool
  | FileUpload upload jsstring
  | FileDownload jsstring jsstring bool
  | FileDelete jsstring jsstring bool

text \<open>The three password headers of a request; \<open>None\<close> when the header is not sent.\<close>

record request =
  rq_kind :: req_kind
  rq_room :: "jsstring option"
  rq_admin :: "jsstring option"
  rq_file :: "jsstring option"

record reply =
  rp_snapshots :: "snapshot list option"
  rp_error :: jsstring
  rp_passwordScope :: jsstring
  rp_fileUploadEnabled :: "bool option"
  rp_files :: "file_meta list option"

datatype body = Unparsable | NullBody | Json reply

text \<open>A failed request, or the status, the body and the \<open>Content-Disposition\<close> header of the answer.\<close>

datatype answer = NetworkError | Answer nat body jsstring

definition ok_status :: "nat \<Rightarrow> bool" where
  [js_eval]: "ok_status st \<longleftrightarrow> 200 \<le> st \<and> st < 300"

section \<open>The page\<close>

datatype page_effect =
    PageToast notice tone
  | RenderHistory
  | RenderShareUrls
  | FilesStatus "notice option" "tone option"
  | CopyText jsstring
  | SaveFile jsstring
  | ShowFiles "file_meta list"
  | Request request

record page =
  app_of :: app
  modalState :: "modal_state option"
  passwordModalHidden :: bool
  modalPassword :: jsstring
  modalError :: "notice option"
  confirmState :: "confirm_purpose option"
  confirmModalHidden :: bool
  shareModalHidden :: bool
  historyModalHidden :: bool
  historyPreviewModalHidden :: bool
  historyPreviewIdx :: "nat option"
  historyRestoreDisabled :: bool
  historySnapshots :: "snapshot list"
  historyLoading :: bool
  roomPassModalScope :: jsstring
  fileUploadEnabled :: bool
  filesPanelHidden :: bool
  adminPass :: "jsstring option"
  filePass :: "jsstring option"
  previewVisible :: bool
  jobs :: "job list"
  requests :: "request list"
  pageOut :: "page_effect list"

definition on_app :: "(app \<Rightarrow> app) \<Rightarrow> page \<Rightarrow> page" where
  [js_eval]: "on_app f s = s\<lparr>app_of := f (app_of s)\<rparr>"

definition page_emit :: "page_effect \<Rightarrow> page \<Rightarrow> page" where
  [js_eval]: "page_emit e s = s\<lparr>pageOut := pageOut s @ [e]\<rparr>"

definition pageToast :: "notice \<Rightarrow> tone \<Rightarrow> page \<Rightarrow> page" where
  [js_eval]: "pageToast m k s = page_emit (PageToast m k) s"

definition setFilesStatus :: "notice option \<Rightarrow> tone option \<Rightarrow> page \<Rightarrow> page" where
  [js_eval]: "setFilesStatus m k s = page_emit (FilesStatus m k) s"

definition queue_job :: "job \<Rightarrow> page \<Rightarrow> page" where
  [js_eval]: "queue_job j s = s\<lparr>jobs := jobs s @ [j]\<rparr>"

definition send_request :: "request \<Rightarrow> page \<Rightarrow> page" where
  [js_eval]: "send_request r s = page_emit (Request r) (s\<lparr>requests := requests s @ [r]\<rparr>)"

text \<open>\<open>withRoomPasswordHeaders\<close>: the header it adds.\<close>

definition withRoomPasswordHeaders :: "page \<Rightarrow> jsstring option" where
  [js_eval]: "withRoomPasswordHeaders s =
     (let pw = roomPassword (app_of s) in if pw \<noteq> [] then Some pw else None)"

section \<open>Remembered passwords\<close>

definition rememberedAdminPassword :: "page \<Rightarrow> jsstring" where
  [js_eval]: "rememberedAdminPassword s = or_empty (adminPass s)"

definition rememberedFilePassword :: "page \<Rightarrow> jsstring" where
  [js_eval]: "rememberedFilePassword s = or_empty (filePass s)"

definition rememberAdminPassword :: "jsstring \<Rightarrow> page \<Rightarrow> page" where
  [js_eval]: "rememberAdminPassword p s = s\<lparr>adminPass := (if p \<noteq> [] then Some p else None)\<rparr>"

definition rememberFilePassword :: "jsstring \<Rightarrow> page \<Rightarrow> page" where
  [js_eval]: "rememberFilePassword p s = s\<lparr>filePass := (if p \<noteq> [] then Some p else None)\<rparr>"

text \<open>The password a prompt of the room asks for goes to the stores the scope uses.\<close>

definition keep_entered :: "jsstring \<Rightarrow> page \<Rightarrow> page" where
  [js_eval]: "keep_entered p s =
     on_app (\<lambda>a. let a1 = setEditPassword p a
                 in if passwordScope a1 = js ''view'' then rememberViewPassword p a1 else a1) s"

section \<open>The password dialog\<close>

definition plain_options :: "password_kind \<Rightarrow> jsstring list \<Rightarrow> ask_options" where
  [js_eval]: "plain_options k names =
     \<lparr>ao_kind = k, ao_initial = None, ao_preferRemembered = True, ao_generate = False, ao_scope = [],
      ao_fileNames = names\<rparr>"

text \<open>
  Opening settles a dialog that still waits with \<open>null\<close>. The field holds the given password, else the
  remembered one unless the options say otherwise.
\<close>

definition askPassword :: "purpose \<Rightarrow> ask_options \<Rightarrow> page \<Rightarrow> page" where
  [js_eval]: "askPassword p options s =
     (let s1 = (case modalState s of Some m \<Rightarrow> queue_job (AnswerJob (md_purpose m) None) s | None \<Rightarrow> s);
          remembered = (case ao_kind options of AdminKind \<Rightarrow> rememberedAdminPassword s1
                        | EditKind \<Rightarrow> getEditPassword (app_of s1) | FileKind \<Rightarrow> rememberedFilePassword s1);
          value = (case ao_initial options of Some v \<Rightarrow> v
                   | None \<Rightarrow> if ao_preferRemembered options then remembered else [])
      in s1\<lparr>modalState := Some \<lparr>md_purpose = p, md_options = options\<rparr>, modalError := None,
            modalPassword := value, passwordModalHidden := False\<rparr>)"

definition askEditPassword :: "purpose \<Rightarrow> page \<Rightarrow> page" where
  [js_eval]: "askEditPassword p s = askPassword p (plain_options EditKind []) s"

definition submitPasswordModal :: "page \<Rightarrow> page" where
  [js_eval]: "submitPasswordModal s =
     (case modalState s of
        None \<Rightarrow> s
      | Some m \<Rightarrow>
          if modalPassword s = [] then s\<lparr>modalError := Some (Translated EmptyPassword)\<rparr>
          else queue_job (AnswerJob (md_purpose m) (Some (modalPassword s)))
                 (s\<lparr>modalError := None, modalState := None, passwordModalHidden := True\<rparr>))"

definition closePasswordModal :: "jsstring option \<Rightarrow> page \<Rightarrow> page" where
  [js_eval]: "closePasswordModal v s =
     (case modalState s of
        None \<Rightarrow> s\<lparr>passwordModalHidden := True\<rparr>
      | Some m \<Rightarrow> queue_job (AnswerJob (md_purpose m) v) (s\<lparr>modalState := None, passwordModalHidden := True\<rparr>))"

text \<open>The radios of the scope; only the two dialogs of the room password listen to them.\<close>

definition scope_changed :: "jsstring \<Rightarrow> page \<Rightarrow> page" where
  [js_eval]: "scope_changed v s =
     (case modalState s of
        Some m \<Rightarrow> if md_purpose m = NewRoomPassword \<or> md_purpose m = NextRoomPassword
                  then s\<lparr>roomPassModalScope := v\<rparr> else s
      | None \<Rightarrow> s)"

section \<open>The confirmation dialog\<close>

definition confirmAction :: "confirm_purpose \<Rightarrow> page \<Rightarrow> page" where
  [js_eval]: "confirmAction p s =
     (let s1 = (case confirmState s of Some q \<Rightarrow> queue_job (ConfirmJob q False) s | None \<Rightarrow> s)
      in s1\<lparr>confirmState := Some p, confirmModalHidden := False\<rparr>)"

definition closeConfirm :: "bool \<Rightarrow> page \<Rightarrow> page" where
  [js_eval]: "closeConfirm v s =
     (case confirmState s of
        None \<Rightarrow> s\<lparr>confirmModalHidden := True\<rparr>
      | Some q \<Rightarrow> queue_job (ConfirmJob q v) (s\<lparr>confirmState := None, confirmModalHidden := True\<rparr>))"

end
