(* ===== verification/History.thy ===== *)
theory History
  imports Dialogs
begin

text \<open>
  The version history (\<open>static/app.js\<close>, \<open>fetchHistory\<close> to \<open>restoreSnapshot\<close>): the list of snapshots the
  server keeps, fetched, extended and cleared with the room password, shown with a preview, and restored as
  an ordinary edit. A definition ending in \<open>_done\<close> is the continuation of the request.
\<close>

section \<open>The list\<close>

datatype history_panel = LoadingRow | EmptyRow | Rows "(nat \<times> bool \<times> jsstring \<times> bool \<times> nat \<times> bool) list"

text \<open>
  \<open>renderHistory\<close>: newest first, each with its index, whether it is the current text, the first eighty units and
  whether more follow, its version and whether it was made by hand.
\<close>

definition history_row :: "jsstring \<Rightarrow> nat \<Rightarrow> snapshot \<Rightarrow> nat \<times> bool \<times> jsstring \<times> bool \<times> nat \<times> bool" where
  [js_eval]: "history_row current i sn =
     (i, hs_text sn = current, js_slice (hs_text sn) 0 80, 80 < length (hs_text sn), hs_version sn, hs_manual sn)"

definition history_view :: "page \<Rightarrow> history_panel" where
  [js_eval]: "history_view s =
     (if historySnapshots s = [] then (if historyLoading s then LoadingRow else EmptyRow)
      else Rows (rev (map (\<lambda>(i, sn). history_row (materialize (the_doc (app_of s))) i sn)
                   (enumerate 0 (historySnapshots s)))))"

definition show_history :: "page \<Rightarrow> page" where
  [js_eval]: "show_history s = (if historyModalHidden s then s else page_emit RenderHistory s)"

definition applyHistoryPayload :: "reply \<Rightarrow> page \<Rightarrow> page" where
  [js_eval]: "applyHistoryPayload data s =
     s\<lparr>historySnapshots := (case rp_snapshots data of Some l \<Rightarrow> l | None \<Rightarrow> [])\<rparr>"

section \<open>Preview\<close>

definition openHistoryPreview :: "nat \<Rightarrow> page \<Rightarrow> page" where
  [js_eval]: "openHistoryPreview idx s =
     (if length (historySnapshots s) \<le> idx then s
      else s\<lparr>historyPreviewIdx := Some idx, historyPreviewModalHidden := False,
             historyRestoreDisabled := hs_text (historySnapshots s ! idx) = materialize (the_doc (app_of s))\<rparr>)"

definition closeHistoryPreview :: "page \<Rightarrow> page" where
  [js_eval]: "closeHistoryPreview s = s\<lparr>historyPreviewIdx := None, historyPreviewModalHidden := True\<rparr>"

definition closeHistory :: "page \<Rightarrow> page" where
  [js_eval]: "closeHistory s = (closeHistoryPreview s)\<lparr>historyModalHidden := True\<rparr>"

section \<open>Requests\<close>

definition history_request :: "req_kind \<Rightarrow> page \<Rightarrow> page" where
  [js_eval]: "history_request k s =
     send_request \<lparr>rq_kind = k, rq_room = withRoomPasswordHeaders s, rq_admin = None, rq_file = None\<rparr> s"

definition fetchHistory :: "bool \<Rightarrow> page \<Rightarrow> page" where
  [js_eval]: "fetchHistory retried s =
     history_request (HistoryList retried) (show_history (s\<lparr>historyLoading := True\<rparr>))"

text \<open>What follows \<open>ensureHistoryPassword\<close> in its three callers.\<close>

definition history_next :: "hist_next \<Rightarrow> bool \<Rightarrow> page \<Rightarrow> page" where
  [js_eval]: "history_next k ok s =
     (case k of
        OpenPanel \<Rightarrow>
          if ok then fetchHistory False s
          else pageToast (Translated NeedRoomPassword) ErrTone (s\<lparr>historyModalHidden := True\<rparr>)
      | CaptureNow \<Rightarrow> if ok then history_request HistoryCapture s else s
      | ClearNow \<Rightarrow> if ok then history_request HistoryDelete s else s)"

definition ensureHistoryPassword :: "hist_next \<Rightarrow> page \<Rightarrow> page" where
  [js_eval]: "ensureHistoryPassword k s =
     (if \<not> editPasswordSet (app_of s) \<or> roomPassword (app_of s) \<noteq> [] then queue_job (AccessJob k) s
      else askEditPassword (HistoryAccess k) s)"

definition history_access_entered :: "hist_next \<Rightarrow> jsstring option \<Rightarrow> page \<Rightarrow> page" where
  [js_eval]: "history_access_entered k v s =
     (if or_empty v = [] then history_next k False s else history_next k True (keep_entered (or_empty v) s))"

definition history_failed :: "page \<Rightarrow> page" where
  [js_eval]: "history_failed s =
     (let s1 = s\<lparr>historyLoading := False\<rparr>
      in if historyModalHidden s1 then s1
         else pageToast (Translated LoadHistoryFailed) ErrTone (page_emit RenderHistory s1))"

definition fetchHistory_done :: "bool \<Rightarrow> answer \<Rightarrow> page \<Rightarrow> page" where
  [js_eval]: "fetchHistory_done retried ans s =
     (case ans of
        NetworkError \<Rightarrow> history_failed s
      | Answer st bd _ \<Rightarrow>
          if (st = 401 \<or> st = 403) \<and> \<not> retried then askEditPassword HistoryRetry s
          else if st = 401 \<or> st = 403 then
            pageToast (Translated WrongRoomPassword) ErrTone (show_history (s\<lparr>historyLoading := False\<rparr>))
          else if \<not> ok_status st then history_failed s
          else case bd of
                 Unparsable \<Rightarrow> history_failed s
               | NullBody \<Rightarrow> s
               | Json data \<Rightarrow>
                   show_history ((if rp_snapshots data \<noteq> None then applyHistoryPayload data s else s)
                     \<lparr>historyLoading := False\<rparr>))"

definition history_retry_entered :: "jsstring option \<Rightarrow> page \<Rightarrow> page" where
  [js_eval]: "history_retry_entered v s =
     (if or_empty v = []
      then show_history (pageToast (Translated NeedRoomPassword) ErrTone (s\<lparr>historyLoading := False\<rparr>))
      else fetchHistory True (keep_entered (or_empty v) s))"

definition captureHistoryManual :: "page \<Rightarrow> page" where
  [js_eval]: "captureHistoryManual s0 =
     (case blockWhenReadOnly (app_of s0) of
        (True, a) \<Rightarrow> s0\<lparr>app_of := a\<rparr>
      | (False, a) \<Rightarrow>
          let s = s0\<lparr>app_of := a\<rparr>
          in if materialize (the_doc (app_of s)) = [] then pageToast (Translated NothingToArchive) ErrTone s
             else ensureHistoryPassword CaptureNow s)"

definition capture_done :: "answer \<Rightarrow> page \<Rightarrow> page" where
  [js_eval]: "capture_done ans s =
     (case ans of
        NetworkError \<Rightarrow> pageToast (Translated ArchiveFailed) ErrTone s
      | Answer st bd _ \<Rightarrow>
          if st = 404 then pageToast (Translated NothingToArchive) ErrTone s
          else if st = 403 \<or> st = 401 then pageToast (Translated NeedRoomPassword) ErrTone s
          else if \<not> ok_status st then pageToast (Translated ArchiveFailed) ErrTone s
          else case bd of
                 Unparsable \<Rightarrow> pageToast (Translated ArchiveFailed) ErrTone s
               | NullBody \<Rightarrow> s
               | Json data \<Rightarrow>
                   let added = (case rp_snapshots data of
                                  Some l \<Rightarrow> length (historySnapshots s) < length l | None \<Rightarrow> False)
                   in pageToast (Translated (if added then Archived else ContentUnchanged)) OkTone
                        (show_history (applyHistoryPayload data s)))"

definition clearHistoryTrail :: "page \<Rightarrow> page" where
  [js_eval]: "clearHistoryTrail s =
     (if historySnapshots s = [] then pageToast (Translated NoHistory) ErrTone s else confirmAction ClearTrail s)"

definition doClearHistory :: "page \<Rightarrow> page" where
  [js_eval]: "doClearHistory s = ensureHistoryPassword ClearNow s"

definition clear_done :: "answer \<Rightarrow> page \<Rightarrow> page" where
  [js_eval]: "clear_done ans s =
     (case ans of
        NetworkError \<Rightarrow> pageToast (Translated ClearHistoryFailed) ErrTone s
      | Answer st bd _ \<Rightarrow>
          if st = 403 \<or> st = 401 then pageToast (Translated NeedRoomPassword) ErrTone s
          else if \<not> ok_status st then pageToast (Translated ClearHistoryFailed) ErrTone s
          else case bd of
                 Unparsable \<Rightarrow> pageToast (Translated ClearHistoryFailed) ErrTone s
               | NullBody \<Rightarrow> s
               | Json data \<Rightarrow>
                   pageToast (Translated HistoryCleared) OkTone
                     (show_history (closeHistoryPreview (applyHistoryPayload data s))))"

definition openHistory :: "page \<Rightarrow> page" where
  [js_eval]: "openHistory s = ensureHistoryPassword OpenPanel (s\<lparr>historyModalHidden := False\<rparr>)"

section \<open>Restoring\<close>

text \<open>The text is compared and diffed with the document, so a restore is an edit like any other.\<close>

definition restoreSnapshot :: "nat \<Rightarrow> nat \<Rightarrow> page \<Rightarrow> page" where
  [js_eval]: "restoreSnapshot now idx s0 =
     (case blockWhenReadOnly (app_of s0) of
        (True, a) \<Rightarrow> s0\<lparr>app_of := a\<rparr>
      | (False, a) \<Rightarrow>
          if length (historySnapshots s0) \<le> idx then s0
          else let sn = historySnapshots s0 ! idx;
                   oldText = materialize (the_doc a)
               in if hs_text sn = oldText then s0
                  else let a1 = applyLocalText now (hs_text sn) a;
                           newText = materialize (the_doc a1)
                       in if newText = oldText
                          then pageToast (Translated RestoreFailed) ErrTone
                                 (setFilesStatus (Some (Translated RestoreFailed)) (Some ErrTone) (s0\<lparr>app_of := a1\<rparr>))
                          else let a2 = paint newText (captureSelection a1) a1;
                                   a3 = updateUndoButtons (scheduleCursorSend (emit RenderCursors
                                          (onLocalTextChanged oldText newText a2)))
                               in closeHistory (pageToast (Translated Restored) OkTone
                                    (setFilesStatus (Some (Translated Restored)) (Some OkTone) (s0\<lparr>app_of := a3\<rparr>))))"

text \<open>The restore button of the preview.\<close>

definition preview_restore :: "nat \<Rightarrow> page \<Rightarrow> page" where
  [js_eval]: "preview_restore now s =
     (case historyPreviewIdx s of
        None \<Rightarrow> s
      | Some idx \<Rightarrow>
          case blockWhenReadOnly (app_of s) of
            (True, a) \<Rightarrow> s\<lparr>app_of := a\<rparr>
          | (False, a) \<Rightarrow> restoreSnapshot now idx (closeHistoryPreview s))"

end
