(* ===== verification/Passwords.thy ===== *)
theory Passwords
  imports Dialogs
begin

text \<open>
  The room password (\<open>static/app.js\<close>): generating one, saving, changing and removing it on the server, and
  showing it. The generator draws 32-bit numbers and rejects those that would make some characters more
  likely; the draws are an argument, and \<open>None\<close> is a generator that has not found enough of them.
\<close>

section \<open>Generating\<close>

definition password_chars :: jsstring where
  [js_eval]: "password_chars = js ''ABCDEFGHJKLMNPQRSTUVWXYZabcdefghijkmnpqrstuvwxyz23456789''"

definition maxUnbiased :: nat where
  [js_eval]: "maxUnbiased = 0x100000000 div length password_chars * length password_chars"

text \<open>The inner loop: draws until one is below the bound.\<close>

fun draw_unbiased :: "32 word list \<Rightarrow> (nat \<times> 32 word list) option" where
  "draw_unbiased [] = None"
| "draw_unbiased (x # xs) = (if maxUnbiased \<le> unat x then draw_unbiased xs else Some (unat x, xs))"

fun password_loop :: "nat \<Rightarrow> 32 word list \<Rightarrow> jsstring option" where
  "password_loop 0 ds = Some []"
| "password_loop (Suc k) ds =
     (case draw_unbiased ds of
        None \<Rightarrow> None
      | Some (x, ds') \<Rightarrow>
          (case password_loop k ds' of
             None \<Rightarrow> None
           | Some rest \<Rightarrow> Some (password_chars ! (x mod length password_chars) # rest)))"

definition generateEditPassword :: "32 word list \<Rightarrow> jsstring option" where
  [js_eval]: "generateEditPassword ds = password_loop 12 ds"

section \<open>Saving\<close>

definition putEditPassword :: "jsstring \<Rightarrow> jsstring \<Rightarrow> jsstring \<Rightarrow> save_next \<Rightarrow> page \<Rightarrow> page" where
  [js_eval]: "putEditPassword nxt cur scope k s =
     send_request \<lparr>rq_kind = SavePassword nxt cur scope k, rq_room = None, rq_admin = None, rq_file = None\<rparr> s"

text \<open>\<open>current || getEditPassword()\<close> for the first attempt.\<close>

definition saveEditPassword :: "jsstring \<Rightarrow> jsstring \<Rightarrow> jsstring \<Rightarrow> save_next \<Rightarrow> page \<Rightarrow> page" where
  [js_eval]: "saveEditPassword nxt cur scope k s =
     putEditPassword nxt (if cur \<noteq> [] then cur else getEditPassword (app_of s)) scope k s"

text \<open>What the three callers do with the outcome.\<close>

definition password_saved :: "save_next \<Rightarrow> bool \<Rightarrow> page \<Rightarrow> page" where
  [js_eval]: "password_saved k ok s =
     (case k of
        SetRoomPassword pw \<Rightarrow>
          if ok then
            page_emit RenderShareUrls (on_app (\<lambda>a.
              let a1 = a\<lparr>editPasswordSet := True, passwordScope := roomPassModalScope s\<rparr>;
                  a2 = rememberRoomPassword pw (passwordScope a1) a1
              in if passwordScope a2 = js ''view'' then sendAuth pw a2 else a2) s)
          else pageToast (Translated SetFailed) ErrTone (on_app (\<lambda>a. a\<lparr>editPasswordJustSet := False\<rparr>) s)
      | ChangeRoomPassword pw \<Rightarrow>
          if ok then
            page_emit RenderShareUrls (on_app (\<lambda>a.
              let a1 = a\<lparr>passwordScope := roomPassModalScope s\<rparr>;
                  a2 = rememberRoomPassword pw (passwordScope a1) a1
              in if passwordScope a2 = js ''view'' then sendAuth pw a2 else a2) s)
          else pageToast (Translated SetFailed) ErrTone s
      | RemoveRoomPassword \<Rightarrow>
          if ok then
            page_emit RenderShareUrls (on_app (\<lambda>a.
              (rememberViewPassword [] (setEditPassword [] a))\<lparr>editPasswordSet := False, passwordScope := []\<rparr>) s)
          else pageToast (Translated UnlockFailed) ErrTone s)"

definition putEditPassword_done :: "jsstring \<Rightarrow> jsstring \<Rightarrow> save_next \<Rightarrow> answer \<Rightarrow> page \<Rightarrow> page" where
  [js_eval]: "putEditPassword_done nxt scope k ans s =
     (case ans of
        NetworkError \<Rightarrow> password_saved k False s
      | Answer st _ _ \<Rightarrow>
          if st = 403 then askEditPassword (SaveRetry nxt scope k) (pageToast (Translated WrongRoomPassword) ErrTone s)
          else password_saved k (ok_status st) s)"

definition save_retry_entered :: "jsstring \<Rightarrow> jsstring \<Rightarrow> save_next \<Rightarrow> jsstring option \<Rightarrow> page \<Rightarrow> page" where
  [js_eval]: "save_retry_entered nxt scope k v s =
     (if or_empty v = [] then password_saved k False s else putEditPassword nxt (or_empty v) scope k s)"

section \<open>The dialogs\<close>

definition room_password_options :: "jsstring \<Rightarrow> page \<Rightarrow> ask_options" where
  [js_eval]: "room_password_options fresh s =
     \<lparr>ao_kind = EditKind, ao_initial = Some fresh, ao_preferRemembered = False, ao_generate = True,
      ao_scope = roomPassModalScope s, ao_fileNames = []\<rparr>"

definition pick_scope :: "page \<Rightarrow> page" where
  [js_eval]: "pick_scope s =
     s\<lparr>roomPassModalScope := (if passwordScope (app_of s) \<noteq> [] then passwordScope (app_of s) else js ''edit'')\<rparr>"

text \<open>\<open>fresh\<close> is the generated password.\<close>

definition setRoomPassword :: "jsstring \<Rightarrow> page \<Rightarrow> page" where
  [js_eval]: "setRoomPassword fresh s =
     (let s1 = pick_scope s in askPassword NewRoomPassword (room_password_options fresh s1) s1)"

definition new_password_entered :: "jsstring option \<Rightarrow> page \<Rightarrow> page" where
  [js_eval]: "new_password_entered v s =
     (if or_empty v = [] then s
      else let s1 = on_app (\<lambda>a. a\<lparr>editPasswordJustSet := True\<rparr>) s
           in saveEditPassword (or_empty v) [] (roomPassModalScope s1) (SetRoomPassword (or_empty v)) s1)"

definition changeRoomPassword :: "jsstring \<Rightarrow> page \<Rightarrow> page" where
  [js_eval]: "changeRoomPassword fresh s =
     (let s1 = pick_scope s in askPassword NextRoomPassword (room_password_options fresh s1) s1)"

definition next_password_entered :: "jsstring option \<Rightarrow> page \<Rightarrow> page" where
  [js_eval]: "next_password_entered v s =
     (if or_empty v = [] then s
      else saveEditPassword (or_empty v) (getEditPassword (app_of s)) (roomPassModalScope s)
             (ChangeRoomPassword (or_empty v)) s)"

definition unlockRoom :: "page \<Rightarrow> page" where
  [js_eval]: "unlockRoom s = saveEditPassword [] (getEditPassword (app_of s)) [] RemoveRoomPassword s"

text \<open>The regenerate button of the dialog.\<close>

definition regenerate_clicked :: "jsstring \<Rightarrow> page \<Rightarrow> page" where
  [js_eval]: "regenerate_clicked fresh s = s\<lparr>modalPassword := fresh\<rparr>"

definition promptEditUnlock :: "page \<Rightarrow> page" where
  [js_eval]: "promptEditUnlock s =
     askPassword EditUnlock ((plain_options EditKind [])\<lparr>ao_preferRemembered := False\<rparr>) s"

definition edit_unlock_entered :: "jsstring option \<Rightarrow> page \<Rightarrow> page" where
  [js_eval]: "edit_unlock_entered v s = (if or_empty v = [] then s else on_app (unlockWithPassword (or_empty v)) s)"

section \<open>The share dialog\<close>

definition guarded :: "(page \<Rightarrow> page) \<Rightarrow> page \<Rightarrow> page" where
  [js_eval]: "guarded f s =
     (case blockWhenReadOnly (app_of s) of (True, a) \<Rightarrow> s\<lparr>app_of := a\<rparr> | (False, a) \<Rightarrow> f s)"

definition share_copy_clicked :: "jsstring \<Rightarrow> page \<Rightarrow> page" where
  [js_eval]: "share_copy_clicked fresh = guarded (\<lambda>s.
     if \<not> editPasswordSet (app_of s) then setRoomPassword fresh s
     else if roomPassword (app_of s) \<noteq> [] then page_emit (CopyText (roomPassword (app_of s))) s
     else askEditPassword CopyPassword s)"

definition copy_password_entered :: "jsstring option \<Rightarrow> page \<Rightarrow> page" where
  [js_eval]: "copy_password_entered v s =
     (if or_empty v = [] then s
      else send_request \<lparr>rq_kind = VerifyPassword (or_empty v), rq_room = Some (or_empty v), rq_admin = None,
                         rq_file = None\<rparr> s)"

definition verify_done :: "jsstring \<Rightarrow> answer \<Rightarrow> page \<Rightarrow> page" where
  [js_eval]: "verify_done pw ans s =
     (case ans of
        NetworkError \<Rightarrow> pageToast (Translated WrongRoomPassword) ErrTone s
      | Answer st _ _ \<Rightarrow>
          if \<not> ok_status st then pageToast (Translated WrongRoomPassword) ErrTone s
          else page_emit (CopyText pw) (page_emit RenderShareUrls (keep_entered pw s)))"

definition share_reset_clicked :: "jsstring \<Rightarrow> page \<Rightarrow> page" where
  [js_eval]: "share_reset_clicked fresh =
     guarded (\<lambda>s. if editPasswordSet (app_of s) then changeRoomPassword fresh s else s)"

definition share_unlock_clicked :: "page \<Rightarrow> page" where
  [js_eval]: "share_unlock_clicked = guarded (\<lambda>s. if editPasswordSet (app_of s) then unlockRoom s else s)"

definition openShare :: "page \<Rightarrow> page" where
  [js_eval]: "openShare s = (page_emit RenderShareUrls s)\<lparr>shareModalHidden := False\<rparr>"

definition closeShare :: "page \<Rightarrow> page" where
  [js_eval]: "closeShare s = s\<lparr>shareModalHidden := True\<rparr>"

end
