(* ===== verification/Uri.thy ===== *)
theory Uri
  imports JsNumber
begin

text \<open>
  \<open>encodeURIComponent\<close> and \<open>decodeURIComponent\<close> over UTF-16 strings, which the client uses for the room's
  key, its addresses (\<open>static/app.js\<close>, the first lines, \<open>connectWS\<close>, \<open>downloadFile\<close>, \<open>deleteFile\<close>)
  and the name of a downloaded file. \<open>None\<close> is the \<open>URIError\<close> they throw. Decoding inverts encoding.
\<close>

section \<open>UTF-8\<close>

definition utf8 :: "nat \<Rightarrow> nat list" where
  [js_eval]: "utf8 c =
     (if c < 0x80 then [c]
      else if c < 0x800 then [0xC0 + c div 0x40, 0x80 + c mod 0x40]
      else if c < 0x10000 then [0xE0 + c div 0x1000, 0x80 + c div 0x40 mod 0x40, 0x80 + c mod 0x40]
      else [0xF0 + c div 0x40000, 0x80 + c div 0x1000 mod 0x40, 0x80 + c div 0x40 mod 0x40, 0x80 + c mod 0x40])"

text \<open>The code units of a code point.\<close>

definition utf16 :: "nat \<Rightarrow> jsstring" where
  [js_eval]: "utf16 c =
     (if c < 0x10000 then [of_nat c]
      else [of_nat (0xD800 + (c - 0x10000) div 0x400), of_nat (0xDC00 + (c - 0x10000) mod 0x400)])"

section \<open>Encoding\<close>

definition unreserved :: "codeunit \<Rightarrow> bool" where
  [js_eval]: "unreserved u \<longleftrightarrow>
     65 \<le> u \<and> u \<le> 90 \<or> 97 \<le> u \<and> u \<le> 122 \<or> 48 \<le> u \<and> u \<le> 57 \<or> u \<in> set (js ''-_.!~*()'' @ [39])"

definition upper_hex :: "nat \<Rightarrow> codeunit" where
  [js_eval]: "upper_hex d = (if d < 10 then of_nat (48 + d) else of_nat (55 + d))"

definition percent :: "nat \<Rightarrow> jsstring" where
  [js_eval]: "percent b = [37, upper_hex (b div 16), upper_hex (b mod 16)]"

definition percent_cp :: "nat \<Rightarrow> jsstring" where
  [js_eval]: "percent_cp c = concat (map percent (utf8 c))"

definition pair_cp :: "codeunit \<Rightarrow> codeunit \<Rightarrow> nat" where
  [js_eval]: "pair_cp u v = (unat u - 0xD800) * 0x400 + (unat v - 0xDC00) + 0x10000"

fun encodeURIComponent :: "jsstring \<Rightarrow> jsstring option" where
  "encodeURIComponent [] = Some []"
| "encodeURIComponent [u] =
     (if unreserved u then Some [u] else if is_high u \<or> is_low u then None else Some (percent_cp (unat u)))"
| "encodeURIComponent (u # v # us) =
     (if unreserved u then map_option (Cons u) (encodeURIComponent (v # us))
      else if is_low u then None
      else if is_high u then
        (if is_low v then map_option ((@) (percent_cp (pair_cp u v))) (encodeURIComponent us) else None)
      else map_option ((@) (percent_cp (unat u))) (encodeURIComponent (v # us)))"

section \<open>Decoding\<close>

text \<open>The byte of a percent triple and what follows it.\<close>

definition percent_byte :: "jsstring \<Rightarrow> (nat \<times> jsstring) option" where
  [js_eval]: "percent_byte s =
     (case s of
        p # a # b # rest \<Rightarrow>
          (if p \<noteq> 37 then None
           else case (radix_digit 16 a, radix_digit 16 b) of
                  (Some x, Some y) \<Rightarrow> Some (16 * x + y, rest)
                | _ \<Rightarrow> None)
      | _ \<Rightarrow> None)"

text \<open>The continuation bytes of a sequence, six bits each, added to the leading bits.\<close>

fun continuation :: "nat \<Rightarrow> nat \<Rightarrow> jsstring \<Rightarrow> (nat \<times> jsstring) option" where
  "continuation 0 v s = Some (v, s)"
| "continuation (Suc k) v s =
     (case percent_byte s of
        None \<Rightarrow> None
      | Some (b, rest) \<Rightarrow> if 0x80 \<le> b \<and> b < 0xC0 then continuation k (v * 0x40 + (b - 0x80)) rest else None)"

text \<open>One decoded sequence: its code units and what follows. Overlong forms and surrogates are errors.\<close>

definition decode_sequence :: "jsstring \<Rightarrow> (jsstring \<times> jsstring) option" where
  [js_eval]: "decode_sequence s =
     (case percent_byte s of
        None \<Rightarrow> None
      | Some (b, rest) \<Rightarrow>
          if b < 0x80 then Some ([of_nat b], rest)
          else case (if 0xC0 \<le> b \<and> b < 0xE0 then continuation 1 (b - 0xC0) rest
                     else if 0xE0 \<le> b \<and> b < 0xF0 then continuation 2 (b - 0xE0) rest
                     else if 0xF0 \<le> b \<and> b < 0xF8 then continuation 3 (b - 0xF0) rest
                     else None) of
                 None \<Rightarrow> None
               | Some (c, rest') \<Rightarrow>
                   if (if b < 0xE0 then 0x80 \<le> c else if b < 0xF0 then 0x800 \<le> c \<and> \<not> (0xD800 \<le> c \<and> c < 0xE000)
                       else 0x10000 \<le> c \<and> c < 0x110000)
                   then Some (utf16 c, rest') else None)"

lemma percent_byte_shorter: "percent_byte s = Some (b, rest) \<Longrightarrow> length rest < length s"
  by (auto simp: percent_byte_def split: list.splits option.splits if_splits)

lemma continuation_shorter: "continuation k v s = Some (c, rest) \<Longrightarrow> length rest \<le> length s"
proof (induction k v s rule: continuation.induct)
  case (2 k v s)
  then show ?case by (fastforce split: option.splits if_splits dest!: percent_byte_shorter)
qed simp

lemma decode_sequence_shorter: "decode_sequence s = Some (cs, rest) \<Longrightarrow> length rest < length s"
  by (auto simp: decode_sequence_def split: option.splits if_splits
      dest!: percent_byte_shorter continuation_shorter)

function decodeURIComponent :: "jsstring \<Rightarrow> jsstring option" where
  "decodeURIComponent [] = Some []"
| "decodeURIComponent (u # us) =
     (if u \<noteq> 37 then map_option (Cons u) (decodeURIComponent us)
      else case decode_sequence (u # us) of
             None \<Rightarrow> None
           | Some (cs, rest) \<Rightarrow> map_option ((@) cs) (decodeURIComponent rest))"
  by pat_completeness auto
termination
  by (relation "measure length") (auto dest: decode_sequence_shorter)

section \<open>Round trip\<close>

lemma upper_hex_digit: "d < 16 \<Longrightarrow> radix_digit 16 (upper_hex d) = Some d"
proof -
  assume "d < 16"
  then have "d \<in> set [0..<16]" by simp
  moreover have "list_all (\<lambda>d. radix_digit 16 (upper_hex d) = Some d) [0..<16]"
    by (simp add: upt_rec upper_hex_def radix_digit_def Let_def)
  ultimately show ?thesis by (simp add: list_all_iff)
qed

lemma percent_byte_percent: "b < 256 \<Longrightarrow> percent_byte (percent b @ s) = Some (b, s)"
  by (simp add: percent_byte_def percent_def upper_hex_digit)

lemma continuation_percent:
  "x < 0x40 \<Longrightarrow> continuation (Suc k) v (percent (0x80 + x) @ s) = continuation k (v * 0x40 + x) s"
  by (simp add: percent_byte_percent)

text \<open>The leading bits of a number and its last six.\<close>

lemma low_six: "(c::nat) div 0x40 * 0x40 + c mod 0x40 = c"
  by simp

lemma mid_six: "(c::nat) div 0x1000 * 0x40 + c div 0x40 mod 0x40 = c div 0x40"
  using low_six [of "c div 0x40"] by (simp add: div_mult2_eq [symmetric])

lemma high_six: "(c::nat) div 0x40000 * 0x40 + c div 0x1000 mod 0x40 = c div 0x1000"
  using low_six [of "c div 0x1000"] by (simp add: div_mult2_eq [symmetric])

lemma decode_utf8:
  assumes "c < 0x110000" "\<not> (0xD800 \<le> c \<and> c < 0xE000)"
  shows "decode_sequence (percent_cp c @ s) = Some (utf16 c, s)"
proof -
  have m: "x mod 0x40 < 0x40" for x :: nat by simp
  consider "c < 0x80" | "0x80 \<le> c" "c < 0x800" | "0x800 \<le> c" "c < 0x10000" | "0x10000 \<le> c" by linarith
  then show ?thesis
  proof cases
    case 1
    then show ?thesis by (simp add: decode_sequence_def percent_cp_def utf8_def percent_byte_percent utf16_def)
  next
    case 2
    have q: "c div 0x40 < 0x20" using 2 by (simp add: less_mult_imp_div_less)
    have "continuation 1 (c div 0x40) (percent (0x80 + c mod 0x40) @ s) = Some (c, s)"
      using m [of c] low_six [of c] by (simp add: percent_byte_percent)
    then show ?thesis using 2 q
      by (simp add: decode_sequence_def percent_cp_def utf8_def percent_byte_percent)
  next
    case 3
    have q: "c div 0x1000 < 0x10" using 3 by (simp add: less_mult_imp_div_less)
    have "continuation 2 (c div 0x1000) (percent (0x80 + c div 0x40 mod 0x40) @ percent (0x80 + c mod 0x40) @ s) =
        Some (c, s)"
      using m [of c] m [of "c div 0x40"] low_six [of c] mid_six [of c]
      by (simp add: numeral_2_eq_2 percent_byte_percent)
    then show ?thesis using 3 q assms(2)
      by (simp add: decode_sequence_def percent_cp_def utf8_def percent_byte_percent)
  next
    case 4
    have q: "c div 0x40000 < 8" using assms(1) by (simp add: less_mult_imp_div_less)
    have "continuation 3 (c div 0x40000) (percent (0x80 + c div 0x1000 mod 0x40) @
        percent (0x80 + c div 0x40 mod 0x40) @ percent (0x80 + c mod 0x40) @ s) = Some (c, s)"
      using low_six [of c] mid_six [of c] high_six [of c]
      by (simp add: numeral_3_eq_3 continuation_percent del: continuation.simps(2))
    then show ?thesis using 4 q assms(1)
      by (simp add: decode_sequence_def percent_cp_def utf8_def percent_byte_percent)
  qed
qed

lemma decode_percent_cp:
  assumes "c < 0x110000" "\<not> (0xD800 \<le> c \<and> c < 0xE000)"
  shows "decodeURIComponent (percent_cp c @ s) = map_option ((@) (utf16 c)) (decodeURIComponent s)"
proof -
  obtain r where r: "percent_cp c @ s = 37 # r"
    by (cases "utf8 c") (auto simp: percent_cp_def percent_def utf8_def split: if_splits)
  show ?thesis using decode_utf8 [OF assms, of s] by (simp add: r)
qed

lemma unit_cp:
  assumes "\<not> is_high u" "\<not> is_low u"
  shows "unat u < 0x110000" "\<not> (0xD800 \<le> unat u \<and> unat u < 0xE000)" "utf16 (unat u) = [u]"
proof -
  show "unat u < 0x110000" using unsigned_less [of u, where ?'a = nat] by simp
  show "\<not> (0xD800 \<le> unat u \<and> unat u < 0xE000)"
    using assms by (auto simp: is_high_def is_low_def word_le_nat_alt)
  show "utf16 (unat u) = [u]" using unsigned_less [of u, where ?'a = nat] by (simp add: utf16_def)
qed

lemma pair_cp_units:
  assumes "is_high u" "is_low v"
  shows "pair_cp u v < 0x110000" "0x10000 \<le> pair_cp u v" "utf16 (pair_cp u v) = [u, v]"
proof -
  have b: "0xD800 \<le> unat u" "unat u \<le> 0xDBFF" "0xDC00 \<le> unat v" "unat v \<le> 0xDFFF"
    using assms by (auto simp: is_high_def is_low_def word_le_nat_alt)
  define x y where "x = unat u - 0xD800" and "y = unat v - 0xDC00"
  have xy: "x < 0x400" "y < 0x400" "unat u = 0xD800 + x" "unat v = 0xDC00 + y" using b by (auto simp: x_def y_def)
  have c: "pair_cp u v = 0x10000 + (x * 0x400 + y)" by (simp add: pair_cp_def x_def y_def)
  show "pair_cp u v < 0x110000" "0x10000 \<le> pair_cp u v" using xy by (simp_all add: c)
  have "(x * 0x400 + y) div 0x400 = x" "(x * 0x400 + y) mod 0x400 = y" using xy(2) by simp_all
  then have "utf16 (pair_cp u v) = [of_nat (unat u), of_nat (unat v)]"
    unfolding xy(3,4) by (simp add: utf16_def c)
  then show "utf16 (pair_cp u v) = [u, v]" by simp
qed

lemma unreserved_not_percent: "unreserved u \<Longrightarrow> u \<noteq> 37"
  by (auto simp: unreserved_def js_def)

lemma decode_encode: "encodeURIComponent s = Some e \<Longrightarrow> decodeURIComponent e = Some s"
proof (induction s arbitrary: e rule: encodeURIComponent.induct)
  case (2 u)
  then show ?case using decode_percent_cp [OF unit_cp(1,2), of u "[]"] unit_cp(3) [of u]
    by (auto dest: unreserved_not_percent split: if_splits)
next
  case (3 u v us)
  consider "unreserved u" | "\<not> unreserved u" "is_high u" "\<not> is_low u" "is_low v"
    | "\<not> unreserved u" "\<not> is_high u" "\<not> is_low u"
    using "3.prems" by (auto split: if_splits)
  then show ?case
  proof cases
    case 1
    then show ?thesis using 3 by (auto dest: unreserved_not_percent)
  next
    case 2
    then obtain e' where e: "encodeURIComponent us = Some e'" "e = percent_cp (pair_cp u v) @ e'"
      using "3.prems" by auto
    then have "decodeURIComponent e' = Some us" using "3.IH"(2) 2 by simp
    then show ?thesis using pair_cp_units [OF 2(2,4)] by (simp add: e(2) decode_percent_cp)
  next
    case 3
    then obtain e' where e: "encodeURIComponent (v # us) = Some e'" "e = percent_cp (unat u) @ e'"
      using "3.prems" by auto
    then have "decodeURIComponent e' = Some (v # us)" using "3.IH"(3) 3 by simp
    then show ?thesis using unit_cp [OF 3(2,3)] by (simp add: e(2) decode_percent_cp)
  qed
qed simp

end
