(* ===== verification/Files.thy ===== *)
theory Files
  imports Dialogs Uri
begin

text \<open>
  The shared files of a room (\<open>static/app.js\<close>, \<open>promptUploadFiles\<close> to \<open>deleteFile\<close>): who is asked for which
  password, the uploads of a batch one after the other, the download and the deletion of a file with one retry
  after a wrong password, and the list. A definition ending in \<open>_done\<close> is the continuation of the request,
  one ending in \<open>_entered\<close> the continuation of the dialog.
\<close>

section \<open>Names and sizes\<close>

definition guessExt :: "jsstring \<Rightarrow> jsstring" where
  [js_eval]: "guessExt mime0 =
     (let mime = js_lower mime0
      in if mime = js ''image/png'' then js ''.png''
         else if mime = js ''image/jpeg'' then js ''.jpg''
         else if mime = js ''image/gif'' then js ''.gif''
         else if mime = js ''image/webp'' then js ''.webp''
         else if mime = js ''application/pdf'' then js ''.pdf''
         else if take 5 mime = js ''text/'' then js ''.txt''
         else js ''.bin'')"

definition upload_name :: "nat \<Rightarrow> file_blob \<Rightarrow> jsstring" where
  [js_eval]: "upload_name now f =
     (if fb_name f = [] \<or> fb_name f = js ''image.png'' \<or> fb_name f = js ''blob''
      then js ''paste-'' @ num_str now @ guessExt (fb_type f) else fb_name f)"

text \<open>\<open>toFixed(0)\<close> rounds the exact value, a tie going up.\<close>

definition formatFileSize :: "nat \<Rightarrow> jsstring" where
  [js_eval]: "formatFileSize n =
     (if n < 1024 then num_str n @ js '' B''
      else if n < 1024 * 1024 then
        (if n < 10 * 1024 then toFixed1 (dquot n 1024) else num_str (js_round (dquot n 1024))) @ js '' KB''
      else (if n < 10 * 1024 * 1024 then toFixed1 (dquot n (1024 * 1024))
            else num_str (js_round (dquot n (1024 * 1024)))) @ js '' MB'')"

section \<open>The list\<close>

definition setFilesPanelVisible :: "bool \<Rightarrow> page \<Rightarrow> page" where
  [js_eval]: "setFilesPanelVisible v s = s\<lparr>filesPanelHidden := \<not> v\<rparr>"

definition setFileUploadEnabled :: "bool \<Rightarrow> page \<Rightarrow> page" where
  [js_eval]: "setFileUploadEnabled e s = s\<lparr>fileUploadEnabled := e\<rparr>"

text \<open>A row: the name or the identifier, the size, and the expiry when there is one.\<close>

definition file_row :: "file_meta \<Rightarrow> jsstring \<times> jsstring \<times> jsstring option" where
  [js_eval]: "file_row f =
     ((if fm_name f \<noteq> [] then fm_name f else fm_id f), formatFileSize (fm_size f),
      (if fm_expiresAt f \<noteq> [] then Some (fm_expiresAt f) else None))"

definition renderFileList :: "file_meta list \<Rightarrow> page \<Rightarrow> page" where
  [js_eval]: "renderFileList files s = page_emit (ShowFiles files) (setFilesPanelVisible (files \<noteq> []) s)"

definition loadFiles :: "bool \<Rightarrow> page \<Rightarrow> page" where
  [js_eval]: "loadFiles silent s =
     send_request \<lparr>rq_kind = FileListing silent, rq_room = withRoomPasswordHeaders s, rq_admin = None, rq_file = None\<rparr> s"

definition files_error :: "notice \<Rightarrow> page \<Rightarrow> page" where
  [js_eval]: "files_error m s = pageToast m ErrTone (setFilesStatus (Some m) (Some ErrTone) s)"

definition loadFiles_done :: "bool \<Rightarrow> answer \<Rightarrow> page \<Rightarrow> page" where
  [js_eval]: "loadFiles_done silent ans s =
     (let failed = (if silent then s else files_error (Translated FileListFailed) s)
      in case ans of
           NetworkError \<Rightarrow> failed
         | Answer st bd _ \<Rightarrow>
             if st = 401 \<or> st = 403 then s
             else if \<not> ok_status st then failed
             else case bd of
                    Unparsable \<Rightarrow> failed
                  | NullBody \<Rightarrow> s
                  | Json data \<Rightarrow>
                      let s1 = (case rp_fileUploadEnabled data of Some b \<Rightarrow> setFileUploadEnabled b s | None \<Rightarrow> s);
                          s2 = renderFileList (case rp_files data of Some l \<Rightarrow> l | None \<Rightarrow> []) s1
                      in if silent then s2 else setFilesStatus None None s2)"

definition handleRemoteFiles :: "bool option \<Rightarrow> file_meta list \<Rightarrow> page \<Rightarrow> page" where
  [js_eval]: "handleRemoteFiles enabled files s =
     (let s1 = (case enabled of Some b \<Rightarrow> setFileUploadEnabled b s | None \<Rightarrow> s);
          s2 = renderFileList files s1
      in if files \<noteq> [] then setFilesStatus None None s2 else s2)"

section \<open>Switching uploads\<close>

definition setting_request :: "bool \<Rightarrow> bool \<Rightarrow> jsstring \<Rightarrow> page \<Rightarrow> page" where
  [js_eval]: "setting_request nxt retried pw s =
     send_request \<lparr>rq_kind = UploadSetting nxt retried, rq_room = withRoomPasswordHeaders s, rq_admin = Some pw,
                   rq_file = None\<rparr> s"

definition toggleRoomFileUpload :: "page \<Rightarrow> page" where
  [js_eval]: "toggleRoomFileUpload s =
     askPassword (ToggleUpload (\<not> fileUploadEnabled s)) (plain_options AdminKind []) s"

definition toggle_entered :: "bool \<Rightarrow> jsstring option \<Rightarrow> page \<Rightarrow> page" where
  [js_eval]: "toggle_entered nxt v s =
     (if or_empty v = [] then s
      else setting_request nxt False (or_empty v)
             (setFilesStatus (Some (Translated (SwitchingUpload nxt))) None (rememberAdminPassword (or_empty v) s)))"

definition toggle_retry_entered :: "bool \<Rightarrow> jsstring option \<Rightarrow> page \<Rightarrow> page" where
  [js_eval]: "toggle_retry_entered nxt v s =
     (if or_empty v = [] then s
      else setting_request nxt True (or_empty v) (rememberAdminPassword (or_empty v) s))"

definition setting_changed :: "reply \<Rightarrow> page \<Rightarrow> page" where
  [js_eval]: "setting_changed data s =
     (let on = (rp_fileUploadEnabled data = Some True);
          s1 = setFilesStatus (Some (Translated (if on then RoomUploadOn else RoomUploadOff))) (Some OkTone)
                 (setFileUploadEnabled on s)
      in loadFiles True (if on then setFilesPanelVisible True s1 else s1))"

text \<open>An answer whose body does not parse counts as an empty object.\<close>

definition empty_reply :: reply where
  [js_eval]: "empty_reply = \<lparr>rp_snapshots = None, rp_error = [], rp_passwordScope = [], rp_fileUploadEnabled = None,
     rp_files = None\<rparr>"

definition reply_or_empty :: "body \<Rightarrow> reply" where
  [js_eval]: "reply_or_empty b = (case b of Json r \<Rightarrow> r | _ \<Rightarrow> empty_reply)"

text \<open>\<open>data.error || fallback\<close>; reading a property of a body \<open>null\<close> throws.\<close>

definition server_or :: "body \<Rightarrow> notice \<Rightarrow> notice" where
  [js_eval]: "server_or bd m =
     (case bd of NullBody \<Rightarrow> ParseFailure
      | _ \<Rightarrow> let e = rp_error (reply_or_empty bd) in if e \<noteq> [] then ServerText e else m)"

definition toggle_failed :: "bool \<Rightarrow> notice \<Rightarrow> page \<Rightarrow> page" where
  [js_eval]: "toggle_failed nxt m s =
     (let s1 = files_error m s
      in if m = Translated WrongAdminPassword
         then askPassword (ToggleUploadRetry nxt) ((plain_options AdminKind [])\<lparr>ao_preferRemembered := False\<rparr>) s1
         else s1)"

definition setting_done :: "bool \<Rightarrow> answer \<Rightarrow> page \<Rightarrow> page" where
  [js_eval]: "setting_done nxt ans s =
     (case ans of
        NetworkError \<Rightarrow> toggle_failed nxt NetworkFailure s
      | Answer st bd _ \<Rightarrow>
          let data = reply_or_empty bd
          in if st = 401 then
               (if rp_passwordScope data = js ''view'' then toggle_failed nxt (Translated WrongRoomPassword) s
                else toggle_failed nxt (Translated WrongAdminPassword) (rememberAdminPassword [] s))
             else if st = 403 then toggle_failed nxt (server_or bd (Translated FileFeatureDisabled)) s
             else if \<not> ok_status st then toggle_failed nxt (server_or bd (HttpStatus st)) s
             else if bd = NullBody then toggle_failed nxt ParseFailure s
             else setting_changed data s)"

definition setting_retry_done :: "answer \<Rightarrow> page \<Rightarrow> page" where
  [js_eval]: "setting_retry_done ans s =
     (case ans of
        NetworkError \<Rightarrow> files_error NetworkFailure s
      | Answer st bd _ \<Rightarrow>
          if st = 401 then files_error (Translated WrongAdminPassword) s
          else if \<not> ok_status st then files_error (Translated SetFailed) s
          else case bd of Json data \<Rightarrow> setting_changed data s | _ \<Rightarrow> files_error ParseFailure s)"

section \<open>Uploading\<close>

text \<open>With uploads open only the file password is asked for; else the administrator's comes first.\<close>

definition promptUploadFiles :: "file_blob list \<Rightarrow> page \<Rightarrow> page" where
  [js_eval]: "promptUploadFiles files s =
     (if files = [] then s
      else if fileUploadEnabled s then queue_job (AnswerJob (UploadAdmin files) None) s
      else askPassword (UploadAdmin files) (plain_options AdminKind (map fb_name files)) s)"

definition upload_admin_entered :: "file_blob list \<Rightarrow> jsstring option \<Rightarrow> page \<Rightarrow> page" where
  [js_eval]: "upload_admin_entered files v s =
     (if \<not> fileUploadEnabled s \<and> or_empty v = [] then s
      else askPassword (UploadPassword files (or_empty v)) (plain_options FileKind (map fb_name files)) s)"

text \<open>The end of a batch.\<close>

definition finish_upload :: "upload \<Rightarrow> page \<Rightarrow> page" where
  [js_eval]: "finish_upload u s =
     (if up_badAdmin u then
        askPassword (UploadAdminRetry (up_files u) (up_password u))
          ((plain_options AdminKind (map fb_name (up_files u)))\<lparr>ao_preferRemembered := False\<rparr>)
          (loadFiles True (setFilesStatus None None s))
      else let s1 = loadFiles True s
           in if up_fail u = 0 then setFilesStatus (Some (Translated (UploadedFiles (up_ok u)))) (Some OkTone) s1
              else if 0 < up_ok u then files_error (PartialUpload (up_ok u) (up_fail u) (up_lastErr u)) s1
              else files_error (case up_lastErr u of Some m \<Rightarrow> m | None \<Rightarrow> Translated UploadFailed)
                     (setFilesPanelVisible True s1))"

text \<open>The next file of the batch; after a wrong administrator password the rest only counts as failed.\<close>

definition upload_next :: "nat \<Rightarrow> upload \<Rightarrow> page \<Rightarrow> page" where
  [js_eval]: "upload_next now u s =
     (if up_badAdmin u then finish_upload (u\<lparr>up_fail := up_fail u + length (up_rest u), up_rest := []\<rparr>) s
      else case up_rest u of
             [] \<Rightarrow> finish_upload u s
           | f # fs \<Rightarrow>
               send_request \<lparr>rq_kind = FileUpload (u\<lparr>up_rest := fs\<rparr>) (upload_name now f),
                 rq_room = withRoomPasswordHeaders s,
                 rq_admin = (if up_admin u \<noteq> [] then Some (up_admin u) else None), rq_file = Some (up_password u)\<rparr> s)"

definition uploadFilesWithPasswords :: "nat \<Rightarrow> file_blob list \<Rightarrow> jsstring \<Rightarrow> jsstring \<Rightarrow> page \<Rightarrow> page" where
  [js_eval]: "uploadFilesWithPasswords now files adminPassword filePassword s =
     (let s1 = (if adminPassword \<noteq> [] then rememberAdminPassword adminPassword s else s);
          s2 = rememberFilePassword filePassword s1;
          ttl = (if readTTLSeconds (app_of s) = 0 then 3600 else readTTLSeconds (app_of s))
      in upload_next now \<lparr>up_files = files, up_rest = files, up_admin = adminPassword, up_password = filePassword,
           up_ttl = ttl, up_ok = 0, up_fail = 0, up_lastErr = None, up_badAdmin = False\<rparr>
           (setFilesStatus (Some (Translated (Uploading (length files)))) None (setFilesPanelVisible True s2)))"

definition upload_password_entered :: "nat \<Rightarrow> file_blob list \<Rightarrow> jsstring \<Rightarrow> jsstring option \<Rightarrow> page \<Rightarrow> page" where
  [js_eval]: "upload_password_entered now files adminPassword v s =
     (if or_empty v = [] then s else uploadFilesWithPasswords now files adminPassword (or_empty v) s)"

definition upload_retry_entered :: "nat \<Rightarrow> file_blob list \<Rightarrow> jsstring \<Rightarrow> jsstring option \<Rightarrow> page \<Rightarrow> page" where
  [js_eval]: "upload_retry_entered now files filePassword v s =
     (if or_empty v = [] then loadFiles True s
      else uploadFilesWithPasswords now files (or_empty v) filePassword s)"

text \<open>\<open>uploadOneFile\<close> by its answer: \<open>None\<close> when the file was stored, else what was thrown.\<close>

definition uploadOneFile_result :: "answer \<Rightarrow> notice option" where
  [js_eval]: "uploadOneFile_result ans =
     (case ans of
        NetworkError \<Rightarrow> Some NetworkFailure
      | Answer st bd _ \<Rightarrow>
          let data = reply_or_empty bd
          in if st = 401 then
               Some (Translated (if rp_passwordScope data = js ''view'' then WrongRoomPassword else WrongAdminPassword))
             else if st = 403 then Some (server_or bd (Translated UploadDisabled))
             else if st = 413 then Some (Translated FileTooLarge)
             else if \<not> ok_status st then Some (server_or bd (HttpStatus st))
             else None)"

definition upload_done :: "nat \<Rightarrow> upload \<Rightarrow> answer \<Rightarrow> page \<Rightarrow> page" where
  [js_eval]: "upload_done now u ans s =
     (case uploadOneFile_result ans of
        None \<Rightarrow> upload_next now (u\<lparr>up_ok := up_ok u + 1\<rparr>) s
      | Some m \<Rightarrow>
          let u1 = u\<lparr>up_fail := up_fail u + 1, up_lastErr := Some m\<rparr>
          in if m = Translated WrongAdminPassword
             then upload_next now (u1\<lparr>up_badAdmin := True\<rparr>) (rememberAdminPassword [] s)
             else upload_next now u1 s)"

section \<open>Downloading\<close>

definition named :: "jsstring \<Rightarrow> jsstring list" where
  [js_eval]: "named nm = (if nm \<noteq> [] then [nm] else [])"

definition downloadFile :: "jsstring \<Rightarrow> jsstring \<Rightarrow> page \<Rightarrow> page" where
  [js_eval]: "downloadFile i nm s = askPassword (Download i nm) (plain_options FileKind (named nm)) s"

definition download_entered :: "jsstring \<Rightarrow> jsstring \<Rightarrow> jsstring option \<Rightarrow> page \<Rightarrow> page" where
  [js_eval]: "download_entered i nm v s =
     (if or_empty v = [] then s
      else let s1 = setFilesStatus (Some (Translated Downloading)) None (rememberFilePassword (or_empty v) s)
           in send_request \<lparr>rq_kind = FileDownload i nm False, rq_room = withRoomPasswordHeaders s1, rq_admin = None,
                rq_file = Some (or_empty v)\<rparr> s1)"

text \<open>The retry sends the file password only.\<close>

definition download_retry_entered :: "jsstring \<Rightarrow> jsstring \<Rightarrow> jsstring option \<Rightarrow> page \<Rightarrow> page" where
  [js_eval]: "download_retry_entered i nm v s =
     (if or_empty v = [] then s
      else send_request \<lparr>rq_kind = FileDownload i nm True, rq_room = None, rq_admin = None,
             rq_file = Some (or_empty v)\<rparr> (rememberFilePassword (or_empty v) s))"

definition download_failed :: "jsstring \<Rightarrow> jsstring \<Rightarrow> notice \<Rightarrow> page \<Rightarrow> page" where
  [js_eval]: "download_failed i nm m s =
     (let s1 = files_error m s
      in if m = Translated WrongFilePassword
         then askPassword (DownloadRetry i nm) ((plain_options FileKind (named nm))\<lparr>ao_preferRemembered := False\<rparr>) s1
         else s1)"

definition save_blob :: "jsstring \<Rightarrow> page \<Rightarrow> page" where
  [js_eval]: "save_blob filename s =
     setFilesStatus (Some (Translated DownloadStarted)) (Some OkTone) (page_emit (SaveFile filename) s)"

text \<open>
  The message of a refused request with status 401: for a body that does not parse, the error of \<open>json()\<close> has a
  message and is thrown again.
\<close>

definition download_refused :: "body \<Rightarrow> page \<Rightarrow> notice \<times> page" where
  [js_eval]: "download_refused bd s =
     (case bd of
        Unparsable \<Rightarrow> (ParseFailure, s)
      | _ \<Rightarrow> if rp_passwordScope (reply_or_empty bd) = js ''view'' then (Translated WrongRoomPassword, s)
             else (Translated WrongFilePassword, rememberFilePassword [] s))"

text \<open>
  The message of any other failure: a server text is thrown on unless it begins with \<open>HTTP\<close>, which, like a
  body that does not parse, gives the status; a body \<open>null\<close> fails on reading \<open>error\<close>.
\<close>

definition download_other :: "nat \<Rightarrow> body \<Rightarrow> notice" where
  [js_eval]: "download_other st bd =
     (case bd of
        Unparsable \<Rightarrow> HttpStatus st
      | NullBody \<Rightarrow> ParseFailure
      | Json r \<Rightarrow> if rp_error r \<noteq> [] \<and> take 4 (rp_error r) \<noteq> js ''HTTP'' then ServerText (rp_error r)
                 else HttpStatus st)"

text \<open>
  The name in the header, \<open>/filename\*?=(?:UTF-8''|")?([^";]+)/i\<close>: after the equals sign the optional prefix is
  skipped when something other than a quote or a semicolon follows it.
\<close>

definition disposition_value :: "jsstring \<Rightarrow> jsstring" where
  [js_eval]: "disposition_value r = takeWhile (\<lambda>u. u \<noteq> 34 \<and> u \<noteq> 59) r"

definition disposition_after :: "jsstring \<Rightarrow> jsstring option" where
  [js_eval]: "disposition_after r0 =
     (let r = (if take 1 r0 = [42] \<and> take 1 (drop 1 r0) = [61] then Some (drop 2 r0)
               else if take 1 r0 = [61] then Some (drop 1 r0) else None)
      in case r of
           None \<Rightarrow> None
         | Some v \<Rightarrow>
             let skipped = (if js_lower (take 7 v) = js ''utf-8'' @ [39, 39] then drop 7 v
                            else if take 1 v = [34] then drop 1 v else v);
                 m = (if disposition_value skipped \<noteq> [] then disposition_value skipped else disposition_value v)
             in if m \<noteq> [] then Some m else None)"

fun disposition_name :: "jsstring \<Rightarrow> jsstring option" where
  "disposition_name [] = None"
| "disposition_name (u # us) =
     (if js_lower (take 8 (u # us)) = js ''filename'' \<and> disposition_after (drop 8 (u # us)) \<noteq> None
      then disposition_after (drop 8 (u # us)) else disposition_name us)"

text \<open>The name to save under: that of the header, decoded when it decodes, else the one of the list.\<close>

definition download_name :: "jsstring \<Rightarrow> jsstring \<Rightarrow> jsstring \<Rightarrow> jsstring" where
  [js_eval]: "download_name i nm header =
     (let listed = (if nm \<noteq> [] then nm else i)
      in case disposition_name header of
           None \<Rightarrow> listed
         | Some m \<Rightarrow>
             (case decodeURIComponent (js_trim m) of
                Some d \<Rightarrow> d
              | None \<Rightarrow> if js_trim m \<noteq> [] then js_trim m else listed))"

definition download_done :: "jsstring \<Rightarrow> jsstring \<Rightarrow> answer \<Rightarrow> page \<Rightarrow> page" where
  [js_eval]: "download_done i nm ans s =
     (case ans of
        NetworkError \<Rightarrow> download_failed i nm NetworkFailure s
      | Answer st bd header \<Rightarrow>
          if st = 401 then (case download_refused bd s of (m, s1) \<Rightarrow> download_failed i nm m s1)
          else if st = 403 then download_failed i nm (Translated FileAccessDisabled) s
          else if st = 404 then download_failed i nm (Translated FileMissing) s
          else if \<not> ok_status st then download_failed i nm (download_other st bd) s
          else save_blob (download_name i nm header) s)"

definition download_retry_done :: "jsstring \<Rightarrow> jsstring \<Rightarrow> answer \<Rightarrow> page \<Rightarrow> page" where
  [js_eval]: "download_retry_done i nm ans s =
     (case ans of
        NetworkError \<Rightarrow> files_error NetworkFailure s
      | Answer st _ _ \<Rightarrow>
          if ok_status st then save_blob (if nm \<noteq> [] then nm else i) s
          else files_error (Translated (if st = 401 then WrongFilePassword else DownloadFailed)) s)"

section \<open>Deleting\<close>

definition delete_options :: "jsstring \<Rightarrow> jsstring \<Rightarrow> ask_options" where
  [js_eval]: "delete_options i nm = plain_options AdminKind [if nm \<noteq> [] then nm else i]"

definition deleteFile :: "jsstring \<Rightarrow> jsstring \<Rightarrow> page \<Rightarrow> page" where
  [js_eval]: "deleteFile i nm s = askPassword (Delete i nm) (delete_options i nm) s"

definition delete_request :: "jsstring \<Rightarrow> jsstring \<Rightarrow> bool \<Rightarrow> jsstring \<Rightarrow> page \<Rightarrow> page" where
  [js_eval]: "delete_request i nm retried pw s =
     send_request \<lparr>rq_kind = FileDelete i nm retried, rq_room = withRoomPasswordHeaders s, rq_admin = Some pw,
                   rq_file = None\<rparr> s"

definition delete_entered :: "jsstring \<Rightarrow> jsstring \<Rightarrow> jsstring option \<Rightarrow> page \<Rightarrow> page" where
  [js_eval]: "delete_entered i nm v s =
     (if or_empty v = [] then s
      else delete_request i nm False (or_empty v)
             (setFilesStatus (Some (Translated Deleting)) None (rememberAdminPassword (or_empty v) s)))"

definition delete_retry_entered :: "jsstring \<Rightarrow> jsstring \<Rightarrow> jsstring option \<Rightarrow> page \<Rightarrow> page" where
  [js_eval]: "delete_retry_entered i nm v s =
     (if or_empty v = [] then s
      else delete_request i nm True (or_empty v) (rememberAdminPassword (or_empty v) s))"

definition delete_failed :: "jsstring \<Rightarrow> jsstring \<Rightarrow> notice \<Rightarrow> page \<Rightarrow> page" where
  [js_eval]: "delete_failed i nm m s =
     (let s1 = files_error m s
      in if m = Translated WrongAdminPassword
         then askPassword (DeleteRetry i nm) ((delete_options i nm)\<lparr>ao_preferRemembered := False\<rparr>) s1
         else s1)"

text \<open>The handlers of \<open>catch\<close> throw an error of \<open>json()\<close> again, since it has a message.\<close>

definition delete_refused :: "body \<Rightarrow> page \<Rightarrow> notice \<times> page" where
  [js_eval]: "delete_refused bd s =
     (case bd of
        Unparsable \<Rightarrow> (ParseFailure, s)
      | _ \<Rightarrow> if rp_passwordScope (reply_or_empty bd) = js ''view'' then (Translated WrongRoomPassword, s)
             else (Translated WrongAdminPassword, rememberAdminPassword [] s))"

definition delete_other :: "nat \<Rightarrow> body \<Rightarrow> notice" where
  [js_eval]: "delete_other st bd = (if bd = Unparsable then ParseFailure else server_or bd (HttpStatus st))"

definition file_deleted :: "page \<Rightarrow> page" where
  [js_eval]: "file_deleted s = setFilesStatus (Some (Translated Deleted)) (Some OkTone) (loadFiles True s)"

definition delete_done :: "jsstring \<Rightarrow> jsstring \<Rightarrow> answer \<Rightarrow> page \<Rightarrow> page" where
  [js_eval]: "delete_done i nm ans s =
     (case ans of
        NetworkError \<Rightarrow> delete_failed i nm NetworkFailure s
      | Answer st bd _ \<Rightarrow>
          if st = 401 then (case delete_refused bd s of (m, s1) \<Rightarrow> delete_failed i nm m s1)
          else if st = 404 then delete_failed i nm (Translated FileMissing) s
          else if \<not> ok_status st then delete_failed i nm (delete_other st bd) s
          else file_deleted s)"

definition delete_retry_done :: "answer \<Rightarrow> page \<Rightarrow> page" where
  [js_eval]: "delete_retry_done ans s =
     (case ans of
        NetworkError \<Rightarrow> files_error NetworkFailure s
      | Answer st _ _ \<Rightarrow>
          if st = 401 then files_error (Translated WrongAdminPassword) s
          else if \<not> ok_status st then files_error (Translated DeleteFailed) s
          else file_deleted s)"

end
