(* ===== verification/View.thy ===== *)
theory View
  imports Files
begin

text \<open>
  What the page shows beside the editor (\<open>static/app.js\<close>): addresses and share links, the tabs of the peers, the
  hint of an empty room, language and theme, and the Markdown preview with its sanitiser. The browser's HTML
  parser, \<open>marked\<close> and \<open>highlight.js\<close> are arguments; a parsed document is a tree of nodes. Element and
  attribute names are compared in lower case, which for the names tested is that of ASCII.
\<close>

section \<open>Addresses\<close>

definition room_key :: "jsstring \<Rightarrow> jsstring option" where
  [js_eval]: "room_key pathname = decodeURIComponent (drop 1 pathname)"

definition apiURL :: "jsstring \<Rightarrow> jsstring option" where
  [js_eval]: "apiURL key = map_option ((@) (js ''/api/clipboard/'')) (encodeURIComponent key)"

definition filesAPIURL :: "jsstring \<Rightarrow> jsstring option" where
  [js_eval]: "filesAPIURL key = map_option (\<lambda>u. u @ js ''/files'') (apiURL key)"

definition fileURL :: "jsstring \<Rightarrow> jsstring \<Rightarrow> jsstring option" where
  [js_eval]: "fileURL key i =
     (case (filesAPIURL key, encodeURIComponent i) of (Some u, Some e) \<Rightarrow> Some (u @ js ''/'' @ e) | _ \<Rightarrow> None)"

definition wsURL :: "bool \<Rightarrow> jsstring \<Rightarrow> jsstring \<Rightarrow> jsstring \<Rightarrow> jsstring option" where
  [js_eval]: "wsURL https host key cid =
     (case (encodeURIComponent key, encodeURIComponent cid) of
        (Some k, Some c) \<Rightarrow>
          (let u = (if https then js ''wss://'' else js ''ws://'') @ host @ js ''/api/clipboard/'' @ k @ js ''/ws''
           in Some (u @ (if 63 \<in> set u then js ''&'' else js ''?'') @ js ''clientId='' @ c))
      | _ \<Rightarrow> None)"

definition shareUrlWithMode :: "jsstring \<Rightarrow> jsstring \<Rightarrow> jsstring option" where
  [js_eval]: "shareUrlWithMode shareMode url =
     (if shareMode = [] then Some url
      else map_option (\<lambda>m. url @ (if 63 \<in> set url then js ''&'' else js ''?'') @ js ''mode='' @ m)
             (encodeURIComponent shareMode))"

section \<open>Peers and hints\<close>

definition shortId :: "jsstring \<Rightarrow> jsstring" where
  [js_eval]: "shortId i = js_slice i 0 4"

text \<open>A tab: label, colour, and whether it is our own. The own tab comes first, the others by identifier.\<close>

definition makePeerTab :: "jsstring \<Rightarrow> jsstring \<Rightarrow> bool \<Rightarrow> jsstring \<times> jsstring \<times> bool" where
  [js_eval]: "makePeerTab i color isSelf = (shortId i, (if color \<noteq> [] then color else js ''#888''), isSelf)"

definition updatePeers :: "app \<Rightarrow> (jsstring \<times> jsstring \<times> bool) list" where
  [js_eval]: "updatePeers a =
     (if ws_connected a then [makePeerTab (CLIENT_ID a) (colorForPeer (CLIENT_ID a) None a) True] else []) @
     map (\<lambda>i. makePeerTab i (colorForPeer i (map_of (remoteCursors a) i) a) False) (sort (map fst (remoteCursors a)))"

definition updateEmptyHint :: "page \<Rightarrow> bool" where
  [js_eval]: "updateEmptyHint s \<longleftrightarrow>
     materialize (the_doc (app_of s)) = [] \<and> ed_value (content (app_of s)) = [] \<and> \<not> previewVisible s \<and>
     \<not> roomNeedsUnlock (app_of s)"

section \<open>Language and theme\<close>

definition initial_lang :: "jsstring option \<Rightarrow> jsstring \<Rightarrow> jsstring" where
  [js_eval]: "initial_lang saved navigator =
     (if saved = Some (js ''en'') then js ''en'' else if saved = Some (js ''zh'') then js ''zh''
      else let nav = js_lower (if navigator \<noteq> [] then navigator else js ''zh'')
           in if take 2 nav = js ''zh'' then js ''zh'' else js ''en'')"

definition toggleLang :: "jsstring \<Rightarrow> jsstring" where
  [js_eval]: "toggleLang lang = (if lang = js ''en'' then js ''zh'' else js ''en'')"

definition cycleTheme :: "jsstring \<Rightarrow> jsstring" where
  [js_eval]: "cycleTheme pref =
     (if pref = js ''dark'' then js ''light'' else if pref = js ''light'' then [] else js ''dark'')"

definition applyTheme :: "jsstring \<Rightarrow> jsstring" where
  [js_eval]: "applyTheme pref =
     (if pref = js ''light'' then js ''light'' else if pref = js ''dark'' then js ''dark'' else [])"

definition hljs_dark :: "jsstring \<Rightarrow> bool \<Rightarrow> bool" where
  [js_eval]: "hljs_dark pref systemDark \<longleftrightarrow> pref = js ''dark'' \<or> pref \<noteq> js ''light'' \<and> systemDark"

section \<open>Escaping\<close>

definition replace_unit :: "codeunit \<Rightarrow> jsstring \<Rightarrow> jsstring \<Rightarrow> jsstring" where
  [js_eval]: "replace_unit c r s = concat (map (\<lambda>u. if u = c then r else [u]) s)"

definition escapeHTML :: "jsstring \<Rightarrow> jsstring" where
  [js_eval]: "escapeHTML str =
     replace_unit 10 (js ''<br>'') (replace_unit 62 (js ''&gt;'') (replace_unit 60 (js ''&lt;'')
       (replace_unit 38 (js ''&amp;'') str)))"

section \<open>Sanitising\<close>

datatype node = TextNode jsstring | OtherNode jsstring | Element jsstring "(jsstring \<times> jsstring) list" "node list"

definition removed_tags :: "jsstring list" where
  [js_eval]: "removed_tags = [js ''script'', js ''style'', js ''iframe'', js ''object'', js ''embed'', js ''form'',
     js ''input'', js ''button'', js ''meta'', js ''link'']"

definition removed_tag :: "jsstring \<Rightarrow> bool" where
  [js_eval]: "removed_tag tag \<longleftrightarrow> js_lower tag \<in> set removed_tags"

definition begins :: "string \<Rightarrow> jsstring \<Rightarrow> bool" where
  [js_eval]: "begins p s \<longleftrightarrow> take (length p) s = js p"

definition href_ok :: "jsstring \<Rightarrow> bool" where
  [js_eval]: "href_ok v \<longleftrightarrow> (let h = js_lower (js_trim v) in
     begins ''http:'' h \<or> begins ''https:'' h \<or> begins ''mailto:'' h \<or> begins ''#'' h \<or> begins ''/'' h)"

definition src_ok :: "jsstring \<Rightarrow> bool" where
  [js_eval]: "src_ok v \<longleftrightarrow> (let h = js_lower (js_trim v) in
     begins ''http:'' h \<or> begins ''https:'' h \<or> begins ''data:image/'' h \<or> begins ''/'' h)"

definition is_handler :: "jsstring \<Rightarrow> bool" where
  [js_eval]: "is_handler n \<longleftrightarrow> begins ''on'' (js_lower n)"

definition is_href :: "jsstring \<Rightarrow> bool" where
  [js_eval]: "is_href n \<longleftrightarrow> js_lower n = js ''href'' \<or> js_lower n = js ''xlink:href''"

text \<open>The three passes over the attributes of an element that stays.\<close>

definition clean_attrs :: "(jsstring \<times> jsstring) list \<Rightarrow> (jsstring \<times> jsstring) list" where
  [js_eval]: "clean_attrs attrs =
     filter (\<lambda>(n, v). n = js ''src'' \<longrightarrow> src_ok v)
       (filter (\<lambda>(n, v). is_href n \<longrightarrow> href_ok v)
         (filter (\<lambda>(n, v). \<not> is_handler n) attrs))"

text \<open>The walk, which visits the children of an element to be removed as well, and the removal.\<close>

fun clean_node :: "node \<Rightarrow> node" where
  "clean_node (Element tag attrs subs) =
     Element tag (if removed_tag tag then attrs else clean_attrs attrs) (map clean_node subs)"
| "clean_node n = n"

fun removed_node :: "node \<Rightarrow> bool" where
  "removed_node (Element tag attrs subs) = removed_tag tag"
| "removed_node n = False"

fun prune_node :: "node \<Rightarrow> node" where
  "prune_node (Element tag attrs subs) =
     Element tag attrs (concat (map (\<lambda>k. if removed_node k then [] else [prune_node k]) subs))"
| "prune_node n = n"

definition prune :: "node list \<Rightarrow> node list" where
  [js_eval]: "prune subs = concat (map (\<lambda>k. if removed_node k then [] else [prune_node k]) subs)"

definition sanitizeMarkdown :: "node list \<Rightarrow> node list" where
  [js_eval]: "sanitizeMarkdown subs = prune (map clean_node subs)"

section \<open>Preview\<close>

definition togglePreview :: "page \<Rightarrow> page" where
  [js_eval]: "togglePreview s = s\<lparr>previewVisible := \<not> previewVisible s\<rparr>"

text \<open>
  \<open>marked\<close> is \<open>None\<close> before its script arrived; its call may throw. \<open>highlight\<close> is the identity before its
  script arrived.
\<close>

definition renderPreview :: "(jsstring \<Rightarrow> jsstring option) option \<Rightarrow> (jsstring \<Rightarrow> node list) \<Rightarrow> (node list \<Rightarrow> node list) \<Rightarrow>
    page \<Rightarrow> node list option" where
  [js_eval]: "renderPreview marked parse_html highlight s =
     (if \<not> previewVisible s then None
      else let text = ed_value (content (app_of s));
               html = (case marked of
                         Some f \<Rightarrow> (case f text of Some h \<Rightarrow> h | None \<Rightarrow> escapeHTML text)
                       | None \<Rightarrow> escapeHTML text)
           in Some (highlight (sanitizeMarkdown (parse_html html))))"

section \<open>Facts\<close>

fun elements :: "node \<Rightarrow> (jsstring \<times> (jsstring \<times> jsstring) list) list" where
  "elements (Element tag attrs subs) = (tag, attrs) # concat (map elements subs)"
| "elements n = []"

definition safe_attr :: "jsstring \<times> jsstring \<Rightarrow> bool" where
  "safe_attr a \<longleftrightarrow> \<not> is_handler (fst a) \<and> (is_href (fst a) \<longrightarrow> href_ok (snd a)) \<and>
     (fst a = js ''src'' \<longrightarrow> src_ok (snd a))"

definition safe_element :: "jsstring \<times> (jsstring \<times> jsstring) list \<Rightarrow> bool" where
  "safe_element e \<longleftrightarrow> \<not> removed_tag (fst e) \<and> list_all safe_attr (snd e)"

definition safe_nodes :: "node list \<Rightarrow> bool" where
  "safe_nodes ns \<longleftrightarrow> list_all safe_element (concat (map elements ns))"

lemma clean_attrs_filter: "clean_attrs attrs = filter safe_attr attrs"
  by (induction attrs) (auto simp: clean_attrs_def safe_attr_def)

lemma removed_clean [simp]: "removed_node (clean_node n) = removed_node n"
  by (cases n) simp_all

lemma prune_clean_safe: "\<not> removed_node n \<Longrightarrow> list_all safe_element (elements (prune_node (clean_node n)))"
proof (induction n)
  case (Element tag attrs subs)
  then show ?case
    by (auto simp: list_all_iff safe_element_def clean_attrs_filter)
qed simp_all

lemma sanitize_safe_nodes: "safe_nodes (sanitizeMarkdown ns)"
  using prune_clean_safe by (auto simp: safe_nodes_def sanitizeMarkdown_def prune_def list_all_iff)

lemma concat_singletons: "(\<And>k. k \<in> set xs \<Longrightarrow> f k = [k]) \<Longrightarrow> concat (map f xs) = xs"
  by (induction xs) simp_all

lemma safe_fixed: "list_all safe_element (elements n) \<Longrightarrow> clean_node n = n \<and> \<not> removed_node n \<and> prune_node n = n"
proof (induction n)
  case (Element tag attrs subs)
  have k: "clean_node k = k \<and> \<not> removed_node k \<and> prune_node k = k" if "k \<in> set subs" for k
    using Element that by (auto simp: list_all_iff)
  have t: "\<not> removed_tag tag" "filter safe_attr attrs = attrs"
    using Element.prems by (auto simp: safe_element_def list_all_iff intro: filter_True)
  have "map clean_node subs = subs" using k by (simp add: map_idI)
  moreover have "concat (map (\<lambda>k. if removed_node k then [] else [prune_node k]) subs) = subs"
    using k by (intro concat_singletons) simp
  ultimately show ?case using t by (simp add: clean_attrs_filter)
qed simp_all

lemma sanitize_fixed: "safe_nodes ns \<Longrightarrow> sanitizeMarkdown ns = ns"
proof -
  assume "safe_nodes ns"
  then have k: "clean_node k = k \<and> \<not> removed_node k \<and> prune_node k = k" if "k \<in> set ns" for k
    using safe_fixed that by (auto simp: safe_nodes_def list_all_iff)
  have "map clean_node ns = ns" using k by (simp add: map_idI)
  moreover have "concat (map (\<lambda>k. if removed_node k then [] else [prune_node k]) ns) = ns"
    using k by (intro concat_singletons) simp
  ultimately show ?thesis by (simp add: sanitizeMarkdown_def prune_def)
qed

end
