(* ===== verification/Frame.thy ===== *)
theory Frame
  imports Connection
begin

text \<open>
  What most handlers leave alone. \<open>core\<close> is the part of the state the collaboration is about: the
  document, the clock, the queues and stacks, the known version, the composition, and the batches of
  operations the client has posted so far. One lemma per function says that it keeps the core;
  \<open>core_frame\<close> turns it into rewrite rules for the fields.
\<close>

text \<open>The batches among the effects, each with its sequence number.\<close>

fun ops_of :: "effect \<Rightarrow> (nat \<times> crdt_op list) list" where
  "ops_of (Send (WsOps ops ttl seq pw)) = [(seq, ops)]"
| "ops_of _ = []"

definition posted :: "app \<Rightarrow> (nat \<times> crdt_op list) list" where
  "posted s = concat (map ops_of (out s))"

definition core where
  "core s = (posted s, CLIENT_ID s, the_doc s, localClock s, pendingOps s, sentBatches s, nextSeq s, undoStack s, redoStack s, lastSyncedText s, knownVersion s, knownGeneration s, knownExists s, compositionActive s, compositionCommitPending s, compositionBaseDoc s, deferredContentMessages s, compositionBaseText s)"

lemma core_frame:
  assumes "core t = core s"
  shows "CLIENT_ID t = CLIENT_ID s"
    and "the_doc t = the_doc s"
    and "localClock t = localClock s"
    and "pendingOps t = pendingOps s"
    and "sentBatches t = sentBatches s"
    and "nextSeq t = nextSeq s"
    and "undoStack t = undoStack s"
    and "redoStack t = redoStack s"
    and "lastSyncedText t = lastSyncedText s"
    and "knownVersion t = knownVersion s"
    and "knownGeneration t = knownGeneration s"
    and "knownExists t = knownExists s"
    and "compositionActive t = compositionActive s"
    and "compositionCommitPending t = compositionCommitPending s"
    and "compositionBaseDoc t = compositionBaseDoc s"
    and "deferredContentMessages t = deferredContentMessages s"
    and "posted t = posted s"
    and "compositionBaseText t = compositionBaseText s"
  using assms by (simp_all add: core_def)

lemma core_emit [simp]: "ops_of e = [] \<Longrightarrow> core (emit e s) = core s"
  by (simp add: core_def emit_def posted_def)

lemma emit_fields [simp]:
  "CLIENT_ID (emit e s) = CLIENT_ID s" "the_doc (emit e s) = the_doc s" "localClock (emit e s) = localClock s"
  "pendingOps (emit e s) = pendingOps s" "sentBatches (emit e s) = sentBatches s" "nextSeq (emit e s) = nextSeq s"
  "undoStack (emit e s) = undoStack s" "redoStack (emit e s) = redoStack s"
  "lastSyncedText (emit e s) = lastSyncedText s" "knownVersion (emit e s) = knownVersion s"
  "knownGeneration (emit e s) = knownGeneration s" "knownExists (emit e s) = knownExists s"
  "compositionActive (emit e s) = compositionActive s" "compositionBaseDoc (emit e s) = compositionBaseDoc s"
  "compositionCommitPending (emit e s) = compositionCommitPending s"
  "deferredContentMessages (emit e s) = deferredContentMessages s"
  "compositionBaseText (emit e s) = compositionBaseText s" "posted (emit e s) = posted s @ ops_of e"
  by (simp_all add: emit_def posted_def)


lemma core_update [simp]:
  "core (s\<lparr>flushTimer := x_flushTimer\<rparr>) = core s"
  "core (s\<lparr>putFallbackTimer := x_putFallbackTimer\<rparr>) = core s"
  "core (s\<lparr>putFailures := x_putFailures\<rparr>) = core s"
  "core (s\<lparr>putInFlight := x_putInFlight\<rparr>) = core s"
  "core (s\<lparr>applyingRemote := x_applyingRemote\<rparr>) = core s"
  "core (s\<lparr>compositionInputPending := x_compositionInputPending\<rparr>) = core s"
  "core (s\<lparr>lastExpiresAt := x_lastExpiresAt\<rparr>) = core s"
  "core (s\<lparr>firstSaveAnnounced := x_firstSaveAnnounced\<rparr>) = core s"
  "core (s\<lparr>initialStateSeen := x_initialStateSeen\<rparr>) = core s"
  "core (s\<lparr>ttlInvalidNotified := x_ttlInvalidNotified\<rparr>) = core s"
  "core (s\<lparr>syncRequestedAt := x_syncRequestedAt\<rparr>) = core s"
  "core (s\<lparr>cursorTimer := x_cursorTimer\<rparr>) = core s"
  "core (s\<lparr>remoteCursors := x_remoteCursors\<rparr>) = core s"
  "core (s\<lparr>socket := x_socket\<rparr>) = core s"
  "core (s\<lparr>socketCount := x_socketCount\<rparr>) = core s"
  "core (s\<lparr>reconnectTimer := x_reconnectTimer\<rparr>) = core s"
  "core (s\<lparr>reconnectAttempts := x_reconnectAttempts\<rparr>) = core s"
  "core (s\<lparr>intentionalClose := x_intentionalClose\<rparr>) = core s"
  "core (s\<lparr>ws_connected := x_ws_connected\<rparr>) = core s"
  "core (s\<lparr>everConnected := x_everConnected\<rparr>) = core s"
  "core (s\<lparr>lastMsgAt := x_lastMsgAt\<rparr>) = core s"
  "core (s\<lparr>restPollTimer := x_restPollTimer\<rparr>) = core s"
  "core (s\<lparr>presenceHeartbeatTimer := x_presenceHeartbeatTimer\<rparr>) = core s"
  "core (s\<lparr>ttlValue := x_ttlValue\<rparr>) = core s"
  "core (s\<lparr>ttlUnit := x_ttlUnit\<rparr>) = core s"
  "core (s\<lparr>content := x_content\<rparr>) = core s"
  "core (s\<lparr>roomAccess := x_roomAccess\<rparr>) = core s"
  "core (s\<lparr>editPasswordSet := x_editPasswordSet\<rparr>) = core s"
  "core (s\<lparr>passwordScope := x_passwordScope\<rparr>) = core s"
  "core (s\<lparr>editPasswordJustSet := x_editPasswordJustSet\<rparr>) = core s"
  "core (s\<lparr>roomLockBusy := x_roomLockBusy\<rparr>) = core s"
  "core (s\<lparr>editPass := x_editPass\<rparr>) = core s"
  "core (s\<lparr>viewPass := x_viewPass\<rparr>) = core s"
  "core (s\<lparr>initialSnapshotApplied := x_initialSnapshotApplied\<rparr>) = core s"
  "core (s\<lparr>statusKind := x_statusKind\<rparr>) = core s"
  "core (s\<lparr>CLIENT_COLOR := x_CLIENT_COLOR\<rparr>) = core s"
  by (simp_all add: core_def posted_def)

lemma core_setStatus [simp]: "core (setStatus k s) = core s"
  by (simp add: setStatus_def Let_def)

lemma core_scheduleFlush [simp]: "core (scheduleFlush s) = core s"
  by (simp add: scheduleFlush_def Let_def)

lemma core_setConnected [simp]: "core (setConnected b s) = core s"
  by (simp add: setConnected_def Let_def)

lemma core_hideLoading [simp]: "core (hideLoading s) = core s"
  by (simp add: hideLoading_def Let_def)

lemma core_announceFirstSave [simp]: "core (announceFirstSave b s) = core s"
  by (simp add: announceFirstSave_def Let_def)

lemma core_updateMeta [simp]: "core (updateMeta m s) = core s"
  by (simp add: updateMeta_def Let_def)

lemma core_setIdleStatus [simp]: "core (setIdleStatus s) = core s"
  by (simp add: setIdleStatus_def Let_def)

lemma core_applyReadOnlyControls [simp]: "core (applyReadOnlyControls s) = core s"
  by (simp add: applyReadOnlyControls_def Let_def)

lemma core_showRoomLock [simp]: "core (showRoomLock s) = core s"
  by (simp add: showRoomLock_def Let_def)

lemma core_hideRoomLock [simp]: "core (hideRoomLock s) = core s"
  by (simp add: hideRoomLock_def Let_def)

lemma core_showRoomLockError [simp]: "core (showRoomLockError m s) = core s"
  by (simp add: showRoomLockError_def Let_def)

lemma core_setEditPassword [simp]: "core (setEditPassword p s) = core s"
  by (simp add: setEditPassword_def Let_def)

lemma core_rememberViewPassword [simp]: "core (rememberViewPassword p s) = core s"
  by (simp add: rememberViewPassword_def Let_def)

lemma core_rememberRoomPassword [simp]: "core (rememberRoomPassword p q s) = core s"
  by (simp add: rememberRoomPassword_def Let_def)

lemma core_sendAuth [simp]: "core (sendAuth p s) = core s"
  by (simp add: sendAuth_def Let_def)

lemma core_requestViewPassword [simp]: "core (requestViewPassword s) = core s"
  by (simp add: requestViewPassword_def Let_def)

lemma core_onInvalidViewPassword [simp]: "core (onInvalidViewPassword s) = core s"
  by (simp add: onInvalidViewPassword_def Let_def)

lemma core_noteEditPasswordSet [simp]: "core (noteEditPasswordSet m s) = core s"
  by (simp add: noteEditPasswordSet_def Let_def split: option.splits)

lemma core_syncEditLockGate [simp]: "core (syncEditLockGate s) = core s"
  by (simp add: syncEditLockGate_def Let_def)

lemma core_syncEditLockGate_done [simp]: "core (syncEditLockGate_done r s) = core s"
  by (simp add: syncEditLockGate_done_def Let_def split: option.splits bool.splits)

lemma core_unlockWithPassword [simp]: "core (unlockWithPassword p s) = core s"
  by (simp add: unlockWithPassword_def Let_def)

lemma core_unlockWithPassword_done [simp]: "core (unlockWithPassword_done p r s) = core s"
  by (simp add: unlockWithPassword_done_def Let_def split: option.splits bool.splits)

lemma core_submitRoomLock [simp]: "core (submitRoomLock p s) = core s"
  by (simp add: submitRoomLock_def Let_def)

lemma core_load_room [simp]: "core (load_room b s) = core s"
  by (simp add: load_room_def Let_def)

lemma core_submitRoomLock_done [simp]: "core (submitRoomLock_done p r s) = core s"
  by (simp add: submitRoomLock_done_def Let_def split: option.splits bool.splits)

lemma core_restoreSelection [simp]: "core (restoreSelection x s) = core s"
  by (simp add: restoreSelection_def Let_def)

lemma core_setContentValue [simp]: "core (setContentValue v x s) = core s"
  by (simp add: setContentValue_def Let_def split: option.splits)

lemma core_paint [simp]: "core (paint v x s) = core s"
  by (simp add: paint_def Let_def)

lemma core_reanchorRemoteCursorsFromPos [simp]: "core (reanchorRemoteCursorsFromPos s) = core s"
  by (simp add: reanchorRemoteCursorsFromPos_def Let_def)

lemma core_shiftRemoteCursorsByText [simp]: "core (shiftRemoteCursorsByText a b s) = core s"
  by (simp add: shiftRemoteCursorsByText_def Let_def)

lemma core_refreshRemoteCursorPositions [simp]: "core (refreshRemoteCursorPositions s) = core s"
  by (simp add: refreshRemoteCursorPositions_def Let_def)

lemma core_onLocalTextChanged [simp]: "core (onLocalTextChanged a b s) = core s"
  by (simp add: onLocalTextChanged_def Let_def)

lemma core_ensureUniqueSelfColor [simp]: "core (ensureUniqueSelfColor s) = core s"
  by (simp add: ensureUniqueSelfColor_def Let_def split: option.splits)

lemma core_pruneStalePeers [simp]: "core (pruneStalePeers n s) = core s"
  by (simp add: pruneStalePeers_def Let_def)

lemma core_scheduleCursorSend [simp]: "core (scheduleCursorSend s) = core s"
  by (simp add: scheduleCursorSend_def Let_def)

lemma core_sendCursorPosition [simp]: "core (sendCursorPosition b s) = core s"
  by (simp add: sendCursorPosition_def Let_def)

lemma core_updateRemoteCursors [simp]: "core (updateRemoteCursors m s) = core s"
  by (simp add: updateRemoteCursors_def Let_def)

lemma core_setTTLControls [simp]: "core (setTTLControls n s) = core s"
  by (simp add: setTTLControls_def Let_def)

lemma core_checkTTL [simp]: "core (snd (checkTTL s)) = core s"
  by (simp add: checkTTL_def Let_def)

lemma core_ttl: "checkTTL s = (b, t) \<Longrightarrow> core t = core s"
  using core_checkTTL [of s] by simp

lemma core_onSettingsChange [simp]: "core (onSettingsChange s) = core s"
  by (simp add: onSettingsChange_def Let_def core_ttl split: prod.splits)

lemma core_updateUndoButtons [simp]: "core (updateUndoButtons s) = core s"
  by (simp add: updateUndoButtons_def Let_def)

lemma core_unlock_editor [simp]: "core (unlock_editor s) = core s"
  by (simp add: unlock_editor_def Let_def)

lemma core_finish_state [simp]: "core (finish_state m x s) = core s"
  by (simp add: finish_state_def Let_def)

lemma core_requestSync [simp]: "core (requestSync n s) = core s"
  by (simp add: requestSync_def Let_def)

lemma core_finish_remote [simp]: "core (finish_remote a b s) = core s"
  by (simp add: finish_remote_def Let_def)

lemma core_schedulePutFallback [simp]: "core (schedulePutFallback s) = core s"
  by (simp add: schedulePutFallback_def Let_def)

lemma core_putReplace [simp]: "core (putReplace a n s) = core s"
  by (simp add: putReplace_def Let_def)

lemma core_putFallback_fired [simp]: "core (putFallback_fired s) = core s"
  by (simp add: putFallback_fired_def Let_def)

lemma core_putPassword_entered [simp]: "core (putPassword_entered p s) = core s"
  by (simp add: putPassword_entered_def Let_def)

lemma core_startRestPoll [simp]: "core (startRestPoll s) = core s"
  by (simp add: startRestPoll_def Let_def)

lemma core_restPoll_fired [simp]: "core (restPoll_fired s) = core s"
  by (simp add: restPoll_fired_def Let_def)

lemma core_stopRestPoll [simp]: "core (stopRestPoll s) = core s"
  by (simp add: stopRestPoll_def Let_def)

lemma core_stopPresenceHeartbeat [simp]: "core (stopPresenceHeartbeat s) = core s"
  by (simp add: stopPresenceHeartbeat_def Let_def)

lemma core_startPresenceHeartbeat [simp]: "core (startPresenceHeartbeat s) = core s"
  by (simp add: startPresenceHeartbeat_def Let_def)

lemma core_forceReconnect [simp]: "core (forceReconnect s) = core s"
  by (simp add: forceReconnect_def Let_def split: option.splits prod.splits)

lemma core_heartbeat_fired [simp]: "core (heartbeat_fired n h s) = core s"
  by (simp add: heartbeat_fired_def Let_def)

lemma core_visibility_changed [simp]: "core (visibility_changed v s) = core s"
  by (simp add: visibility_changed_def)

lemma core_scheduleReconnect [simp]: "core (scheduleReconnect n s) = core s"
  by (simp add: scheduleReconnect_def Let_def)

lemma core_connectWS [simp]: "core (connectWS c n s) = core s"
  by (simp add: connectWS_def Let_def split: option.splits prod.splits)

lemma core_ws_onopen [simp]: "core (ws_onopen i n s) = core s"
  by (simp add: ws_onopen_def Let_def)

lemma core_beforeunload [simp]: "core (beforeunload s) = core s"
  by (simp add: beforeunload_def Let_def split: option.splits prod.splits)

lemma core_blockWhenReadOnly [simp]: "core (snd (blockWhenReadOnly s)) = core s"
  by (simp add: blockWhenReadOnly_def Let_def)

lemmas core_rules = core_update
  core_emit core_setStatus core_scheduleFlush core_setConnected core_hideLoading
  core_announceFirstSave core_updateMeta core_setIdleStatus core_applyReadOnlyControls
  core_showRoomLock core_hideRoomLock core_showRoomLockError core_setEditPassword
  core_rememberViewPassword core_rememberRoomPassword core_sendAuth core_requestViewPassword
  core_onInvalidViewPassword core_noteEditPasswordSet core_syncEditLockGate core_syncEditLockGate_done
  core_unlockWithPassword core_unlockWithPassword_done core_submitRoomLock core_load_room
  core_submitRoomLock_done core_restoreSelection core_setContentValue core_paint
  core_reanchorRemoteCursorsFromPos core_shiftRemoteCursorsByText core_refreshRemoteCursorPositions
  core_onLocalTextChanged core_ensureUniqueSelfColor core_pruneStalePeers core_scheduleCursorSend
  core_sendCursorPosition core_updateRemoteCursors core_setTTLControls core_checkTTL
  core_onSettingsChange core_updateUndoButtons core_unlock_editor core_finish_state core_requestSync
  core_finish_remote core_schedulePutFallback core_putReplace core_putFallback_fired
  core_putPassword_entered core_startRestPoll core_restPoll_fired core_stopRestPoll
  core_stopPresenceHeartbeat core_startPresenceHeartbeat core_forceReconnect core_heartbeat_fired core_visibility_changed
  core_scheduleReconnect core_connectWS core_ws_onopen core_beforeunload core_blockWhenReadOnly

lemmas core_fields [simp] = core_rules [THEN core_frame(1)]
  core_rules [THEN core_frame(2)]
  core_rules [THEN core_frame(3)]
  core_rules [THEN core_frame(4)]
  core_rules [THEN core_frame(5)]
  core_rules [THEN core_frame(6)]
  core_rules [THEN core_frame(7)]
  core_rules [THEN core_frame(8)]
  core_rules [THEN core_frame(9)]
  core_rules [THEN core_frame(10)]
  core_rules [THEN core_frame(11)]
  core_rules [THEN core_frame(12)]
  core_rules [THEN core_frame(13)]
  core_rules [THEN core_frame(14)]
  core_rules [THEN core_frame(15)]
  core_rules [THEN core_frame(16)]
  core_rules [THEN core_frame(17)]
  core_rules [THEN core_frame(18)]

end
