(* ===== verification/ClientInv.thy ===== *)
theory ClientInv
  imports Frame
begin

text \<open>
  The client as a state machine: the events that can happen to an open room, the reachable states, and
  the invariant they keep. No operation is in two batches in flight, sequence numbers are fresh, and
  the documents are well-formed.
\<close>

section \<open>Events\<close>

text \<open>
  What the user, the server, the timers and the promises can do. The time and the random numbers are
  arguments of the step. Typing happens only in an editor that is not read-only.
\<close>

datatype event =
    Typed jsstring nat nat | Tab | KeyUndo | KeyRedo
  | CompositionStart | CompositionTyped jsstring nat nat | CompositionEnd | CommitTimer
  | FlushTimerFired | PutTimerFired | PutAnswered jsstring nat nat msg | PutPasswordEntered "jsstring option"
  | PollTimerFired | PollAnswered msg | LoadAnswered bool "msg option"
  | SocketOpened nat | Frame nat "msg option" | SocketClosed nat | ReconnectTimerFired bool
  | HeartbeatFired bool | VisibilityChanged bool | PruneFired | CaretMoved nat nat jsstring | CursorTimerFired
  | TtlChanged jsstring jsstring
  | GateAnswered "bool option" | UnlockEntered jsstring | UnlockAnswered jsstring "bool option"
  | LockSubmitted jsstring | LockAnswered jsstring "bool option"
  | Unload

definition type_into :: "jsstring \<Rightarrow> nat \<Rightarrow> nat \<Rightarrow> app \<Rightarrow> app" where
  [js_eval]: "type_into v a b s =
     s\<lparr>content := setSelectionRange a b (js ''none'') ((content s)\<lparr>ed_value := normalize_newlines v\<rparr>)\<rparr>"

definition client_step :: "nat \<Rightarrow> nat \<Rightarrow> event \<Rightarrow> app \<Rightarrow> app" where
  [js_eval]: "client_step now jitter e s =
     (case e of
        Typed v a b \<Rightarrow> if ed_readOnly (content s) then s else onInput now (type_into v a b s)
      | Tab \<Rightarrow> onTab now s
      | KeyUndo \<Rightarrow> undo now s
      | KeyRedo \<Rightarrow> redo now s
      | CompositionStart \<Rightarrow> if ed_readOnly (content s) then s else onCompositionStart s
      | CompositionTyped v a b \<Rightarrow> if ed_readOnly (content s) then s else onInput now (type_into v a b s)
      | CompositionEnd \<Rightarrow> onCompositionEnd s
      | CommitTimer \<Rightarrow> commitComposition now s
      | FlushTimerFired \<Rightarrow> flushTimer_fired now s
      | PutTimerFired \<Rightarrow> putFallback_fired s
      | PutAnswered text ttl st data \<Rightarrow> putReplace_done text ttl st data s
      | PutPasswordEntered p \<Rightarrow> putPassword_entered p s
      | PollTimerFired \<Rightarrow> restPoll_fired s
      | PollAnswered data \<Rightarrow> restPoll_done data s
      | LoadAnswered force r \<Rightarrow> load_done force r s
      | SocketOpened n \<Rightarrow> ws_onopen n now s
      | Frame n frame \<Rightarrow> ws_onmessage n now frame s
      | SocketClosed n \<Rightarrow> ws_onclose n jitter s
      | ReconnectTimerFired created \<Rightarrow> connectWS created jitter s
      | HeartbeatFired hidden \<Rightarrow> heartbeat_fired now hidden s
      | VisibilityChanged shown \<Rightarrow> visibility_changed shown s
      | PruneFired \<Rightarrow> pruneStalePeers now s
      | CaretMoved a b dir \<Rightarrow> scheduleCursorSend (s\<lparr>content := setSelectionRange a b dir (content s)\<rparr>)
      | CursorTimerFired \<Rightarrow> sendCursorPosition False s
      | TtlChanged v u \<Rightarrow> onSettingsChange (s\<lparr>ttlValue := v, ttlUnit := u\<rparr>)
      | GateAnswered r \<Rightarrow> syncEditLockGate_done r s
      | UnlockEntered pw \<Rightarrow> unlockWithPassword pw s
      | UnlockAnswered pw r \<Rightarrow> unlockWithPassword_done pw r s
      | LockSubmitted pw \<Rightarrow> submitRoomLock pw s
      | LockAnswered pw r \<Rightarrow> submitRoomLock_done pw r s
      | Unload \<Rightarrow> beforeunload s)"

inductive reachable :: "jsstring \<Rightarrow> app \<Rightarrow> bool" for cid where
  reach_init: "reachable cid (boot jitter cid editPw viewPw typed)"
| reach_step: "reachable cid s \<Longrightarrow> reachable cid (client_step now jitter e s)"

section \<open>The invariant\<close>

definition flight_ids :: "(nat \<times> sent_batch) list \<Rightarrow> jsstring list" where
  "flight_ids bs = concat (map (\<lambda>(q, b). sb_ids b) bs)"

definition flight_ok :: "(nat \<times> sent_batch) list \<Rightarrow> nat \<Rightarrow> bool" where
  "flight_ok bs n \<longleftrightarrow> distinct (map fst bs) \<and> (\<forall>q\<in>fst ` set bs. q < n) \<and> distinct (flight_ids bs)"

definition client_inv :: "app \<Rightarrow> bool" where
  "client_inv s \<longleftrightarrow> wf_doc (the_doc s) \<and> flight_ok (sentBatches s) (nextSeq s) \<and>
     (\<forall>d. compositionBaseDoc s = Some d \<longrightarrow> wf_doc d)"

lemma client_inv_core: "core t = core s \<Longrightarrow> client_inv t = client_inv s"
  by (simp add: client_inv_def core_def)

lemmas client_inv_frame [simp] = core_rules [THEN client_inv_core]

lemma client_inv_emit [simp]: "client_inv (emit e s) = client_inv s"
  by (simp add: client_inv_def)

lemma flight_ids_simps [simp]:
  "flight_ids [] = []" "flight_ids ((q, b) # bs) = sb_ids b @ flight_ids bs"
  "flight_ids (bs @ cs) = flight_ids bs @ flight_ids cs"
  by (simp_all add: flight_ids_def)

lemma flight_ok_Nil [simp]: "flight_ok [] n"
  by (simp add: flight_ok_def)

lemma flight_ids_filter: "set (flight_ids (filter P bs)) \<subseteq> set (flight_ids bs)"
  by (induction bs) auto

lemma flight_ids_strip:
  "flight_ids (map (\<lambda>(q, b). (q, b\<lparr>sb_ids := filter P (sb_ids b)\<rparr>)) bs) = filter P (flight_ids bs)"
  by (induction bs) auto

lemma flight_ok_filter: "flight_ok bs n \<Longrightarrow> flight_ok (filter P bs) n"
proof (induction bs)
  case (Cons b bs)
  obtain q x where b: "b = (q, x)" by force
  have "flight_ok (filter P bs) n" using Cons by (simp add: b flight_ok_def)
  moreover have "set (sb_ids x) \<inter> set (flight_ids (filter P bs)) = {}"
    using Cons.prems flight_ids_filter [of P bs] by (auto simp: b flight_ok_def)
  ultimately show ?case using Cons.prems by (auto simp: b flight_ok_def)
qed simp

lemma flight_ok_strip:
  "flight_ok bs n \<Longrightarrow> flight_ok (map (\<lambda>(q, b). (q, b\<lparr>sb_ids := filter P (sb_ids b)\<rparr>)) bs) n"
  by (auto simp: flight_ok_def flight_ids_strip comp_def split_beta image_iff)

lemma alist_put_fresh: "k \<notin> fst ` set xs \<Longrightarrow> alist_put k v xs = xs @ [(k, v)]"
  by (induction xs) auto

lemma flight_ok_add:
  assumes "flight_ok bs n" "distinct ids" "set ids \<inter> set (flight_ids bs) = {}"
  shows "flight_ok (alist_put n \<lparr>sb_ids = ids, sb_at = t\<rparr> bs) (n + 1)"
proof -
  have "n \<notin> fst ` set bs" using assms(1) by (auto simp: flight_ok_def)
  then show ?thesis
    using assms by (auto simp: alist_put_fresh flight_ok_def less_Suc_eq)
qed

lemma wf_build_or_new [simp]: "wf_doc (build_or_new site text)"
  by (auto simp: build_or_new_def wf_newDoc wf_buildFromString split: option.splits)

lemma wf_snapshot_doc [simp]: "wf_doc (snapshot_doc cid data)"
  using wf_fromItems by (auto simp: snapshot_doc_def wf_newDoc split: prod.splits option.splits) (metis fst_conv)+

lemma bump_core:
  "the_doc (bumpClockFromDoc s) = the_doc s" "sentBatches (bumpClockFromDoc s) = sentBatches s"
  "nextSeq (bumpClockFromDoc s) = nextSeq s" "compositionBaseDoc (bumpClockFromDoc s) = compositionBaseDoc s"
  "pendingOps (bumpClockFromDoc s) = pendingOps s" "CLIENT_ID (bumpClockFromDoc s) = CLIENT_ID s"
  "the_doc (bumpClockFromOps ops s) = the_doc s" "sentBatches (bumpClockFromOps ops s) = sentBatches s"
  "nextSeq (bumpClockFromOps ops s) = nextSeq s" "compositionBaseDoc (bumpClockFromOps ops s) = compositionBaseDoc s"
  "pendingOps (bumpClockFromOps ops s) = pendingOps s" "CLIENT_ID (bumpClockFromOps ops s) = CLIENT_ID s"
  "compositionActive (bumpClockFromDoc s) = compositionActive s"
  "compositionCommitPending (bumpClockFromDoc s) = compositionCommitPending s"
  by (simp_all add: bumpClockFromDoc_def bumpClockFromOps_def Let_def)

lemma push_core:
  "the_doc (pushUndoEntry now ops s) = the_doc s" "sentBatches (pushUndoEntry now ops s) = sentBatches s"
  "nextSeq (pushUndoEntry now ops s) = nextSeq s" "compositionBaseDoc (pushUndoEntry now ops s) = compositionBaseDoc s"
  "pendingOps (pushUndoEntry now ops s) = pendingOps s" "localClock (pushUndoEntry now ops s) = localClock s"
  "CLIENT_ID (pushUndoEntry now ops s) = CLIENT_ID s"
  by (simp_all add: pushUndoEntry_def)

lemma wf_apply_result: "wf_doc d \<Longrightarrow> applyBatch d ops = (d', r) \<Longrightarrow> wf_doc d'"
  using wf_applyBatch [of d ops] by simp

lemmas inv_simps = client_inv_def bump_core push_core

lemma inv_applyLocalText: "client_inv s \<Longrightarrow> client_inv (applyLocalText now v s)"
  by (auto simp: applyLocalText_def Let_def inv_simps split: prod.splits intro: wf_apply_result)

lemma inv_onInput: "client_inv s \<Longrightarrow> client_inv (onInput now s)"
  by (simp add: onInput_def Let_def inv_applyLocalText)

lemma inv_onTab: "client_inv s \<Longrightarrow> client_inv (onTab now s)"
  by (simp add: onTab_def Let_def inv_onInput)

lemma inv_inverseOps: "\<lbrakk>client_inv s; inverseOps ops s = (ys, t)\<rbrakk> \<Longrightarrow> client_inv t"
  by (auto simp: inverseOps_def client_inv_def split: prod.splits)

lemma inv_applyOpsLocal: "\<lbrakk>client_inv s; applyOpsLocal ops s = (ok, t)\<rbrakk> \<Longrightarrow> client_inv t"
  by (auto simp: applyOpsLocal_def Let_def inv_simps split: prod.splits if_splits intro: wf_apply_result)

lemma client_inv_stacks [simp]:
  "client_inv (s\<lparr>undoStack := u\<rparr>) = client_inv s" "client_inv (s\<lparr>redoStack := u\<rparr>) = client_inv s"
  "client_inv (s\<lparr>pendingOps := ops\<rparr>) = client_inv s" "client_inv (s\<lparr>lastSyncedText := v\<rparr>) = client_inv s"
  "client_inv (s\<lparr>knownVersion := k\<rparr>) = client_inv s" "client_inv (s\<lparr>knownGeneration := k\<rparr>) = client_inv s"
  "client_inv (s\<lparr>knownExists := b\<rparr>) = client_inv s" "client_inv (s\<lparr>localClock := k\<rparr>) = client_inv s"
  "client_inv (s\<lparr>deferredContentMessages := q\<rparr>) = client_inv s"
  "client_inv (s\<lparr>compositionActive := b\<rparr>) = client_inv s"
  "client_inv (s\<lparr>compositionCommitPending := b\<rparr>) = client_inv s"
  "client_inv (s\<lparr>compositionBaseText := v\<rparr>) = client_inv s"
  by (simp_all add: client_inv_def)

lemma inv_after_history [simp]: "client_inv (after_history_step old s) = client_inv s"
  by (simp add: after_history_step_def Let_def)

lemma inv_undo: "client_inv s \<Longrightarrow> client_inv (undo now s)"
  by (auto simp: undo_def blockWhenReadOnly_def Let_def split: prod.splits
      dest: inv_applyOpsLocal inv_inverseOps [rotated])

lemma inv_redo: "client_inv s \<Longrightarrow> client_inv (redo now s)"
  by (auto simp: redo_def blockWhenReadOnly_def Let_def split: prod.splits
      dest: inv_applyOpsLocal inv_inverseOps [rotated])

section \<open>Messages keep the invariant\<close>

lemma client_inv_no_flight [simp]: "client_inv s \<Longrightarrow> client_inv (s\<lparr>sentBatches := []\<rparr>)"
  by (simp add: client_inv_def)

lemma inv_bump [simp]: "client_inv (bumpClockFromDoc s) = client_inv s" "client_inv (bumpClockFromOps ops s) = client_inv s"
  by (simp_all add: inv_simps)

lemma inv_new_doc: "\<lbrakk>client_inv s; wf_doc d\<rbrakk> \<Longrightarrow> client_inv (s\<lparr>the_doc := d\<rparr>)"
  by (simp add: client_inv_def)

lemma inv_clearUndo [simp]: "client_inv (clearUndoHistory s) = client_inv s"
  by (simp add: clearUndoHistory_def)

lemma inv_adopt: "client_inv s \<Longrightarrow> client_inv (adopt_snapshot data s)"
  by (simp add: adopt_snapshot_def take_snapshot_def clear_undo_if_newer_def Let_def inv_new_doc)

lemma inv_batch: "client_inv s \<Longrightarrow> wf_doc (fst (applyBatch (the_doc s) ops))"
  by (simp add: client_inv_def wf_applyBatch)

lemma inv_replay: "client_inv s \<Longrightarrow> client_inv (snd (replay_pending s))"
  by (simp add: replay_pending_def Let_def split_beta inv_new_doc inv_batch)

lemma inv_merge_unsynced: "client_inv s \<Longrightarrow> client_inv (merge_unsynced now v base b s)"
  by (simp add: merge_unsynced_def Let_def split_beta inv_applyLocalText inv_replay)

lemma inv_handleState: "client_inv s \<Longrightarrow> client_inv (handleState now data s)"
  by (simp add: handleState_def Let_def inv_merge_unsynced inv_adopt)

lemma inv_note_version [simp]: "client_inv (note_version data s) = client_inv s"
  by (simp add: note_version_def Let_def)

lemma inv_forget: "client_inv s \<Longrightarrow> client_inv (forgetSentIds acked s)"
  by (simp add: forgetSentIds_def client_inv_def flight_ok_filter flight_ok_strip)

lemma inv_echo: "client_inv s \<Longrightarrow> client_inv (handle_echo data s)"
  by (simp add: handle_echo_def Let_def inv_forget split: option.splits)

lemma inv_handleRemoteOps: "client_inv s \<Longrightarrow> client_inv (handleRemoteOps now data s)"
proof -
  assume s: "client_inv s"
  have "wf_doc (fst (applyBatch (the_doc s) ops))" for ops
    using s by (simp add: client_inv_def wf_applyBatch)
  then show ?thesis
    using s by (simp add: handleRemoteOps_def Let_def split_beta inv_echo inv_new_doc split: option.splits)
qed

lemma inv_ack_batch: "client_inv s \<Longrightarrow> client_inv (ack_batch seq s)"
  by (simp add: client_inv_def ack_batch_def flight_ok_filter)

lemma inv_ack_accepted: "client_inv s \<Longrightarrow> client_inv (ack_accepted data s)"
  by (simp add: ack_accepted_def Let_def)

lemma inv_handleAck: "client_inv s \<Longrightarrow> client_inv (handleAck data s)"
  using inv_ack_batch [of s "or_zero (m_seq data)"]
  by (simp add: handleAck_def Let_def inv_ack_accepted split: option.splits)

lemma outstanding_flight: "outstanding s = flight_ids (sentBatches s)"
  by (simp add: outstanding_def flight_ids_def)

lemma inv_send:
  assumes "client_inv s" "set ids \<inter> set (outstanding s) = {}" "distinct ids"
  shows "client_inv (s\<lparr>nextSeq := nextSeq s + 1,
           sentBatches := alist_put (nextSeq s) \<lparr>sb_ids = ids, sb_at = now\<rparr> (sentBatches s)\<rparr>)"
  using assms flight_ok_add [of "sentBatches s" "nextSeq s" ids now]
  by (simp add: client_inv_def outstanding_flight)

lemma inv_next_seq: "client_inv s \<Longrightarrow> client_inv (s\<lparr>nextSeq := nextSeq s + 1\<rparr>)"
  by (auto simp: client_inv_def flight_ok_def)

lemma unsent_keys: "x \<in> set (unsent s) \<Longrightarrow> opKey x \<notin> set (outstanding s)"
  by (simp add: unsent_def)

lemma inv_flushPending: "client_inv s \<Longrightarrow> client_inv (flushPending now s)"
proof -
  assume s: "client_inv s"
  have d: "set (remdups (map opKey batch)) \<inter> set (outstanding s) = {}" if "set batch \<subseteq> set (unsent s)" for batch
    using that unsent_keys by fastforce
  have i: "client_inv (s\<lparr>out := o', nextSeq := Suc (nextSeq s),
       sentBatches := alist_put (nextSeq s) \<lparr>sb_ids = remdups (map opKey batch), sb_at = now\<rparr> (sentBatches s)\<rparr>)"
    if "set batch \<subseteq> set (unsent s)" for batch o'
    using inv_send [OF s d [OF that]] by (simp add: client_inv_def)
  have e: "(emit x t)\<lparr>sentBatches := bs\<rparr> = emit x (t\<lparr>sentBatches := bs\<rparr>)" for x t bs
    by (simp add: emit_def)
  have j: "client_inv (s\<lparr>nextSeq := Suc (nextSeq s),
       sentBatches := alist_put (nextSeq s) \<lparr>sb_ids = remdups (map opKey batch), sb_at = now\<rparr> (sentBatches s)\<rparr>)"
    if "set batch \<subseteq> set (unsent s)" for batch
    using inv_send [OF s d [OF that]] by simp
  have "set (take k (unsent s)) \<subseteq> set (unsent s)" for k by (rule set_take_subset)
  then show ?thesis
    using s inv_next_seq [OF s] by (simp add: flushPending_def Let_def e j)
qed

section \<open>REST, composition and connection keep the invariant\<close>

lemma inv_mergeServerState: "client_inv s \<Longrightarrow> client_inv (mergeServerState data s)"
  by (simp add: mergeServerState_def Let_def inv_new_doc)

lemma inv_putReplace_done: "client_inv s \<Longrightarrow> client_inv (putReplace_done text ttl st data s)"
  by (simp add: putReplace_done_def Let_def inv_new_doc inv_mergeServerState)

lemma inv_restPoll_done: "client_inv s \<Longrightarrow> client_inv (restPoll_done data s)"
  by (simp add: restPoll_done_def inv_mergeServerState)

lemma inv_applyLoadedSnapshot: "client_inv s \<Longrightarrow> client_inv (applyLoadedSnapshot data force s)"
  by (simp add: applyLoadedSnapshot_def Let_def inv_new_doc)

lemma inv_load_done: "client_inv s \<Longrightarrow> client_inv (load_done force r s)"
  by (simp add: load_done_def inv_applyLoadedSnapshot split: option.splits)

lemma inv_compositionStart: "client_inv s \<Longrightarrow> client_inv (onCompositionStart s)"
  by (simp add: onCompositionStart_def client_inv_def wf_clone)

lemma inv_compositionEnd: "client_inv s \<Longrightarrow> client_inv (onCompositionEnd s)"
  by (simp add: onCompositionEnd_def)

lemma inv_handle_deferred: "client_inv s \<Longrightarrow> client_inv (handle_deferred now q s)"
  by (simp add: handle_deferred_def inv_handleState inv_handleRemoteOps inv_mergeServerState inv_applyLoadedSnapshot
      split: deferred.splits)

lemma inv_flushDeferred: "client_inv s \<Longrightarrow> client_inv (flushDeferredContentMessages now s)"
proof -
  have "client_inv (fold (handle_deferred now) qs t)" if "client_inv t" for qs t
    using that by (induction qs arbitrary: t) (simp_all add: inv_handle_deferred)
  then show "client_inv s \<Longrightarrow> ?thesis" by (simp add: flushDeferredContentMessages_def)
qed

lemma inv_commit_diff: "\<lbrakk>client_inv s; commit_diff now diff s = (b, t)\<rbrakk> \<Longrightarrow> client_inv t"
  by (auto simp: commit_diff_def Let_def inv_simps split: prod.splits if_splits intro: wf_apply_result)

lemma client_inv_base [simp]: "client_inv s \<Longrightarrow> client_inv (s\<lparr>compositionBaseDoc := None\<rparr>)"
  by (simp add: client_inv_def)

lemma inv_commitComposition: "client_inv s \<Longrightarrow> client_inv (commitComposition now s)"
proof -
  assume s: "client_inv s"
  have "client_inv (snd (commit_diff now diff (bumpClockFromDoc s)))" for diff
    using inv_commit_diff [of "bumpClockFromDoc s" now diff] s by (metis inv_bump(1) prod.collapse)
  then show ?thesis
    using s by (simp add: commitComposition_def Let_def split_beta inv_flushDeferred)
qed

lemma inv_ws_onmessage: "client_inv s \<Longrightarrow> client_inv (ws_onmessage n now frame s)"
  by (simp add: ws_onmessage_def Let_def inv_handleState inv_handleRemoteOps inv_handleAck split: option.splits)

lemma inv_ws_onclose: "client_inv s \<Longrightarrow> client_inv (ws_onclose n jitter s)"
  by (simp add: ws_onclose_def Let_def)

lemma client_step_inv: "client_inv s \<Longrightarrow> client_inv (client_step now jitter e s)"
  by (cases e) (simp_all add: client_step_def inv_onInput inv_onTab inv_undo inv_redo inv_compositionStart
      inv_compositionEnd inv_commitComposition flushTimer_fired_def inv_flushPending inv_putReplace_done
      inv_restPoll_done inv_load_done inv_ws_onmessage inv_ws_onclose type_into_def)

lemma reachable_inv: "reachable cid s \<Longrightarrow> client_inv s"
proof (induction rule: reachable.induct)
  case reach_init
  then show ?case by (simp add: boot_def Let_def client_inv_def initial_app_def wf_newDoc)
next
  case (reach_step s now jitter e)
  then show ?case by (simp add: client_step_inv)
qed

end
