(* ===== verification/Page.thy ===== *)
theory Page
  imports History Passwords View ClientInv
begin

text \<open>
  The page as a whole: how a settled dialog, an answered request, a key or a click reaches the handler that
  waits for it, and the dialogs Escape and Tab act on. The client of the room is a component of the page; its
  request for the edit password opens the dialog here.
\<close>

section \<open>Continuations\<close>

text \<open>The handler given to \<open>then\<close> of a dialog. A password that is \<open>null\<close> ends the flow.\<close>

definition resume :: "nat \<Rightarrow> purpose \<Rightarrow> jsstring option \<Rightarrow> page \<Rightarrow> page" where
  [js_eval]: "resume now p v s =
     (case p of
        PutRetry \<Rightarrow> on_app (putPassword_entered v) s
      | HistoryAccess k \<Rightarrow> history_access_entered k v s
      | HistoryRetry \<Rightarrow> history_retry_entered v s
      | SaveRetry nxt scope k \<Rightarrow> save_retry_entered nxt scope k v s
      | NewRoomPassword \<Rightarrow> new_password_entered v s
      | NextRoomPassword \<Rightarrow> next_password_entered v s
      | CopyPassword \<Rightarrow> copy_password_entered v s
      | EditUnlock \<Rightarrow> edit_unlock_entered v s
      | UploadAdmin files \<Rightarrow> upload_admin_entered files v s
      | UploadPassword files adm \<Rightarrow> upload_password_entered now files adm v s
      | UploadAdminRetry files pw \<Rightarrow> upload_retry_entered now files pw v s
      | ToggleUpload nxt \<Rightarrow> toggle_entered nxt v s
      | ToggleUploadRetry nxt \<Rightarrow> toggle_retry_entered nxt v s
      | Download i nm \<Rightarrow> download_entered i nm v s
      | DownloadRetry i nm \<Rightarrow> download_retry_entered i nm v s
      | Delete i nm \<Rightarrow> delete_entered i nm v s
      | DeleteRetry i nm \<Rightarrow> delete_retry_entered i nm v s)"

definition run_job :: "nat \<Rightarrow> job \<Rightarrow> page \<Rightarrow> page" where
  [js_eval]: "run_job now j s =
     (case j of
        AnswerJob p v \<Rightarrow> resume now p v s
      | ConfirmJob ClearTrail ok \<Rightarrow> if ok then doClearHistory s else s
      | AccessJob k \<Rightarrow> history_next k True s)"

text \<open>The handlers of the requests.\<close>

definition answered :: "nat \<Rightarrow> req_kind \<Rightarrow> answer \<Rightarrow> page \<Rightarrow> page" where
  [js_eval]: "answered now k ans s =
     (case k of
        HistoryList retried \<Rightarrow> fetchHistory_done retried ans s
      | HistoryCapture \<Rightarrow> capture_done ans s
      | HistoryDelete \<Rightarrow> clear_done ans s
      | SavePassword nxt cur scope kk \<Rightarrow> putEditPassword_done nxt scope kk ans s
      | VerifyPassword pw \<Rightarrow> verify_done pw ans s
      | UploadSetting nxt retried \<Rightarrow> if retried then setting_retry_done ans s else setting_done nxt ans s
      | FileListing silent \<Rightarrow> loadFiles_done silent ans s
      | FileUpload u _ \<Rightarrow> upload_done now u ans s
      | FileDownload i nm retried \<Rightarrow> if retried then download_retry_done i nm ans s else download_done i nm ans s
      | FileDelete i nm retried \<Rightarrow> if retried then delete_retry_done ans s else delete_done i nm ans s)"

section \<open>Keys\<close>

datatype dialog = ConfirmDialog | PasswordDialog | PreviewDialog | ShareDialog | HistoryDialog

definition dialog_hidden :: "dialog \<Rightarrow> page \<Rightarrow> bool" where
  [js_eval]: "dialog_hidden d s =
     (case d of ConfirmDialog \<Rightarrow> confirmModalHidden s | PasswordDialog \<Rightarrow> passwordModalHidden s
      | PreviewDialog \<Rightarrow> historyPreviewModalHidden s | ShareDialog \<Rightarrow> shareModalHidden s
      | HistoryDialog \<Rightarrow> historyModalHidden s)"

definition modalStack :: "page \<Rightarrow> dialog list" where
  [js_eval]: "modalStack s = filter (\<lambda>d. \<not> dialog_hidden d s)
     [ConfirmDialog, PasswordDialog, PreviewDialog, ShareDialog, HistoryDialog]"

text \<open>The dialog the Tab key keeps the focus in.\<close>

definition focus_trap :: "page \<Rightarrow> dialog option" where
  [js_eval]: "focus_trap s = (if modalStack s = [] then None else Some (last (modalStack s)))"

text \<open>
  The two listeners of the document for Escape, in the order they were added: that of the password dialog, then
  that of the other dialogs.
\<close>

definition escape_password :: "page \<Rightarrow> page" where
  [js_eval]: "escape_password s = (if passwordModalHidden s then s else closePasswordModal None s)"

definition escape_others :: "page \<Rightarrow> page" where
  [js_eval]: "escape_others s =
     (if \<not> confirmModalHidden s then closeConfirm False s
      else if \<not> historyPreviewModalHidden s then closeHistoryPreview s
      else if \<not> shareModalHidden s then closeShare s
      else if \<not> historyModalHidden s then closeHistory s else s)"

definition escape_key :: "page \<Rightarrow> page" where
  [js_eval]: "escape_key s = escape_others (escape_password s)"

section \<open>Steps\<close>

datatype page_event =
    Room nat event
  | Microtask
  | Answered nat answer
  | RemoteFilesFrame "bool option" "file_meta list"
  | PasswordTyped jsstring | PasswordConfirmed | PasswordDismissed | ScopePicked jsstring | Regenerated jsstring
  | ConfirmAnswered bool
  | Escape
  | PreviewToggled
  | HistoryClicked | CaptureClicked | ClearClicked | HistoryDismissed
  | PreviewClicked nat | PreviewDismissed | PreviewRestoreClicked | RestoreClicked nat
  | ShareClicked | ShareDismissed
  | ShareCopyClicked jsstring | ShareResetClicked jsstring | ShareUnlockClicked | UnlockClicked
  | FilesDropped "file_blob list" | FilesPasted "file_blob list"
  | TitleClickedThrice | FilesPolled
  | DownloadClicked jsstring jsstring | DeleteClicked jsstring jsstring

text \<open>A step of the room; when it asks for the edit password the dialog opens.\<close>

definition room_step :: "nat \<Rightarrow> nat \<Rightarrow> event \<Rightarrow> page \<Rightarrow> page" where
  [js_eval]: "room_step now jitter e s =
     (let a = client_step now jitter e (app_of s);
          asked = AskEditPassword \<in> set (drop (length (out (app_of s))) (out a));
          s1 = s\<lparr>app_of := a\<rparr>
      in if asked then askEditPassword PutRetry s1 else s1)"

definition page_step :: "nat \<Rightarrow> page_event \<Rightarrow> page \<Rightarrow> page" where
  [js_eval]: "page_step now e s =
     (case e of
        Room jitter ev \<Rightarrow> room_step now jitter ev s
      | Microtask \<Rightarrow> (case jobs s of [] \<Rightarrow> s | j # rest \<Rightarrow> run_job now j (s\<lparr>jobs := rest\<rparr>))
      | Answered i ans \<Rightarrow>
          if i < length (requests s)
          then answered now (rq_kind (requests s ! i)) ans
                 (s\<lparr>requests := take i (requests s) @ drop (Suc i) (requests s)\<rparr>)
          else s
      | RemoteFilesFrame enabled files \<Rightarrow> handleRemoteFiles enabled files s
      | PasswordTyped v \<Rightarrow> s\<lparr>modalPassword := v\<rparr>
      | PasswordConfirmed \<Rightarrow> submitPasswordModal s
      | PasswordDismissed \<Rightarrow> closePasswordModal None s
      | ScopePicked v \<Rightarrow> scope_changed v s
      | Regenerated fresh \<Rightarrow> regenerate_clicked fresh s
      | ConfirmAnswered v \<Rightarrow> closeConfirm v s
      | Escape \<Rightarrow> escape_key s
      | PreviewToggled \<Rightarrow> togglePreview s
      | HistoryClicked \<Rightarrow> guarded openHistory s
      | CaptureClicked \<Rightarrow> guarded captureHistoryManual s
      | ClearClicked \<Rightarrow> guarded clearHistoryTrail s
      | HistoryDismissed \<Rightarrow> closeHistory s
      | PreviewClicked i \<Rightarrow> openHistoryPreview i s
      | PreviewDismissed \<Rightarrow> closeHistoryPreview s
      | PreviewRestoreClicked \<Rightarrow> preview_restore now s
      | RestoreClicked i \<Rightarrow> restoreSnapshot now i s
      | ShareClicked \<Rightarrow> openShare s
      | ShareDismissed \<Rightarrow> closeShare s
      | ShareCopyClicked fresh \<Rightarrow> share_copy_clicked fresh s
      | ShareResetClicked fresh \<Rightarrow> share_reset_clicked fresh s
      | ShareUnlockClicked \<Rightarrow> share_unlock_clicked s
      | UnlockClicked \<Rightarrow> promptEditUnlock s
      | FilesDropped files \<Rightarrow> guarded (promptUploadFiles files) s
      | FilesPasted files \<Rightarrow> promptUploadFiles files s
      | TitleClickedThrice \<Rightarrow> toggleRoomFileUpload s
      | FilesPolled \<Rightarrow> loadFiles True s
      | DownloadClicked i nm \<Rightarrow> downloadFile i nm s
      | DeleteClicked i nm \<Rightarrow> deleteFile i nm s)"

definition initial_page :: "jsstring \<Rightarrow> page" where
  [js_eval]: "initial_page cid =
     \<lparr>app_of = initial_app cid, modalState = None, passwordModalHidden = True, modalPassword = [], modalError = None,
      confirmState = None, confirmModalHidden = True, shareModalHidden = True, historyModalHidden = True,
      historyPreviewModalHidden = True, historyPreviewIdx = None, historyRestoreDisabled = False,
      historySnapshots = [], historyLoading = False, roomPassModalScope = js ''edit'', fileUploadEnabled = False,
      filesPanelHidden = True, adminPass = None, filePass = None, previewVisible = False, jobs = [], requests = [],
      pageOut = []\<rparr>"

text \<open>The page when its script has run: the files are listed and the room is opened.\<close>

definition boot_page :: "nat \<Rightarrow> jsstring \<Rightarrow> jsstring option \<Rightarrow> jsstring option \<Rightarrow> jsstring \<Rightarrow> page" where
  [js_eval]: "boot_page jitter cid editPw viewPw typed =
     loadFiles False ((initial_page cid)\<lparr>app_of := boot jitter cid editPw viewPw typed\<rparr>)"

inductive page_reachable :: "jsstring \<Rightarrow> page \<Rightarrow> bool" for cid where
  page_init: "page_reachable cid (boot_page jitter cid editPw viewPw typed)"
| page_next: "page_reachable cid s \<Longrightarrow> page_reachable cid (page_step now e s)"

end
