(* ===== verification/PageInv.thy ===== *)
theory PageInv
  imports Page "HOL-Library.Multiset"
begin

text \<open>
  The invariant of the page: the room keeps its own, a dialog is shown exactly while its promise waits, the
  preview exactly while a snapshot is chosen, and an upload in flight has every file of its batch counted
  once. Prompts are settled by jobs; none is forgotten.
\<close>

section \<open>The invariant\<close>

definition upload_ok :: "upload \<Rightarrow> bool" where
  "upload_ok u \<longleftrightarrow> up_ok u + up_fail u + length (up_rest u) + 1 = length (up_files u) \<and> \<not> up_badAdmin u"

definition request_ok :: "request \<Rightarrow> bool" where
  "request_ok r \<longleftrightarrow> (case rq_kind r of FileUpload u nm \<Rightarrow> upload_ok u | _ \<Rightarrow> True)"

text \<open>The prompts that still wait: in an open dialog, or settled with their job to run.\<close>

datatype ticket = Prompt purpose | Confirm confirm_purpose

fun ticket_of :: "job \<Rightarrow> ticket list" where
  "ticket_of (AnswerJob p v) = [Prompt p]"
| "ticket_of (ConfirmJob p v) = [Confirm p]"
| "ticket_of (AccessJob k) = []"

definition ticket_count :: "job list \<Rightarrow> modal_state option \<Rightarrow> confirm_purpose option \<Rightarrow> ticket multiset" where
  "ticket_count js' m c = mset (concat (map ticket_of js')) +
     (case m of None \<Rightarrow> {#} | Some x \<Rightarrow> {#Prompt (md_purpose x)#}) +
     (case c of None \<Rightarrow> {#} | Some p \<Rightarrow> {#Confirm p#})"

definition tickets :: "page \<Rightarrow> ticket multiset" where
  "tickets s = ticket_count (jobs s) (modalState s) (confirmState s)"

lemma ticket_count_simps [simp]:
  "ticket_count [] None None = {#}"
  "ticket_count (AnswerJob p v # js') m c = add_mset (Prompt p) (ticket_count js' m c)"
  "ticket_count (ConfirmJob q b # js') m c = add_mset (Confirm q) (ticket_count js' m c)"
  "ticket_count (AccessJob k # js') m c = ticket_count js' m c"
  "ticket_count (js' @ [AnswerJob p v]) m c = add_mset (Prompt p) (ticket_count js' m c)"
  "ticket_count (js' @ [ConfirmJob q b]) m c = add_mset (Confirm q) (ticket_count js' m c)"
  "ticket_count (js' @ [AccessJob k]) m c = ticket_count js' m c"
  by (simp_all add: ticket_count_def)

lemma ticket_count_open:
  "ticket_count js' (Some x) c = add_mset (Prompt (md_purpose x)) (ticket_count js' None c)"
  "ticket_count js' m (Some q) = add_mset (Confirm q) (ticket_count js' m None)"
  by (simp_all add: ticket_count_def)

lemma sub_add [intro]: "M \<subseteq># N \<Longrightarrow> M \<subseteq># add_mset x N"
  by (metis add_mset_add_single mset_subset_eq_add_left subset_mset.order_trans)

lemma sub_job: "M \<subseteq># ticket_count js' m c \<Longrightarrow> M \<subseteq># ticket_count (js' @ [j]) m c"
  by (cases j) auto

definition page_inv :: "ticket multiset \<Rightarrow> page \<Rightarrow> bool" where
  "page_inv M s \<longleftrightarrow> client_inv (app_of s) \<and> (passwordModalHidden s \<longleftrightarrow> modalState s = None) \<and>
     (confirmModalHidden s \<longleftrightarrow> confirmState s = None) \<and>
     (historyPreviewModalHidden s \<longleftrightarrow> historyPreviewIdx s = None) \<and> list_all request_ok (requests s) \<and>
     M \<subseteq># ticket_count (jobs s) (modalState s) (confirmState s)"

section \<open>Steps keep it\<close>

lemma inv_page_emit [simp]: "page_inv M (page_emit e s) = page_inv M s"
  by (simp add: page_inv_def page_emit_def)

lemma inv_pageToast [simp]: "page_inv M (pageToast m k s) = page_inv M s"
  by (simp add: pageToast_def)

lemma inv_setFilesStatus [simp]: "page_inv M (setFilesStatus m k s) = page_inv M s"
  by (simp add: setFilesStatus_def)

lemma inv_files_error [simp]: "page_inv M (files_error m s) = page_inv M s"
  by (simp add: files_error_def)

lemma inv_queue [simp]: "page_inv M s \<Longrightarrow> page_inv M (queue_job j s)"
  by (simp add: page_inv_def queue_job_def sub_job)

lemma inv_fields [simp]:
  "page_inv M (s\<lparr>modalPassword := v\<rparr>) = page_inv M s" "page_inv M (s\<lparr>modalError := m\<rparr>) = page_inv M s"
  "page_inv M (s\<lparr>shareModalHidden := b\<rparr>) = page_inv M s" "page_inv M (s\<lparr>historyModalHidden := b\<rparr>) = page_inv M s"
  "page_inv M (s\<lparr>historySnapshots := l\<rparr>) = page_inv M s" "page_inv M (s\<lparr>historyLoading := b\<rparr>) = page_inv M s"
  "page_inv M (s\<lparr>roomPassModalScope := v\<rparr>) = page_inv M s" "page_inv M (s\<lparr>fileUploadEnabled := b\<rparr>) = page_inv M s"
  "page_inv M (s\<lparr>filesPanelHidden := b\<rparr>) = page_inv M s" "page_inv M (s\<lparr>adminPass := p\<rparr>) = page_inv M s"
  "page_inv M (s\<lparr>filePass := p\<rparr>) = page_inv M s" "page_inv M (s\<lparr>previewVisible := b\<rparr>) = page_inv M s"
  by (simp_all add: page_inv_def)

lemma inv_app: "page_inv M s \<Longrightarrow> client_inv a \<Longrightarrow> page_inv M (s\<lparr>app_of := a\<rparr>)"
  by (simp add: page_inv_def)

lemma inv_on_app: "page_inv M s \<Longrightarrow> (\<And>a. client_inv a \<Longrightarrow> client_inv (f a)) \<Longrightarrow> page_inv M (on_app f s)"
  by (simp add: page_inv_def on_app_def)

lemma inv_send_request: "page_inv M s \<Longrightarrow> request_ok r \<Longrightarrow> page_inv M (send_request r s)"
  by (simp add: send_request_def) (simp add: page_inv_def)

lemma inv_send_other [simp]:
  "page_inv M s \<Longrightarrow> \<forall>u nm. rq_kind r \<noteq> FileUpload u nm \<Longrightarrow> page_inv M (send_request r s)"
  by (rule inv_send_request) (auto simp: request_ok_def split: req_kind.splits)

lemma inv_remember [simp]:
  "page_inv M (rememberAdminPassword p s) = page_inv M s" "page_inv M (rememberFilePassword p s) = page_inv M s"
  by (simp_all add: rememberAdminPassword_def rememberFilePassword_def)

lemma inv_keep_entered [simp]: "page_inv M s \<Longrightarrow> page_inv M (keep_entered p s)"
  by (simp add: keep_entered_def inv_on_app Let_def)

lemma inv_ask [simp]: "page_inv M s \<Longrightarrow> page_inv M (askPassword p o' s)"
  by (auto simp: askPassword_def Let_def page_inv_def queue_job_def ticket_count_open(1) split: option.splits)

lemma inv_askEdit [simp]: "page_inv M s \<Longrightarrow> page_inv M (askEditPassword p s)"
  by (simp add: askEditPassword_def)

lemma inv_submit: "page_inv M s \<Longrightarrow> page_inv M (submitPasswordModal s)"
  by (auto simp: submitPasswordModal_def page_inv_def queue_job_def ticket_count_open(1) split: option.splits)

lemma inv_close: "page_inv M s \<Longrightarrow> page_inv M (closePasswordModal v s)"
  by (auto simp: closePasswordModal_def page_inv_def queue_job_def ticket_count_open(1) split: option.splits)

lemma inv_confirm [simp]: "page_inv M s \<Longrightarrow> page_inv M (confirmAction p s)"
  by (auto simp: confirmAction_def Let_def page_inv_def queue_job_def ticket_count_open(2) split: option.splits)

lemma inv_closeConfirm: "page_inv M s \<Longrightarrow> page_inv M (closeConfirm v s)"
  by (auto simp: closeConfirm_def page_inv_def queue_job_def ticket_count_open(2) split: option.splits)

lemma inv_scope: "page_inv M s \<Longrightarrow> page_inv M (scope_changed v s)"
  by (simp add: scope_changed_def split: option.splits)

lemma inv_block: "page_inv M s \<Longrightarrow> blockWhenReadOnly (app_of s) = (b, a) \<Longrightarrow> page_inv M (s\<lparr>app_of := a\<rparr>)"
  by (auto simp: blockWhenReadOnly_def page_inv_def split: if_splits)

lemma block_False: "blockWhenReadOnly a = (False, a') \<Longrightarrow> a' = a"
  by (auto simp: blockWhenReadOnly_def split: if_splits)

lemma inv_guarded: "page_inv M s \<Longrightarrow> (\<And>t. page_inv M t \<Longrightarrow> page_inv M (f t)) \<Longrightarrow> page_inv M (guarded f s)"
  by (auto simp: guarded_def intro: inv_block split: prod.splits bool.splits)

section \<open>History\<close>

lemma inv_show_history [simp]: "page_inv M (show_history s) = page_inv M s"
  by (simp add: show_history_def)

lemma inv_payload [simp]: "page_inv M (applyHistoryPayload data s) = page_inv M s"
  by (simp add: applyHistoryPayload_def)

lemma inv_closePreview [simp]: "page_inv M s \<Longrightarrow> page_inv M (closeHistoryPreview s)"
  by (simp add: closeHistoryPreview_def page_inv_def)

lemma inv_closeHistory [simp]: "page_inv M s \<Longrightarrow> page_inv M (closeHistory s)"
  by (simp add: closeHistory_def)

lemma inv_openPreview: "page_inv M s \<Longrightarrow> page_inv M (openHistoryPreview i s)"
  by (simp add: openHistoryPreview_def page_inv_def)

lemma inv_history_request [simp]:
  "page_inv M s \<Longrightarrow> \<forall>u nm. k \<noteq> FileUpload u nm \<Longrightarrow> page_inv M (history_request k s)"
  by (simp add: history_request_def)

lemma inv_fetchHistory [simp]: "page_inv M s \<Longrightarrow> page_inv M (fetchHistory r s)"
  by (simp add: fetchHistory_def)

lemma inv_history_next [simp]: "page_inv M s \<Longrightarrow> page_inv M (history_next k ok s)"
  by (simp add: history_next_def split: hist_next.splits)

lemma inv_ensure [simp]: "page_inv M s \<Longrightarrow> page_inv M (ensureHistoryPassword k s)"
  by (simp add: ensureHistoryPassword_def)

lemma inv_history_entered:
  "page_inv M s \<Longrightarrow> page_inv M (history_access_entered k v s)" "page_inv M s \<Longrightarrow> page_inv M (history_retry_entered v s)"
  by (simp_all add: history_access_entered_def history_retry_entered_def)

lemma inv_history_failed [simp]: "page_inv M (history_failed s) = page_inv M s"
  by (simp add: history_failed_def Let_def)

lemma inv_history_done:
  "page_inv M s \<Longrightarrow> page_inv M (fetchHistory_done r ans s)" "page_inv M s \<Longrightarrow> page_inv M (capture_done ans s)"
  "page_inv M s \<Longrightarrow> page_inv M (clear_done ans s)"
  by (simp_all add: fetchHistory_done_def capture_done_def clear_done_def Let_def split: answer.splits body.splits)

lemma inv_history_clicks:
  "page_inv M s \<Longrightarrow> page_inv M (openHistory s)" "page_inv M s \<Longrightarrow> page_inv M (clearHistoryTrail s)"
  "page_inv M s \<Longrightarrow> page_inv M (doClearHistory s)"
  by (simp_all add: openHistory_def clearHistoryTrail_def doClearHistory_def)

lemma inv_capture: "page_inv M s \<Longrightarrow> page_inv M (captureHistoryManual s)"
  by (auto simp: captureHistoryManual_def Let_def inv_block split: prod.splits bool.splits)

lemma inv_restore: "page_inv M s \<Longrightarrow> page_inv M (restoreSnapshot now i s)"
proof -
  assume s: "page_inv M s"
  then have "client_inv (applyLocalText now v (app_of s))" for v by (simp add: page_inv_def inv_applyLocalText)
  then have "page_inv M (s\<lparr>app_of := applyLocalText now v (app_of s)\<rparr>)" for v by (rule inv_app [OF s])
  moreover have "client_inv (updateUndoButtons (scheduleCursorSend (emit RenderCursors (onLocalTextChanged x y
      (paint y z (applyLocalText now v (app_of s)))))))" for v x y z
    using s by (simp add: page_inv_def inv_applyLocalText)
  then have "page_inv M (s\<lparr>app_of := updateUndoButtons (scheduleCursorSend (emit RenderCursors (onLocalTextChanged x y
      (paint y z (applyLocalText now v (app_of s))))))\<rparr>)" for v x y z by (rule inv_app [OF s])
  ultimately show ?thesis using s inv_block [OF s]
    by (auto simp: restoreSnapshot_def Let_def dest: block_False split: prod.splits bool.splits)
qed

lemma inv_preview_restore: "page_inv M s \<Longrightarrow> page_inv M (preview_restore now s)"
  using inv_block [of M s]
  by (auto simp: preview_restore_def inv_restore split: option.splits prod.splits bool.splits)

section \<open>Passwords\<close>

lemma inv_password_saved [simp]: "page_inv M s \<Longrightarrow> page_inv M (password_saved k ok s)"
  by (simp add: password_saved_def inv_on_app Let_def split: save_next.splits)

lemma inv_put [simp]: "page_inv M s \<Longrightarrow> page_inv M (putEditPassword a b c k s)"
  by (simp add: putEditPassword_def)

lemma inv_save [simp]: "page_inv M s \<Longrightarrow> page_inv M (saveEditPassword a b c k s)"
  by (simp add: saveEditPassword_def)

lemma inv_put_done: "page_inv M s \<Longrightarrow> page_inv M (putEditPassword_done a b k ans s)"
  by (simp add: putEditPassword_done_def split: answer.splits)

lemma inv_pick [simp]: "page_inv M (pick_scope s) = page_inv M s"
  by (simp add: pick_scope_def)

lemma inv_password_entered:
  "page_inv M s \<Longrightarrow> page_inv M (save_retry_entered a b k v s)" "page_inv M s \<Longrightarrow> page_inv M (new_password_entered v s)"
  "page_inv M s \<Longrightarrow> page_inv M (next_password_entered v s)" "page_inv M s \<Longrightarrow> page_inv M (copy_password_entered v s)"
  "page_inv M s \<Longrightarrow> page_inv M (edit_unlock_entered v s)"
  by (simp_all add: save_retry_entered_def new_password_entered_def next_password_entered_def Let_def
      copy_password_entered_def edit_unlock_entered_def inv_on_app)

lemma inv_verify_done: "page_inv M s \<Longrightarrow> page_inv M (verify_done pw ans s)"
  by (simp add: verify_done_def split: answer.splits)

lemma inv_password_clicks:
  "page_inv M s \<Longrightarrow> page_inv M (setRoomPassword f s)" "page_inv M s \<Longrightarrow> page_inv M (changeRoomPassword f s)"
  "page_inv M s \<Longrightarrow> page_inv M (unlockRoom s)" "page_inv M s \<Longrightarrow> page_inv M (promptEditUnlock s)"
  "page_inv M s \<Longrightarrow> page_inv M (regenerate_clicked f s)" "page_inv M s \<Longrightarrow> page_inv M (openShare s)"
  "page_inv M s \<Longrightarrow> page_inv M (closeShare s)"
  by (simp_all add: setRoomPassword_def changeRoomPassword_def unlockRoom_def promptEditUnlock_def
      regenerate_clicked_def openShare_def closeShare_def Let_def)

lemma inv_share_clicks:
  "page_inv M s \<Longrightarrow> page_inv M (share_copy_clicked f s)" "page_inv M s \<Longrightarrow> page_inv M (share_reset_clicked f s)"
  "page_inv M s \<Longrightarrow> page_inv M (share_unlock_clicked s)"
  unfolding share_copy_clicked_def share_reset_clicked_def share_unlock_clicked_def
  by (erule inv_guarded, simp add: inv_password_clicks)+

section \<open>Files\<close>

lemma inv_panel [simp]:
  "page_inv M (setFilesPanelVisible b s) = page_inv M s" "page_inv M (setFileUploadEnabled b s) = page_inv M s"
  "page_inv M (renderFileList l s) = page_inv M s"
  by (simp_all add: setFilesPanelVisible_def setFileUploadEnabled_def renderFileList_def)

lemma inv_loadFiles [simp]: "page_inv M s \<Longrightarrow> page_inv M (loadFiles b s)"
  by (simp add: loadFiles_def)

lemma inv_loadFiles_done: "page_inv M s \<Longrightarrow> page_inv M (loadFiles_done b ans s)"
  by (simp add: loadFiles_done_def Let_def split: answer.splits body.splits option.splits)

lemma inv_remote_files: "page_inv M s \<Longrightarrow> page_inv M (handleRemoteFiles e l s)"
  by (simp add: handleRemoteFiles_def Let_def split: option.splits)

lemma inv_setting:
  "page_inv M s \<Longrightarrow> page_inv M (toggleRoomFileUpload s)" "page_inv M s \<Longrightarrow> page_inv M (toggle_entered b v s)"
  "page_inv M s \<Longrightarrow> page_inv M (toggle_retry_entered b v s)" "page_inv M s \<Longrightarrow> page_inv M (setting_changed d s)"
  "page_inv M s \<Longrightarrow> page_inv M (toggle_failed b m s)"
  by (simp_all add: toggleRoomFileUpload_def toggle_entered_def toggle_retry_entered_def setting_request_def
      setting_changed_def toggle_failed_def Let_def)

lemma inv_setting_done:
  "page_inv M s \<Longrightarrow> page_inv M (setting_done b ans s)" "page_inv M s \<Longrightarrow> page_inv M (setting_retry_done ans s)"
  by (simp_all add: setting_done_def setting_retry_done_def Let_def inv_setting split: answer.splits body.splits)

lemma inv_finish [simp]: "page_inv M s \<Longrightarrow> page_inv M (finish_upload u s)"
  by (simp add: finish_upload_def Let_def)

lemma inv_upload_next:
  "page_inv M s \<Longrightarrow> up_ok u + up_fail u + length (up_rest u) = length (up_files u) \<Longrightarrow> page_inv M (upload_next now u s)"
  by (auto simp: upload_next_def split: list.splits intro!: inv_send_request) (simp_all add: request_ok_def upload_ok_def)

lemma inv_upload_done: "page_inv M s \<Longrightarrow> upload_ok u \<Longrightarrow> page_inv M (upload_done now u ans s)"
  by (auto simp: upload_done_def Let_def upload_ok_def intro!: inv_upload_next split: option.splits)

lemma inv_upload_start: "page_inv M s \<Longrightarrow> page_inv M (uploadFilesWithPasswords now fs a p s)"
  by (simp add: uploadFilesWithPasswords_def Let_def inv_upload_next)

lemma inv_upload_prompts:
  "page_inv M s \<Longrightarrow> page_inv M (promptUploadFiles fs s)" "page_inv M s \<Longrightarrow> page_inv M (upload_admin_entered fs v s)"
  "page_inv M s \<Longrightarrow> page_inv M (upload_password_entered now fs a v s)"
  "page_inv M s \<Longrightarrow> page_inv M (upload_retry_entered now fs a v s)"
  by (simp_all add: promptUploadFiles_def upload_admin_entered_def upload_password_entered_def
      upload_retry_entered_def inv_upload_start)

lemma inv_download:
  "page_inv M s \<Longrightarrow> page_inv M (downloadFile i n s)" "page_inv M s \<Longrightarrow> page_inv M (download_entered i n v s)"
  "page_inv M s \<Longrightarrow> page_inv M (download_retry_entered i n v s)" "page_inv M s \<Longrightarrow> page_inv M (download_failed i n m s)"
  "page_inv M s \<Longrightarrow> page_inv M (save_blob n s)" "page_inv M s \<Longrightarrow> page_inv M (snd (download_refused bd s))"
  by (simp_all add: downloadFile_def download_entered_def download_retry_entered_def download_failed_def
      save_blob_def download_refused_def Let_def split: body.splits)

lemma inv_download_refused: "page_inv M s \<Longrightarrow> download_refused bd s = (m, t) \<Longrightarrow> page_inv M t"
  using inv_download(6) [of M s bd] by simp

lemma inv_download_done:
  "page_inv M s \<Longrightarrow> page_inv M (download_done i n ans s)" "page_inv M s \<Longrightarrow> page_inv M (download_retry_done i n ans s)"
  using inv_download_refused [of M s]
  by (auto simp: download_done_def download_retry_done_def inv_download split: answer.splits prod.splits)

lemma inv_delete:
  "page_inv M s \<Longrightarrow> page_inv M (deleteFile i n s)" "page_inv M s \<Longrightarrow> page_inv M (delete_entered i n v s)"
  "page_inv M s \<Longrightarrow> page_inv M (delete_retry_entered i n v s)" "page_inv M s \<Longrightarrow> page_inv M (delete_failed i n m s)"
  "page_inv M s \<Longrightarrow> page_inv M (file_deleted s)" "page_inv M s \<Longrightarrow> page_inv M (snd (delete_refused bd s))"
  by (simp_all add: deleteFile_def delete_entered_def delete_retry_entered_def delete_failed_def delete_request_def
      file_deleted_def delete_refused_def Let_def split: body.splits)

lemma inv_delete_refused: "page_inv M s \<Longrightarrow> delete_refused bd s = (m, t) \<Longrightarrow> page_inv M t"
  using inv_delete(6) [of M s bd] by simp

lemma inv_delete_done:
  "page_inv M s \<Longrightarrow> page_inv M (delete_done i n ans s)" "page_inv M s \<Longrightarrow> page_inv M (delete_retry_done ans s)"
  using inv_delete_refused [of M s]
  by (auto simp: delete_done_def delete_retry_done_def inv_delete split: answer.splits prod.splits)

section \<open>The page\<close>

lemma inv_resume: "page_inv M s \<Longrightarrow> page_inv M (resume now p v s)"
  by (simp add: resume_def inv_on_app inv_history_entered inv_password_entered inv_upload_prompts inv_setting
      inv_download inv_delete split: purpose.splits)

lemma inv_run_job: "page_inv M s \<Longrightarrow> page_inv M (run_job now j s)"
  by (simp add: run_job_def inv_resume inv_history_clicks split: job.splits confirm_purpose.splits)

lemma inv_answered: "page_inv M s \<Longrightarrow> request_ok r \<Longrightarrow> page_inv M (answered now (rq_kind r) ans s)"
  by (simp add: answered_def inv_history_done inv_put_done inv_verify_done inv_setting_done inv_loadFiles_done
      inv_upload_done inv_download_done inv_delete_done request_ok_def split: req_kind.splits)

lemma inv_room_step: "page_inv M s \<Longrightarrow> page_inv M (room_step now jitter e s)"
  by (simp add: room_step_def Let_def inv_app client_step_inv page_inv_def [of M s])

lemma inv_answer:
  assumes "page_inv M s" "i < length (requests s)"
  shows "page_inv M (answered now (rq_kind (requests s ! i)) ans
    (s\<lparr>requests := take i (requests s) @ drop (Suc i) (requests s)\<rparr>))"
proof (rule inv_answered)
  have "list_all request_ok (requests s)" using assms(1) by (simp add: page_inv_def)
  then show "request_ok (requests s ! i)" using assms(2) by (simp add: list_all_iff)
  from \<open>list_all request_ok (requests s)\<close>
  have "list_all request_ok (take i (requests s) @ drop (Suc i) (requests s))"
    by (auto simp: list_all_iff dest: in_set_takeD in_set_dropD)
  then show "page_inv M (s\<lparr>requests := take i (requests s) @ drop (Suc i) (requests s)\<rparr>)"
    using assms(1) by (simp add: page_inv_def)
qed

lemma inv_escape: "page_inv M s \<Longrightarrow> page_inv M (escape_key s)"
proof -
  assume "page_inv M s"
  then have "page_inv M (escape_password s)" by (simp add: escape_password_def inv_close)
  then show ?thesis
    by (simp add: escape_key_def escape_others_def inv_closeConfirm inv_password_clicks)
qed

lemma page_step_inv:
  assumes "page_inv M s" "e \<noteq> Microtask"
  shows "page_inv M (page_step now e s)"
  using assms
  by (cases e) (simp_all add: page_step_def inv_room_step inv_answer inv_remote_files inv_submit inv_close
      inv_scope inv_password_clicks inv_closeConfirm inv_escape inv_guarded inv_history_clicks inv_capture inv_openPreview togglePreview_def
      inv_preview_restore inv_restore inv_share_clicks inv_upload_prompts inv_setting inv_download inv_delete
      split: list.splits)

text \<open>A microtask uses up the ticket of its job.\<close>

lemma microtask_inv:
  assumes "page_inv M s" "jobs s = j # rest"
  shows "page_inv (M - mset (ticket_of j)) (page_step now Microtask s)"
proof -
  have "M - mset (ticket_of j) \<subseteq># ticket_count rest (modalState s) (confirmState s)"
    using assms by (cases j) (simp_all add: page_inv_def subset_eq_diff_conv)
  then have "page_inv (M - mset (ticket_of j)) (s\<lparr>jobs := rest\<rparr>)"
    using assms(1) by (simp add: page_inv_def)
  then show ?thesis by (simp add: page_step_def assms(2) inv_run_job)
qed

lemma boot_inv: "client_inv (boot jitter cid e v typed)"
  by (simp add: boot_def Let_def client_inv_def initial_app_def wf_newDoc)

lemma page_reachable_inv: "page_reachable cid s \<Longrightarrow> page_inv {#} s"
proof (induction rule: page_reachable.induct)
  case (page_init jitter editPw viewPw typed)
  show ?case unfolding boot_page_def
    by (rule inv_loadFiles) (simp add: page_inv_def initial_page_def boot_inv)
next
  case (page_next s now e)
  show ?case
  proof (cases "e = Microtask")
    case False
    then show ?thesis using page_next page_step_inv by blast
  next
    case True
    show ?thesis
    proof (cases "jobs s")
      case Nil
      then show ?thesis using True page_next by (simp add: page_step_def)
    next
      case (Cons j rest)
      then show ?thesis using True microtask_inv [OF page_next.IH Cons, of now] by simp
    qed
  qed
qed

lemma no_ticket_lost:
  assumes "page_inv {#} s" "e \<noteq> Microtask"
  shows "tickets s \<subseteq># tickets (page_step now e s)"
proof -
  have "page_inv (tickets s) s" using assms(1) by (simp add: page_inv_def tickets_def)
  from page_step_inv [OF this assms(2)] show ?thesis by (simp add: page_inv_def tickets_def)
qed

lemma microtask_ticket:
  assumes "page_inv {#} s" "jobs s = j # rest"
  shows "tickets s - mset (ticket_of j) \<subseteq># tickets (page_step now Microtask s)"
proof -
  have "page_inv (tickets s) s" using assms(1) by (simp add: page_inv_def tickets_def)
  from microtask_inv [OF this assms(2)] show ?thesis by (simp add: page_inv_def tickets_def)
qed

end
