(* ===== verification/CrdtSpec.thy ===== *)
theory CrdtSpec
  imports CrdtCanon
begin

text \<open>
  What a document is, without its child lists and its traversal: a map from identifiers to atoms. The
  operations change the map only; the order of the text is given by the branch of each atom, the identifiers from
  the root down to it, compared position by position with \<open>compareSibling\<close>, an atom before its descendants.
  The documents of \<open>CrdtDoc\<close> refine this specification.
\<close>

section \<open>Specification\<close>

type_synonym atoms = "jsstring \<Rightarrow> item option"

definition atoms_insert :: "atoms \<Rightarrow> jsstring \<Rightarrow> jsstring \<Rightarrow> jsstring \<Rightarrow> atoms \<times> (crdt_error + bool)" where
  [js_eval]: "atoms_insert m i a c =
     (if parseID i = None then (m, Inl InvalidId)
      else if \<not> singleCodePoint c then (m, Inl BadChar)
      else if m i \<noteq> None then (m, Inr False)
      else if a \<noteq> [] \<and> m a = None then (m, Inl UnknownParent)
      else (m(i \<mapsto> \<lparr>it_id = i, it_after = a, it_ch = c, it_del = False\<rparr>), Inr True))"

definition atoms_delete :: "atoms \<Rightarrow> jsstring \<Rightarrow> atoms \<times> (crdt_error + bool)" where
  [js_eval]: "atoms_delete m i =
     (case m i of
        None \<Rightarrow> (m, Inr False)
      | Some it \<Rightarrow> if it_del it then (m, Inr False) else (m(i \<mapsto> it\<lparr>it_del := True\<rparr>), Inr True))"

definition atoms_apply :: "atoms \<Rightarrow> crdt_op \<Rightarrow> atoms \<times> (crdt_error + bool)" where
  [js_eval]: "atoms_apply m x =
     (if op_kind x = [] then (m, Inl BadOp)
      else if op_kind x = js ''ins'' then atoms_insert m (op_id x) (op_after x) (op_ch x)
      else if op_kind x = js ''del'' then
        (if parseID (op_id x) = None then (m, Inl InvalidId) else atoms_delete m (op_id x))
      else (m, Inl UnknownOp))"

fun atoms_loop :: "atoms \<Rightarrow> crdt_op list \<Rightarrow> nat \<Rightarrow> bool \<Rightarrow> atoms \<times> batch_result" where
  "atoms_loop m [] k changed = (m, BatchOk changed)"
| "atoms_loop m (x # xs) k changed =
     (case atoms_apply m x of
        (m', Inl e) \<Rightarrow> (m', BatchErr e changed (Some k))
      | (m', Inr c) \<Rightarrow> atoms_loop m' xs (Suc k) (changed \<or> c))"

definition atoms_batch :: "atoms \<Rightarrow> crdt_op list \<Rightarrow> atoms \<times> batch_result" where
  [js_eval]: "atoms_batch m ops = (if ops = [] then (m, BatchErr EmptyOps False None) else atoms_loop m ops 0 False)"

inductive branch :: "atoms \<Rightarrow> jsstring \<Rightarrow> jsstring list \<Rightarrow> bool" for m where
  branch_root: "\<lbrakk>m i = Some it; it_after it = []\<rbrakk> \<Longrightarrow> branch m i [i]"
| branch_child: "\<lbrakk>m i = Some it; it_after it \<noteq> []; branch m (it_after it) p\<rbrakk> \<Longrightarrow> branch m i (p @ [i])"

fun branch_less :: "jsstring list \<Rightarrow> jsstring list \<Rightarrow> bool" where
  "branch_less p [] = False"
| "branch_less [] (j # q) = True"
| "branch_less (i # p) (j # q) = (compareSibling i j < 0 \<or> i = j \<and> branch_less p q)"

definition comes_before :: "atoms \<Rightarrow> jsstring \<Rightarrow> jsstring \<Rightarrow> bool" where
  "comes_before m i j \<longleftrightarrow> (\<exists>p q. branch m i p \<and> branch m j q \<and> branch_less p q)"

text \<open>\<open>listing m is\<close>: all atoms in their order. \<open>reads m t\<close>: the text of those not deleted.\<close>

definition listing :: "atoms \<Rightarrow> jsstring list \<Rightarrow> bool" where
  "listing m xs \<longleftrightarrow> set xs = dom m \<and> sorted_wrt (comes_before m) xs"

definition reads :: "atoms \<Rightarrow> jsstring \<Rightarrow> bool" where
  "reads m t \<longleftrightarrow> (\<exists>xs. listing m xs \<and>
     t = concat (map (\<lambda>i. it_ch (the (m i))) (filter (\<lambda>i. \<not> it_del (the (m i))) xs)))"

section \<open>Branches\<close>

lemma branch_unique: "\<lbrakk>branch m i p; branch m i q\<rbrakk> \<Longrightarrow> p = q"
proof (induction arbitrary: q rule: branch.induct)
  case (branch_root i it)
  from branch_root.prems show ?case
  proof cases
    case (branch_child it' p')
    with branch_root.hyps show ?thesis by simp
  qed simp
next
  case (branch_child i it p)
  from branch_child.prems show ?case
  proof cases
    case (branch_root it')
    with branch_child.hyps show ?thesis by simp
  next
    case (branch_child it' p')
    then have "it' = it" using \<open>m i = Some it\<close> by simp
    with branch_child branch_child.IH show ?thesis by simp
  qed
qed

lemma branch_item: "branch m i p \<Longrightarrow> \<exists>it. m i = Some it"
  by (induction rule: branch.induct) simp_all

lemma branch_ids: "branch m i p \<Longrightarrow> set p \<subseteq> dom m"
  by (induction rule: branch.induct) auto

lemma branch_less_asym:
  "\<lbrakk>branch_less p q; set p \<union> set q \<subseteq> Collect canonical_id\<rbrakk> \<Longrightarrow> \<not> branch_less q p"
proof (induction p q rule: branch_less.induct)
  case (3 i p j q)
  then show ?case using sib.cmp_asym [of i j] sib.cmp_refl by auto
qed simp_all

text \<open>Branches that part at siblings: what extends the one comes before what extends the other.\<close>

definition parted :: "jsstring list \<Rightarrow> jsstring list \<Rightarrow> bool" where
  "parted p q \<longleftrightarrow> (\<exists>c a b p' q'. p = c @ a # p' \<and> q = c @ b # q' \<and> compareSibling a b < 0)"

lemma parted_less: "parted p q \<Longrightarrow> branch_less (p @ r) (q @ r')"
proof -
  have "compareSibling a b < 0 \<Longrightarrow> branch_less (c @ a # x) (c @ b # y)" for a b c x y
    by (induction c) simp_all
  then show "parted p q \<Longrightarrow> branch_less (p @ r) (q @ r')" by (auto simp: parted_def)
qed

lemma partedI: "compareSibling a b < 0 \<Longrightarrow> parted (c @ a # p) (c @ b # q)"
  unfolding parted_def by blast

lemma parted_extend: "parted p q \<Longrightarrow> parted (p @ r) q"
  unfolding parted_def by (metis append.assoc append_Cons)

lemma branch_less_extend: "branch_less p (p @ k # r)"
  by (induction p) simp_all

lemma branch_kid:
  assumes "canonical_doc d" "branch (get_item d) i p" "k \<in> set (kids d i)"
  shows "branch (get_item d) k (p @ [k])"
proof -
  obtain it where it: "get_item d k = Some it" "it_after it = i"
    using assms(1,3) canonical_kids(1) by auto
  have "i \<noteq> []"
    using branch_item [OF assms(2)] wf_get_item [OF canonical_wf [OF assms(1)]] by fastforce
  then show ?thesis using it assms(2) by (auto intro: branch_child)
qed

lemma branch_top:
  "\<lbrakk>canonical_doc d; k \<in> set (kids d [])\<rbrakk> \<Longrightarrow> branch (get_item d) k [k]"
  using canonical_kids(1) by (auto intro: branch_root)

section \<open>The traversal lists the atoms in their order\<close>

definition below :: "doc \<Rightarrow> jsstring \<Rightarrow> jsstring \<Rightarrow> bool" where
  "below d s j \<longleftrightarrow> (\<exists>p r. branch (get_item d) s p \<and> branch (get_item d) j (p @ r))"

definition apart :: "doc \<Rightarrow> jsstring \<Rightarrow> jsstring \<Rightarrow> bool" where
  "apart d i j \<longleftrightarrow> (\<exists>p q. branch (get_item d) i p \<and> branch (get_item d) j q \<and> parted p q)"

lemma apart_branch: "\<lbrakk>apart d i j; branch (get_item d) i p; branch (get_item d) j q\<rbrakk> \<Longrightarrow> parted p q"
  using branch_unique unfolding apart_def by blast

lemma kids_apart:
  assumes c: "canonical_doc d" and p: "branch (get_item d) i p"
  shows "sorted_wrt (apart d) (kids d i)"
proof -
  have "sorted_wrt (\<lambda>a b. compareSibling a b < 0) (kids d i)" by (rule canonical_kids(2) [OF c])
  then show ?thesis
  proof (rule sorted_wrt_mono_rel [rotated])
    fix a b assume ab: "a \<in> set (kids d i)" "b \<in> set (kids d i)" "compareSibling a b < 0"
    then have "parted (p @ [a]) (p @ [b])" by (intro partedI)
    then show "apart d a b" unfolding apart_def using branch_kid [OF c p] ab by blast
  qed
qed

lemma top_apart:
  assumes c: "canonical_doc d"
  shows "sorted_wrt (apart d) (kids d [])"
proof -
  have "sorted_wrt (\<lambda>a b. compareSibling a b < 0) (kids d [])" by (rule canonical_kids(2) [OF c])
  then show ?thesis
  proof (rule sorted_wrt_mono_rel [rotated])
    fix a b assume ab: "a \<in> set (kids d [])" "b \<in> set (kids d [])" "compareSibling a b < 0"
    then have "parted [a] [b]" using partedI [of a b "[]"] by simp
    then show "apart d a b" unfolding apart_def using branch_top [OF c] ab by blast
  qed
qed

lemma kid_apart:
  assumes c: "canonical_doc d" and p: "branch (get_item d) i p" and k: "k \<in> set (kids d i)" and ap: "apart d i s"
  shows "apart d k s"
proof -
  obtain q where q: "branch (get_item d) s q" using ap by (auto simp: apart_def)
  have "parted (p @ [k]) q" using apart_branch [OF ap p q] by (rule parted_extend)
  then show ?thesis using branch_kid [OF c p k] q unfolding apart_def by blast
qed

lemma below_kid:
  assumes c: "canonical_doc d" and p: "branch (get_item d) i p" and k: "k \<in> set (kids d i)" and b: "below d k j"
  shows "comes_before (get_item d) i j \<and> below d i j"
proof -
  obtain q r where "branch (get_item d) k q" "branch (get_item d) j (q @ r)" using b by (auto simp: below_def)
  then have "branch (get_item d) j (p @ k # r)" using branch_unique branch_kid [OF c p k] by fastforce
  then show ?thesis using p branch_less_extend unfolding below_def comes_before_def by blast
qed

lemma below_apart:
  assumes p: "branch (get_item d) i p" and ap: "apart d i s" and b: "below d s j"
  shows "comes_before (get_item d) i j"
proof -
  obtain q r where q: "branch (get_item d) s q" "branch (get_item d) j (q @ r)" using b by (auto simp: below_def)
  have "branch_less p (q @ r)" using parted_less [OF apart_branch [OF ap p q(1)], of "[]"] by simp
  then show ?thesis using p q(2) unfolding comes_before_def by blast
qed

lemma walks_sorted:
  assumes "walks d st out" and c: "canonical_doc d"
    and "sorted_wrt (apart d) st" "\<forall>s\<in>set st. \<exists>p. branch (get_item d) s p"
  shows "sorted_wrt (comes_before (get_item d)) (map it_id out) \<and> (\<forall>x\<in>set out. \<exists>s\<in>set st. below d s (it_id x))"
  using assms(1,3,4)
proof (induction rule: walks.induct)
  case (walks_item i it st out)
  obtain p where p: "branch (get_item d) i p" using walks_item.prems(2) by auto
  have id: "it_id it = i" using canonical_item [OF c walks_item.hyps(1)] by simp
  have ap: "apart d i s" if "s \<in> set st" for s using walks_item.prems(1) that by simp
  have "sorted_wrt (apart d) (kids d i @ st)"
    using kids_apart [OF c p] walks_item.prems(1) kid_apart [OF c p] by (simp add: sorted_wrt_append)
  moreover have "\<forall>s\<in>set (kids d i @ st). \<exists>p. branch (get_item d) s p"
    using walks_item.prems(2) branch_kid [OF c p] by fastforce
  ultimately have IH: "sorted_wrt (comes_before (get_item d)) (map it_id out)"
    "\<forall>x\<in>set out. \<exists>s\<in>set (kids d i @ st). below d s (it_id x)"
    using walks_item.IH by blast+
  have "comes_before (get_item d) i (it_id x) \<and> (\<exists>s\<in>set (i # st). below d s (it_id x))" if x: "x \<in> set out" for x
  proof -
    obtain s where s: "s \<in> set (kids d i @ st)" "below d s (it_id x)" using IH(2) x by blast
    show ?thesis
    proof (cases "s \<in> set (kids d i)")
      case True
      then show ?thesis using below_kid [OF c p True s(2)] by simp
    next
      case False
      then have "s \<in> set st" using s(1) by simp
      then show ?thesis using below_apart [OF p ap s(2)] s(2) by auto
    qed
  qed
  moreover have "below d i i" using p unfolding below_def by (intro exI [of _ p] exI [of _ "[]"]) simp
  ultimately show ?case using IH(1) id by auto
qed auto

lemma order_listing: "canonical_doc d \<Longrightarrow> listing (get_item d) (order d)"
proof -
  assume c: "canonical_doc d"
  have "sorted_wrt (comes_before (get_item d)) (map it_id (walk d []))"
    using walks_sorted [OF walks_walk [OF canonical_wf [OF c]] c top_apart [OF c]] branch_top [OF c] by blast
  moreover have "set (order d) = dom (get_item d)"
    unfolding canonical_order [OF c] by (intro set_eqI) (simp add: doc_ids_get_item domIff)
  ultimately show ?thesis by (simp add: listing_def order_def)
qed

lemma comes_before_asym:
  assumes "\<forall>i. m i \<noteq> None \<longrightarrow> canonical_id i" "comes_before m i j"
  shows "\<not> comes_before m j i"
proof
  assume "comes_before m j i"
  then obtain p q where pq: "branch m i p" "branch m j q" "branch_less p q" "branch_less q p"
    using assms(2) branch_unique unfolding comes_before_def by blast
  moreover have "set p \<union> set q \<subseteq> Collect canonical_id"
    using branch_ids [OF pq(1)] branch_ids [OF pq(2)] assms(1) by auto
  ultimately show False using branch_less_asym by blast
qed

lemma listing_unique:
  assumes "\<forall>i. m i \<noteq> None \<longrightarrow> canonical_id i" "listing m xs" "listing m ys"
  shows "xs = ys"
proof (rule sorted_wrt_unique)
  show "sorted_wrt (comes_before m) xs" "sorted_wrt (comes_before m) ys" "set xs = set ys"
    using assms(2,3) by (simp_all add: listing_def)
  show "\<forall>x\<in>set xs. \<forall>y\<in>set xs. comes_before m x y \<longrightarrow> \<not> comes_before m y x"
    using comes_before_asym [OF assms(1)] by blast
qed

lemma canonical_atoms: "canonical_doc d \<Longrightarrow> \<forall>i. get_item d i \<noteq> None \<longrightarrow> canonical_id i"
  using canonical_item by auto

lemma reads_materialize:
  assumes c: "canonical_doc d"
  shows "reads (get_item d) t \<longleftrightarrow> t = materialize d"
proof -
  have "listing (get_item d) xs \<longleftrightarrow> xs = order d" for xs
    using order_listing [OF c] listing_unique [OF canonical_atoms [OF c]] by blast
  then show ?thesis
    by (simp add: reads_def materialize_order [OF canonical_wf [OF c]] visibleIds_order [OF canonical_wf [OF c]])
qed

section \<open>The operations\<close>

lemma atoms_apply_item:
  "get_item (fst (doc_apply d x)) = fst (atoms_apply (get_item d) x) \<and>
   snd (doc_apply d x) = snd (atoms_apply (get_item d) x)"
proof -
  have "get_item (fst (doc_delete d i)) = fst (atoms_delete (get_item d) i) \<and>
      snd (doc_delete d i) = snd (atoms_delete (get_item d) i)" for i
  proof
    show "get_item (fst (doc_delete d i)) = fst (atoms_delete (get_item d) i)"
    proof
      fix k
      show "get_item (fst (doc_delete d i)) k = fst (atoms_delete (get_item d) i) k"
        unfolding get_item_delete by (cases "get_item d i") (simp_all add: atoms_delete_def)
    qed
    show "snd (doc_delete d i) = snd (atoms_delete (get_item d) i)"
      by (cases "get_item d i") (simp_all add: atoms_delete_def doc_delete_def)
  qed
  moreover have "get_item (fst (doc_insert d i a c)) = fst (atoms_insert (get_item d) i a c) \<and>
      snd (doc_insert d i a c) = snd (atoms_insert (get_item d) i a c)" for i a c
    by (rule doc_insert_cases [of i d a c]) (auto simp: atoms_insert_def adds_def fun_eq_iff)
  ultimately show ?thesis by (auto simp: doc_apply_def atoms_apply_def)
qed

lemma atoms_loop_item:
  "get_item (fst (apply_loop d xs k c)) = fst (atoms_loop (get_item d) xs k c) \<and>
   snd (apply_loop d xs k c) = snd (atoms_loop (get_item d) xs k c)"
proof (induction xs arbitrary: d k c)
  case (Cons x xs)
  obtain d1 r where 1: "doc_apply d x = (d1, r)" by (cases "doc_apply d x")
  with atoms_apply_item [of d x] have 2: "atoms_apply (get_item d) x = (get_item d1, r)"
    by (cases "atoms_apply (get_item d) x") simp
  show ?case using 1 2 Cons.IH [of d1] by (cases r) simp_all
qed simp

lemma atoms_batch_item:
  "get_item (fst (applyBatch d ops)) = fst (atoms_batch (get_item d) ops) \<and>
   snd (applyBatch d ops) = snd (atoms_batch (get_item d) ops)"
  using atoms_loop_item [of d ops 0 False] by (simp add: applyBatch_def atoms_batch_def)

end
