(* ===== verification/CrdtProps.thy ===== *)
theory CrdtProps
  imports Carets CrdtSpec
begin

text \<open>
  The properties of the replicated document and of the text offsets, each with a concrete instance
  where it has hypotheses.
\<close>

section \<open>Replication\<close>

lemma replay_known:
  assumes d: "canonical_doc d" "get_item d = log_item l" and ok: "log_ok l" and sub: "set ops \<subseteq> set l"
    and ready: "\<forall>x\<in>set l. canonical_id (op_id x) \<and> (is_ins x \<and> singleCodePoint (op_ch x) \<or> is_del x)"
  shows "apply_loop d ops k c = (d, BatchOk c)"
  using sub
proof (induction ops arbitrary: k c)
  case (Cons x ops)
  have x: "x \<in> set l" using Cons.prems by simp
  have p: "parseID (op_id x) \<noteq> None" using ready x by (auto simp: canonical_id_def split: option.splits)
  have known: "get_item d (op_id x) \<noteq> None"
    using x ok ready unfolding d(2) log_item_known by (fastforce simp: log_ok_def list_ex_iff)
  have "doc_apply d x = (d, Inr False)"
  proof (cases "is_ins x")
    case True
    have "singleCodePoint (op_ch x)" using ready x True by (auto simp: is_ins_def is_del_def js_def)
    then show ?thesis using True p known by (auto simp: doc_apply_def is_ins_def js_def doc_insert_def)
  next
    case False
    then have del: "is_del x" using ready x by auto
    obtain it where it: "get_item d (op_id x) = Some it" using known by auto
    then have "it_del it = list_ex (\<lambda>y. is_del y \<and> op_id y = op_id x) l"
      unfolding d(2) by (auto simp: log_item_def split: option.splits)
    moreover have "list_ex (\<lambda>y. is_del y \<and> op_id y = op_id x) l" using x del by (auto simp: list_ex_iff)
    ultimately show ?thesis using it p del by (auto simp: doc_apply_def is_del_def js_def doc_delete_def)
  qed
  with Cons show ?case by simp
qed simp

lemma delivered_ready:
  assumes "delivered crdt_ready l xs"
  shows "\<forall>x\<in>set xs. canonical_id (op_id x) \<and> (is_ins x \<and> singleCodePoint (op_ch x) \<or> is_del x)"
  using assms by (induction xs arbitrary: l) (auto simp: crdt_ready_def split: if_splits)

text \<open>C1: Convergence. Two replicas that received the same operations, split into batches and ordered
  in any two ways in which an atom comes after its parent and a deletion after its atom, show the same
  text, the same identifiers and the same snapshot.\<close>

theorem crdt_convergence:
  assumes "delivered crdt_ready [] (concat bs)" "delivered crdt_ready [] (concat cs)"
    and "set (concat bs) = set (concat cs)"
  shows "materialize (foldl (\<lambda>d b. fst (applyBatch d b)) newDoc bs) =
      materialize (foldl (\<lambda>d b. fst (applyBatch d b)) newDoc cs) \<and>
    visibleIds (foldl (\<lambda>d b. fst (applyBatch d b)) newDoc bs) =
      visibleIds (foldl (\<lambda>d b. fst (applyBatch d b)) newDoc cs) \<and>
    toItems (foldl (\<lambda>d b. fst (applyBatch d b)) newDoc bs) =
      toItems (foldl (\<lambda>d b. fst (applyBatch d b)) newDoc cs)"
  using same_readers [OF batches_converge(2) [OF assms]] batches_converge(1) [OF assms]
    batches_converge(1) [OF assms(2,1) assms(3) [symmetric]]
  by (simp add: canonical_wf)

lemma crdt_convergence_witness:
  "materialize (foldl (\<lambda>d b. fst (applyBatch d b)) newDoc
     [[ins_op (js ''a:1'') [] (js ''x''), ins_op (js ''b:1'') [] (js ''y'')], [del_op (js ''a:1'')]]) =
   materialize (foldl (\<lambda>d b. fst (applyBatch d b)) newDoc
     [[ins_op (js ''b:1'') [] (js ''y'')], [ins_op (js ''a:1'') [] (js ''x''), del_op (js ''a:1'')]])"
  by (rule conjunct1 [OF crdt_convergence]) (simp_all add: js_eval insert_commute)

text \<open>C10: Replay is idempotent. A non-empty batch all of whose operations the replica has already
  applied, in whatever batches, is accepted, reports no change and leaves the document as it is. This is
  what makes it safe to replay unacknowledged operations on a snapshot that contains some of them.\<close>

theorem crdt_replay_idempotent:
  assumes "delivered crdt_ready [] (concat bs)" "set ops \<subseteq> set (concat bs)" "ops \<noteq> []"
    and "d = foldl (\<lambda>d b. fst (applyBatch d b)) newDoc bs"
  shows "applyBatch d ops = (d, BatchOk False)"
proof -
  have new: "canonical_doc newDoc" "get_item newDoc = log_item []"
    by (auto simp: canonical_newDoc log_item_def)
  have "d = foldl (\<lambda>d x. fst (doc_apply d x)) newDoc (concat bs)"
    using batches_foldl [OF new, of bs] assms(1,4) by simp
  then have "canonical_doc d" "get_item d = log_item (concat bs)"
    using doc_replica.run_view [OF new, of "concat bs"] assms(1) by simp_all
  then have "apply_loop d ops 0 False = (d, BatchOk False)"
    using delivered_log_ok [of "[]" "concat bs"] delivered_ready [OF assms(1)] assms(1,2)
    by (intro replay_known [where l = "concat bs"]) (simp_all add: log_ok_def)
  with assms(3) show ?thesis by (simp add: applyBatch_def)
qed

lemma crdt_replay_idempotent_witness:
  "snd (applyBatch (fst (applyBatch newDoc [ins_op (js ''a:1'') [] (js ''x''), del_op (js ''a:1'')]))
     [del_op (js ''a:1''), ins_op (js ''a:1'') [] (js ''x'')]) = BatchOk False"
  using crdt_replay_idempotent [of "[[ins_op (js ''a:1'') [] (js ''x''), del_op (js ''a:1'')]]"
    "[del_op (js ''a:1''), ins_op (js ''a:1'') [] (js ''x'')]", OF _ _ _ refl]
  by (simp add: js_eval)

text \<open>C14: Snapshots. A document of printed identifiers loads back from its items without an error, in
  whatever order the items arrive, as a document with the same text, identifiers and snapshot, and every
  later batch has the same outcome on both.\<close>

theorem snapshot_round_trip:
  assumes "canonical_doc d" "set ws = set (toItems d)" "distinct (map wi_id ws)"
  shows "\<exists>d'. fromItems ws = (d', None) \<and> materialize d' = materialize d \<and> visibleIds d' = visibleIds d \<and>
    toItems d' = toItems d \<and> (\<forall>ops. snd (applyBatch d' ops) = snd (applyBatch d ops) \<and>
      materialize (fst (applyBatch d' ops)) = materialize (fst (applyBatch d ops)))"
proof -
  have wf: "wf_doc d" by (rule canonical_wf [OF assms(1)])
  define its where "its = map wire_to_item ws"
  have ws: "ws = map wire_of its"
    using assms(2) by (auto simp: its_def toItems_wire intro!: map_idI [symmetric])
  have "set its = set (walk d [])" unfolding its_def using assms(2) by (force simp: toItems_wire)
  moreover have "distinct (map it_id its)" using assms(3) by (simp add: ws comp_def)
  ultimately obtain d' where d': "fromItems ws = (d', None)" "same_doc d d'"
    using fromItems_any_order [OF assms(1)] ws by blast
  have wf': "wf_doc d'" using wf_fromItems [of ws] d'(1) by simp
  have "snd (applyBatch d' ops) = snd (applyBatch d ops) \<and>
      materialize (fst (applyBatch d' ops)) = materialize (fst (applyBatch d ops))" for ops
    using same_applyBatch [OF d'(2), of ops] same_readers(1) [of "fst (applyBatch d ops)" "fst (applyBatch d' ops)"]
      wf wf' by (simp add: wf_applyBatch)
  with d' same_readers [OF d'(2) wf wf'] show ?thesis by blast
qed

lemma demo_canonical: "canonical_doc (fst (applyBatch newDoc [ins_op (js ''a:1'') [] (js ''x''), ins_op (js ''b:2'') (js ''a:1'') (js ''y'')]))"
  by (rule canonical_applyBatch [OF canonical_newDoc]) (simp add: js_eval)

lemma snapshot_round_trip_witness:
  "\<exists>d'. fromItems (rev (toItems (fst (applyBatch newDoc
       [ins_op (js ''a:1'') [] (js ''x''), ins_op (js ''b:2'') (js ''a:1'') (js ''y'')])))) = (d', None) \<and>
     materialize d' = js ''xy''"
proof -
  let ?d = "fst (applyBatch newDoc [ins_op (js ''a:1'') [] (js ''x''), ins_op (js ''b:2'') (js ''a:1'') (js ''y'')])"
  have "materialize ?d = js ''xy''" "distinct (map wi_id (rev (toItems ?d)))" by (simp_all add: js_eval)
  with snapshot_round_trip [OF demo_canonical, of "rev (toItems ?d)"] show ?thesis by auto
qed

section \<open>The tree\<close>

text \<open>C20: The traversal ends. Whatever snapshot was loaded and whatever batch was then applied, errors
  included, one more step than there are items is enough for the explicit stack to run empty.\<close>

theorem traversal_terminates:
  "\<exists>out. walk_loop (Suc (length (items (fst (applyBatch (fst (fromItems ws)) ops)))))
     (fst (applyBatch (fst (fromItems ws)) ops)) (kids (fst (applyBatch (fst (fromItems ws)) ops)) []) = Some out"
  by (rule walk_loop_root [OF wf_applyBatch [OF wf_fromItems]])

lemma filter_mem: "filter P xs = ys \<Longrightarrow> filter (\<lambda>k. k \<in> set ys) xs = ys"
  by (auto intro: filter_cong)

text \<open>C22: An insert reorders nothing. On a well-formed document an insert, accepted or not, leaves
  the visible atoms that were there in their order, and a new atom is a child of the parent it names.\<close>

theorem insert_keeps_order:
  assumes "wf_doc d"
  shows "filter (\<lambda>k. k \<in> set (visibleIds d)) (visibleIds (fst (doc_insert d i a c))) = visibleIds d \<and>
    (snd (doc_insert d i a c) = Inr True \<longrightarrow> i \<in> set (kids (fst (doc_insert d i a c)) a))"
proof (cases rule: doc_insert_cases [of i d a c])
  case (added d')
  let ?it = "\<lparr>it_id = i, it_after = a, it_ch = c, it_del = False\<rparr>"
  have wf': "wf_doc d'" using wf_doc_insert [OF assms, of i a c] added(5) by simp
  have ne: "it_after ?it \<noteq> i" "i \<noteq> []" using added(1,3,4) parseID_nonempty by auto
  have w: "filter (\<lambda>x. it_id x \<noteq> i) (walk d' []) = walk d []"
    by (rule order_adds(1) [OF assms wf' added(6) ne])
  have "filter (\<lambda>k. k \<noteq> i) (visibleIds d') = visibleIds d"
    unfolding visibleIds_def w [symmetric] by (simp add: filter_map comp_def conj_commute)
  then have "filter (\<lambda>k. k \<in> set (visibleIds d)) (visibleIds d') = visibleIds d"
    by (metis filter_mem)
  then show ?thesis using added by (auto simp: adds_def)
qed simp_all

lemma insert_keeps_order_witness:
  "js ''b:1'' \<in> set (kids (fst (doc_insert newDoc (js ''b:1'') [] (js ''y''))) [])"
  using insert_keeps_order [OF wf_newDoc, of "js ''b:1''" "[]" "js ''y''"]
  by (simp add: js_eval)

text \<open>C7: The diff is correct. Applied to the document it was computed from, with a clock not below the
  greatest of the document, the operations are accepted and the document then shows exactly the new text,
  under exactly the identifiers the diff predicted; the clock is not below any clock of the document.\<close>

theorem diff_correct:
  assumes "canonical_doc d" "aligned d" "maxClock d \<le> m" "site \<noteq> []" "colon \<notin> set site"
    and "m + length (codePoints new) \<le> max_exact" "materialize d \<noteq> new"
    and "r = diffToOps (codePoints (materialize d)) (visibleIds d) (codePoints new) site m"
  shows "\<exists>d' b. applyBatch d (df_ops r) = (d', BatchOk b) \<and> materialize d' = new \<and>
    visibleIds d' = df_nextIds r \<and> clocks_le d' (df_clock r)"
proof -
  have "codePoints (materialize d) \<noteq> codePoints new" using assms(7) by (metis codePoints_concat)
  then have "df_ops r \<noteq> []" unfolding assms(8) by (rule diff_not_empty)
  then show ?thesis
    using diff_applies [OF assms(1) clocks_le_maxClock [OF assms(1,3)] _ assms(4-6) _ assms(8) [symmetric]]
      assms(2) codePoints_single aligned_chars
    by (metis aligned_def)
qed

lemma diff_correct_witness:
  "\<exists>d' b. applyBatch newDoc (df_ops (diffToOps [] [] (codePoints (js ''ab'')) (js ''me'') 0)) = (d', BatchOk b) \<and>
     materialize d' = js ''ab''"
proof -
  have n: "materialize newDoc = []" "visibleIds newDoc = []" "aligned newDoc" "maxClock newDoc = 0"
    by (simp_all add: js_eval aligned_def visible_def)
  show ?thesis
    using diff_correct [OF canonical_newDoc n(3), of 0 "js ''me''" "js ''ab''", OF _ _ _ _ _ refl]
    by (simp add: n) (auto simp: js_eval)
qed

section \<open>Identifiers\<close>

text \<open>Printing and parsing an identifier. For a site without a colon and a clock from 1 to
  \<open>2 ^ 53\<close>, parsing what was printed gives the site and the clock back.\<close>

lemma id_round_trip:
  assumes "site \<noteq> []" "colon \<notin> set site" "0 < c" "c \<le> max_exact"
  shows "parseID (formatID site c) = Some (site, c)"
  by (rule parse_formatID_raw [OF assms])

text \<open>C23: The sibling order. On printed identifiers \<open>compareSibling\<close> is a strict total order: it is
  \<open>0\<close> only for equal identifiers, swapping negates it, and being before is transitive.\<close>

theorem sibling_total_order:
  assumes "canonical_id a" "canonical_id b" "canonical_id c"
  shows "(compareSibling a b = 0 \<longleftrightarrow> a = b) \<and> compareSibling b a = - compareSibling a b \<and>
    (compareSibling a b < 0 \<and> compareSibling b c < 0 \<longrightarrow> compareSibling a c < 0)"
  using parseID_key [OF assms(1)] parseID_key [OF assms(2)] key_inj [OF assms(1,2)]
    sib.cmp_trans [of a b c] assms
  by (auto simp: compareSibling_def)

lemma sibling_total_order_witness:
  "compareSibling (js ''b:1'') (js ''a:2'') = - compareSibling (js ''a:2'') (js ''b:1'')"
  using sibling_total_order [of "js ''a:2''" "js ''b:1''" "js ''a:2''"] by (simp add: js_eval)


section \<open>Offsets and carets\<close>

text \<open>C24: Offsets. From code points to UTF-16 and back is the identity, clamped to the text. From UTF-16
  to code points and back gives the same offset, or the next one when it was inside a surrogate pair.\<close>

theorem offset_round_trip:
  assumes "i \<le> length s"
  shows "utf16ToCodePointOffset s (int (codePointToUtf16Offset s (int k))) = min k (length (codePoints s)) \<and>
    i \<le> codePointToUtf16Offset s (int (utf16ToCodePointOffset s (int i))) \<and>
    codePointToUtf16Offset s (int (utf16ToCodePointOffset s (int i))) \<le> i + 1"
proof -
  have "codePointToUtf16Offset s (int k) \<le> length s"
    unfolding offset_of_cp by (metis append_take_drop_id codePoints_concat concat_append le_add1 length_append)
  then have "utf16ToCodePointOffset s (int (codePointToUtf16Offset s (int k))) = min k (length (codePoints s))"
    using codePoints_sizes by (simp add: cp_of_offset offset_of_cp begun_prefix)
  then show ?thesis
    using begun_covers [of i "codePoints s"] assms codePoints_sizes by (simp add: cp_of_offset offset_of_cp)
qed

lemma offset_round_trip_witness:
  "codePointToUtf16Offset [0xD83D, 0xDE00] (int (utf16ToCodePointOffset [0xD83D, 0xDE00] 1)) = 2"
  using offset_round_trip [of 1 "[0xD83D, 0xDE00]" 0] by (simp add: js_eval)



text \<open>C5: Refinement. A document is a map from identifiers to atoms: a batch, accepted or not, changes the map and
  answers as the specification says, and the text shown is the one the specification reads off the map, the
  atoms not deleted in the order of their branches. No other text fits.\<close>

theorem document_refines_atoms:
  assumes "canonical_doc d" "\<forall>x\<in>set ops. op_kind x = js ''ins'' \<longrightarrow> canonical_id (op_id x)"
    and "applyBatch d ops = (d', r)"
  shows "atoms_batch (get_item d) ops = (get_item d', r) \<and> (\<forall>t. reads (get_item d') t \<longleftrightarrow> t = materialize d')"
proof -
  have "canonical_doc d'" using canonical_applyBatch [OF assms(1,2)] assms(3) by simp
  then show ?thesis
    using atoms_batch_item [of d ops] reads_materialize [of d'] assms(3) by (simp add: prod_eq_iff)
qed

lemma document_refines_atoms_witness:
  "reads (get_item (fst (applyBatch newDoc [ins_op (js ''a:1'') [] (js ''x''), ins_op (js ''b:1'') [] (js ''y'')]))) (js ''xy'')"
proof -
  let ?ops = "[ins_op (js ''a:1'') [] (js ''x''), ins_op (js ''b:1'') [] (js ''y'')]"
  have "\<forall>x\<in>set ?ops. op_kind x = js ''ins'' \<longrightarrow> canonical_id (op_id x)" by (simp add: js_eval)
  from document_refines_atoms [OF canonical_newDoc this surjective_pairing]
  have "reads (get_item (fst (applyBatch newDoc ?ops))) (materialize (fst (applyBatch newDoc ?ops)))" by blast
  moreover have "materialize (fst (applyBatch newDoc ?ops)) = js ''xy''" by (simp add: js_eval)
  ultimately show ?thesis by simp
qed

end
