(* ===== verification/ClientProps.thy ===== *)
theory ClientProps
  imports ClientInv CrdtProps
begin

text \<open>
  The properties of the client: typing and undo, the queues of operations, snapshots and versions,
  the composition, the read-only lock, the timers. Each property with hypotheses has a concrete
  instance.
\<close>

section \<open>Local edits\<close>

text \<open>The conditions under which local edits are exact: printed identifiers, a visible text that is cut
  into code points as its atoms are, a client identifier, and clocks that are still consecutive integers.\<close>

definition edit_ready :: "app \<Rightarrow> bool" where
  "edit_ready s \<longleftrightarrow> canonical_doc (the_doc s) \<and> aligned (the_doc s) \<and> valid_client_id (CLIENT_ID s)"

definition clock_after_bump :: "app \<Rightarrow> nat" where
  "clock_after_bump s = max (localClock s) (maxClock (the_doc s))"

lemma bump_clock: "localClock (bumpClockFromDoc s) = clock_after_bump s"
  by (simp add: bumpClockFromDoc_def Let_def clock_after_bump_def)

lemma applyLocalText_ok:
  assumes "edit_ready s" "materialize (the_doc s) \<noteq> v" "clock_after_bump s + length (codePoints v) \<le> max_exact"
    and "diff = diffToOps (codePoints (materialize (the_doc s))) (visibleIds (the_doc s)) (codePoints v)
      (CLIENT_ID s) (clock_after_bump s)"
  shows "\<exists>d' b. applyBatch (the_doc s) (df_ops diff) = (d', BatchOk b) \<and>
    applyLocalText now v s = scheduleFlush (pushUndoEntry now (df_ops diff)
      ((bumpClockFromDoc s)\<lparr>localClock := df_clock diff, the_doc := d', pendingOps := pendingOps s @ df_ops diff\<rparr>)) \<and>
    canonical_doc d' \<and> map it_ch (visible d') = codePoints v \<and> clocks_le d' (df_clock diff) \<and> df_ops diff \<noteq> [] \<and>
    (\<exists>P M N S inss. visible (the_doc s) = P @ M @ S \<and> visible d' = P @ N @ S \<and> list_all is_ins inss \<and>
       df_ops diff = map (\<lambda>x. del_op (it_id x)) M @ inss \<and> map it_id N = map op_id inss)"
proof -
  have c: "canonical_doc (the_doc s)" and al: "aligned (the_doc s)" using assms(1) by (simp_all add: edit_ready_def)
  have site: "CLIENT_ID s \<noteq> []" "colon \<notin> set (CLIENT_ID s)"
    using valid_site assms(1) by (auto simp: edit_ready_def)
  have "codePoints (materialize (the_doc s)) \<noteq> codePoints v" using assms(2) by (metis codePoints_concat)
  then have ne: "df_ops diff \<noteq> []" unfolding assms(4) by (rule diff_not_empty)
  have "clocks_le (the_doc s) (clock_after_bump s)"
    by (rule clocks_le_maxClock [OF c]) (simp add: clock_after_bump_def)
  then obtain d' b where d': "applyBatch (the_doc s) (df_ops diff) = (d', BatchOk b)" "canonical_doc d'"
    "clocks_le d' (df_clock diff)" "map it_ch (visible d') = codePoints v"
    "\<exists>P M N S inss. visible (the_doc s) = P @ M @ S \<and> visible d' = P @ N @ S \<and> list_all is_ins inss \<and>
       df_ops diff = map (\<lambda>x. del_op (it_id x)) M @ inss \<and> map it_id N = map op_id inss"
    using diff_applies [OF c _ _ site assms(3) _ assms(4) [symmetric] ne] al codePoints_single
    by (metis aligned_def)
  have "applyLocalText now v s = scheduleFlush (pushUndoEntry now (df_ops diff)
      ((bumpClockFromDoc s)\<lparr>localClock := df_clock diff, the_doc := d', pendingOps := pendingOps s @ df_ops diff\<rparr>))"
    using ne assms(2) d'(1)
    by (simp add: applyLocalText_def Let_def bump_core bump_clock assms(4) [symmetric] batch_ok_def)
  with d' ne show ?thesis by blast
qed

lemma applyLocalText_same: "materialize (the_doc s) = v \<Longrightarrow> applyLocalText now v s = s"
  by (simp add: applyLocalText_def Let_def)

lemma core_updateUndo: "core (updateUndoButtons s) = core s" by simp

lemma applyLocalText_frame:
  "knownVersion (applyLocalText now v s) = knownVersion s \<and> knownGeneration (applyLocalText now v s) = knownGeneration s \<and>
   knownExists (applyLocalText now v s) = knownExists s \<and> content (applyLocalText now v s) = content s \<and>
   sentBatches (applyLocalText now v s) = sentBatches s \<and> lastSyncedText (applyLocalText now v s) = lastSyncedText s \<and>
   CLIENT_ID (applyLocalText now v s) = CLIENT_ID s \<and>
   deferredContentMessages (applyLocalText now v s) = deferredContentMessages s"
proof -
  have b: "knownVersion (bumpClockFromDoc s) = knownVersion s" "knownGeneration (bumpClockFromDoc s) = knownGeneration s"
    "knownExists (bumpClockFromDoc s) = knownExists s" "content (bumpClockFromDoc s) = content s"
    "lastSyncedText (bumpClockFromDoc s) = lastSyncedText s"
    "deferredContentMessages (bumpClockFromDoc s) = deferredContentMessages s"
    by (simp_all add: bumpClockFromDoc_def Let_def)
  show ?thesis
    by (simp add: applyLocalText_def Let_def b bump_core pushUndoEntry_def scheduleFlush_def setStatus_def
        updateUndoButtons_def emit_def split: prod.splits)
qed

section \<open>Undo\<close>

lemma visible_del_ids:
  assumes "canonical_doc d" "clocks_le d m" "\<forall>i\<in>set is. canonical_id i"
  shows "\<exists>d' b. apply_loop d (map del_op is) k c = (d', BatchOk b) \<and> canonical_doc d' \<and> clocks_le d' m \<and>
    visible d' = filter (\<lambda>x. it_id x \<notin> set is) (visible d)"
  using assms
proof (induction "is" arbitrary: d k c)
  case (Cons i "is")
  let ?d = "fst (doc_delete d i)"
  have wf: "wf_doc d" by (rule canonical_wf [OF Cons.prems(1)])
  have ids: "doc_ids ?d = doc_ids d" by (simp only: doc_ids_def set_map [symmetric] items_delete_fst)
  have v: "visible ?d = filter (\<lambda>y. it_id y \<noteq> i) (visible d)"
    unfolding visible_def walk_delete [OF wf] by (rule filter_map_del)
  have ap: "\<exists>b. doc_apply d (del_op i) = (?d, Inr b)"
    using Cons.prems(3) by (auto simp: doc_apply_def js_def doc_delete_def canonical_id_def split: option.splits)
  have "\<exists>d' b. apply_loop ?d (map del_op is) (Suc k) c' = (d', BatchOk b) \<and> canonical_doc d' \<and> clocks_le d' m \<and>
      visible d' = filter (\<lambda>x. it_id x \<notin> set is) (visible ?d)" for c'
    using Cons.prems(2,3) ids canonical_delete [OF Cons.prems(1)]
    by (intro Cons.IH) (simp_all add: clocks_le_def)
  with ap show ?case by (fastforce simp: v conj_commute)
qed simp

lemma inverse_of_inserts:
  "\<forall>x\<in>set ops. is_ins x \<Longrightarrow> inverse_loop d site ops c = (map (\<lambda>x. del_op (op_id x)) ops, c)"
  by (induction ops) (simp_all add: is_ins_def)

lemma undo_doc:
  assumes "roomAccess s = Unlocked" "undoStack s = st @ [entry]"
    and "inverse_loop (the_doc s) (CLIENT_ID s) (rev (ue_ops entry)) (localClock s) = (ops, c)" "ops \<noteq> []"
    and "applyBatch (the_doc s) ops = (d', BatchOk b)"
  shows "the_doc (undo now s) = d' \<and> pendingOps (undo now s) = pendingOps s @ ops \<and> undoStack (undo now s) = st \<and>
    redoStack (undo now s) = redoStack s @ [\<lparr>ue_ops = ops, ue_at = now\<rparr>]"
proof -
  let ?t = "s\<lparr>undoStack := st, localClock := c\<rparr>"
  have inv: "inverseOps (ue_ops entry) (s\<lparr>undoStack := st\<rparr>) = (ops, ?t)"
    using assms(3) by (simp add: inverseOps_def)
  have b: "undoStack (bumpClockFromDoc u) = undoStack u" "redoStack (bumpClockFromDoc u) = redoStack u"
    "undoStack (bumpClockFromOps ops u) = undoStack u" "redoStack (bumpClockFromOps ops u) = redoStack u" for u
    by (simp_all add: bumpClockFromDoc_def bumpClockFromOps_def Let_def)
  define t' where "t' = snd (applyOpsLocal ops ?t)"
  have t': "applyOpsLocal ops ?t = (True, t')" "the_doc t' = d'" "pendingOps t' = pendingOps s @ ops"
    "undoStack t' = st" "redoStack t' = redoStack s"
    by (simp_all add: t'_def applyOpsLocal_def Let_def assms(4,5) bump_core b batch_ok_def)
  have "undo now s = after_history_step (materialize (the_doc s)) (t'\<lparr>redoStack := redoStack t' @ [\<lparr>ue_ops = ops, ue_at = now\<rparr>]\<rparr>)"
    using assms(1,2,4) inv t'(1) by (simp add: undo_def blockWhenReadOnly_def roomNeedsUnlock_def Let_def)
  then show ?thesis using t' by (simp add: after_history_step_def Let_def)
qed
section \<open>Properties\<close>

text \<open>C6: Typing. When the user changes the editor's text, outside a composition and with clocks that stay
  exact, the document afterwards shows exactly the text of the editor, the operations that lead from the old
  document to it have joined the pending ones, and the state is ready for the next edit.\<close>

theorem typing_tracks_editor:
  assumes "edit_ready s" "\<not> ed_readOnly (content s)" "\<not> applyingRemote s" "\<not> compositionIsActive s"
    and "clock_after_bump s + length (codePoints (normalize_newlines v)) \<le> max_exact"
  shows "let t = client_step now jitter (Typed v a b) s in
    materialize (the_doc t) = normalize_newlines v \<and> ed_value (content t) = normalize_newlines v \<and> edit_ready t \<and>
    (\<exists>ops. pendingOps t = pendingOps s @ ops \<and>
       (ops = [] \<and> the_doc t = the_doc s \<or> (\<exists>r. applyBatch (the_doc s) ops = (the_doc t, BatchOk r))))"
proof -
  define u where "u = type_into v a b s"
  have u: "the_doc u = the_doc s" "CLIENT_ID u = CLIENT_ID s" "pendingOps u = pendingOps s"
    "localClock u = localClock s" "ed_value (content u) = normalize_newlines v"
    "applyingRemote u = applyingRemote s" "compositionActive u = compositionActive s"
    "compositionCommitPending u = compositionCommitPending s"
    by (simp_all add: u_def type_into_def setSelectionRange_def Let_def)
  have ru: "edit_ready u" "clock_after_bump u = clock_after_bump s"
    using assms(1) by (simp_all add: edit_ready_def clock_after_bump_def u)
  define w where "w = applyLocalText now (normalize_newlines v) u"
  have t: "client_step now jitter (Typed v a b) s = scheduleCursorSend (emit RenderCursors
      (onLocalTextChanged (materialize (the_doc u)) (materialize (the_doc w)) w))"
    using assms(2-4) u by (simp add: client_step_def u_def [symmetric] onInput_def compositionIsActive_def w_def Let_def)
  have "ed_value (content w) = normalize_newlines v" using applyLocalText_frame u(5) by (simp add: w_def)
  then have e: "ed_value (content (client_step now jitter (Typed v a b) s)) = normalize_newlines v"
    unfolding t by (simp add: scheduleCursorSend_def onLocalTextChanged_def emit_def Let_def)
  have k: "the_doc (client_step now jitter (Typed v a b) s) = the_doc w"
    "pendingOps (client_step now jitter (Typed v a b) s) = pendingOps w"
    "CLIENT_ID (client_step now jitter (Typed v a b) s) = CLIENT_ID w" by (simp_all add: t)
  have "materialize (the_doc w) = normalize_newlines v \<and> edit_ready w \<and>
    (\<exists>ops. pendingOps w = pendingOps s @ ops \<and>
       (ops = [] \<and> the_doc w = the_doc s \<or> (\<exists>r. applyBatch (the_doc s) ops = (the_doc w, BatchOk r))))"
  proof (cases "materialize (the_doc u) = normalize_newlines v")
    case True
    then show ?thesis using ru(1) u by (simp add: w_def applyLocalText_same)
  next
    case False
    define diff where "diff = diffToOps (codePoints (materialize (the_doc u))) (visibleIds (the_doc u))
      (codePoints (normalize_newlines v)) (CLIENT_ID u) (clock_after_bump u)"
    from applyLocalText_ok [OF ru(1) False _ diff_def, of now] assms(5) ru(2) obtain d' r where
      "applyBatch (the_doc u) (df_ops diff) = (d', BatchOk r)"
      "w = scheduleFlush (pushUndoEntry now (df_ops diff) ((bumpClockFromDoc u)\<lparr>localClock := df_clock diff,
         the_doc := d', pendingOps := pendingOps u @ df_ops diff\<rparr>))"
      "canonical_doc d'" "map it_ch (visible d') = codePoints (normalize_newlines v)"
      unfolding w_def by (metis (no_types, lifting))
    then show ?thesis
      using ru(1) aligned_chars by (auto simp: edit_ready_def push_core bump_core u)
  qed
  then show ?thesis using e by (simp add: k edit_ready_def Let_def)
qed
lemma edit_ready_initial: "valid_client_id cid \<Longrightarrow> edit_ready (initial_app cid)"
  by (simp add: edit_ready_def initial_app_def canonical_newDoc aligned_def visible_def walk_eqI [OF wf_newDoc]
      materialize_def)

lemma typing_tracks_editor_witness:
  "materialize (the_doc (client_step 0 0 (Typed (js ''hi'') 2 2) (initial_app (js ''0123456789abcdef'')))) = js ''hi''"
proof -
  have v: "valid_client_id (js ''0123456789abcdef'')" "normalize_newlines (js ''hi'') = js ''hi''"
    by (simp_all add: js_eval)
  let ?s = "initial_app (js ''0123456789abcdef'')"
  have s: "edit_ready ?s" "\<not> ed_readOnly (content ?s)" "\<not> applyingRemote ?s" "\<not> compositionIsActive ?s"
    by (simp_all add: edit_ready_initial [OF v(1)]) (simp_all add: initial_app_def compositionIsActive_def)
  have "clock_after_bump ?s = 0" by (simp add: clock_after_bump_def initial_app_def) (simp add: js_eval)
  then have "clock_after_bump ?s + length (codePoints (normalize_newlines (js ''hi''))) \<le> max_exact"
    by (simp add: v(2)) (simp add: js_eval)
  from typing_tracks_editor [OF s this, of 0 0 2 2] show ?thesis by (simp add: Let_def v(2))
qed

lemma filter_none: "f ` set xs \<inter> A = {} \<Longrightarrow> filter (\<lambda>x. f x \<notin> A) xs = xs"
  by (induction xs) auto

lemma inserted_run_deleted:
  assumes c: "canonical_doc d" "clocks_le d n" and v: "visible d = P @ N @ S"
  obtains d2 r where "apply_loop d (map del_op (rev (map it_id N))) 0 False = (d2, BatchOk r)" "visible d2 = P @ S"
proof -
  have "\<forall>i\<in>set (rev (map it_id N)). canonical_id i"
  proof
    fix i assume "i \<in> set (rev (map it_id N))"
    then obtain x where "x \<in> set (visible d)" "i = it_id x" using v by auto
    then have "get_item d i = Some x"
      using walk_item [OF canonical_wf [OF c(1)], of x] by (simp add: visible_def)
    from canonical_item [OF c(1) this] show "canonical_id i" by simp
  qed
  then obtain d2 r where d2: "apply_loop d (map del_op (rev (map it_id N))) 0 False = (d2, BatchOk r)"
    "visible d2 = filter (\<lambda>x. it_id x \<notin> set (rev (map it_id N))) (visible d)"
    using visible_del_ids [OF c, of "rev (map it_id N)" 0 False] by auto
  have "distinct (map it_id (visible d))"
    using distinct_visibleIds [OF canonical_wf [OF c(1)]] by (simp add: visible_readers)
  then have "filter (\<lambda>x. it_id x \<notin> it_id ` set N) (visible d) = P @ S"
    unfolding v using filter_none [of it_id P "it_id ` set N"] filter_none [of it_id S "it_id ` set N"]
    by (simp add: Int_commute Int_Un_distrib filter_empty_conv)
  then show thesis using d2 by (intro that [of d2 r]) simp_all
qed

text \<open>C13: Undoing an insertion. If an edit only inserted text, in a room that is unlocked and with no earlier
  entry to coalesce with, undo right after it brings the old text back, queues the deletions, and leaves the
  entry on the redo stack only.\<close>

theorem undo_restores_insertion:
  assumes "edit_ready s" "roomAccess s = Unlocked" "undoStack s = []" "materialize (the_doc s) \<noteq> v"
    and "clock_after_bump s + length (codePoints v) \<le> max_exact"
    and "t = applyLocalText now v s" "\<forall>x\<in>set (ue_ops (last (undoStack t))). is_ins x"
  shows "materialize (the_doc (undo later t)) = materialize (the_doc s) \<and> undoStack (undo later t) = [] \<and>
    pendingOps (undo later t) = pendingOps t @ map del_op (rev (map op_id (ue_ops (last (undoStack t)))))"
proof -
  define diff where "diff = diffToOps (codePoints (materialize (the_doc s))) (visibleIds (the_doc s))
    (codePoints v) (CLIENT_ID s) (clock_after_bump s)"
  from applyLocalText_ok [OF assms(1,4,5) diff_def, of now] obtain d' b P M N S inss where
    t: "t = scheduleFlush (pushUndoEntry now (df_ops diff) ((bumpClockFromDoc s)\<lparr>localClock := df_clock diff,
         the_doc := d', pendingOps := pendingOps s @ df_ops diff\<rparr>))"
    and c: "canonical_doc d'" "clocks_le d' (df_clock diff)" and ne: "df_ops diff \<noteq> []"
    and v: "visible (the_doc s) = P @ M @ S" "visible d' = P @ N @ S"
      "df_ops diff = map (\<lambda>x. del_op (it_id x)) M @ inss" "map it_id N = map op_id inss"
    unfolding assms(6) by (metis (no_types, lifting))
  let ?e = "\<lparr>ue_ops = df_ops diff, ue_at = now\<rparr>"
  have b: "undoStack (bumpClockFromDoc s) = undoStack s" "roomAccess (bumpClockFromDoc s) = roomAccess s"
    by (simp_all add: bumpClockFromDoc_def Let_def)
  have u: "undoStack t = [] @ [?e]" "roomAccess t = Unlocked" "the_doc t = d'"
    using ne assms(2,3) b
    by (simp_all add: t pushUndoEntry_def updateUndoButtons_def push_entry_def maxUndoDepth_def scheduleFlush_def
        setStatus_def emit_def)
  have ins: "\<forall>x\<in>set (df_ops diff). is_ins x" using assms(7) u(1) by simp
  then have M: "M = []" by (cases M) (simp_all add: v(3))
  have ids: "map op_id (df_ops diff) = map it_id N" using v(3,4) M by simp
  define dels where "dels = map del_op (rev (map op_id (df_ops diff)))"
  have "inverse_loop (the_doc t) (CLIENT_ID t) (rev (ue_ops ?e)) (localClock t) = (dels, localClock t)"
    using ins by (simp add: inverse_of_inserts dels_def rev_map)
  moreover obtain d2 r where d2: "apply_loop d' dels 0 False = (d2, BatchOk r)" "visible d2 = P @ S"
    using inserted_run_deleted [OF c v(2)] unfolding dels_def ids by blast
  moreover have "dels \<noteq> []" using ne by (simp add: dels_def)
  ultimately have un: "the_doc (undo later t) = d2 \<and> pendingOps (undo later t) = pendingOps t @ dels \<and>
      undoStack (undo later t) = []"
    using undo_doc [OF u(2,1), of dels "localClock t" d2 r later] by (simp add: applyBatch_def u(3))
  have "visible d2 = visible (the_doc s)" using d2(2) v(1) M by simp
  then show ?thesis using un u(1) by (simp add: visible_readers dels_def)
qed

lemma undo_restores_insertion_witness:
  "materialize (the_doc (undo 9 (applyLocalText 5 (js ''hi'')
     ((initial_app (js ''0123456789abcdef''))\<lparr>roomAccess := Unlocked\<rparr>)))) = []"
proof -
  let ?s = "(initial_app (js ''0123456789abcdef''))\<lparr>roomAccess := Unlocked\<rparr>"
  have "valid_client_id (js ''0123456789abcdef'')" by (simp add: js_eval)
  then have s: "edit_ready ?s" using edit_ready_initial by (simp add: edit_ready_def)
  have m: "materialize (the_doc ?s) = []" "undoStack ?s = []" "roomAccess ?s = Unlocked"
    by (simp_all add: initial_app_def) (simp add: js_eval)
  have "clock_after_bump ?s = 0" by (simp add: clock_after_bump_def initial_app_def) (simp add: js_eval)
  then have le: "clock_after_bump ?s + length (codePoints (js ''hi'')) \<le> max_exact" by (simp add: js_eval)
  have "\<forall>x\<in>set (ue_ops (last (undoStack (applyLocalText 5 (js ''hi'') ?s)))). is_ins x"
    by (simp add: js_eval Let_def)
  moreover have "materialize (the_doc ?s) \<noteq> js ''hi''" using m(1) by (simp add: js_def)
  ultimately show ?thesis using undo_restores_insertion [OF s m(3,2) _ le refl, of 5 9] m(1) by simp
qed

section \<open>Queues\<close>

text \<open>C8: In every reachable state of a client, whatever the user, the server and the timers did, the document
  and the composition base are well-formed, no operation is in two batches in flight, and every sequence number
  in use is below the next one, with one batch each.\<close>

theorem reachable_invariant:
  assumes "reachable cid s"
  shows "wf_doc (the_doc s) \<and> distinct (outstanding s) \<and> distinct (map fst (sentBatches s)) \<and>
    (\<forall>q\<in>fst ` set (sentBatches s). q < nextSeq s) \<and> (\<forall>d. compositionBaseDoc s = Some d \<longrightarrow> wf_doc d)"
  using reachable_inv [OF assms] by (simp add: client_inv_def flight_ok_def outstanding_flight)

lemma reachable_invariant_witness:
  "wf_doc (the_doc (client_step 7 0 FlushTimerFired (client_step 5 0 (Typed (js ''hi'') 2 2)
     (boot 0 (js ''0123456789abcdef'') None None []))))"
  by (rule conjunct1 [OF reachable_invariant [OF reach_step [OF reach_step [OF reach_init]]]])

text \<open>C15: Flushing. On a live socket with a valid lifetime and something to send, a flush sends, under a
  fresh sequence number, the first operations not in flight in their order, at most a thousand; they are in
  flight afterwards, nothing leaves the pending operations, and when some did not fit the flush timer is set
  again.\<close>

theorem flush_sends_unsent:
  assumes "readTTLSeconds s \<noteq> 0" "ws_connected s" "socket_open s" "unsent s \<noteq> []"
    and "nextSeq s \<notin> fst ` set (sentBatches s)" "t = flushPending now s"
  shows "pendingOps t = pendingOps s \<and> nextSeq t = nextSeq s + 1 \<and>
    Send (WsOps (take 1000 (unsent s)) (readTTLSeconds s) (nextSeq s) (roomPassword s)) \<in> set (out t) \<and>
    set (outstanding t) = set (outstanding s) \<union> opKey ` set (take 1000 (unsent s)) \<and>
    (1000 < length (unsent s) \<longrightarrow> flushTimer t \<and> Arm FlushTimer 60 \<in> set (out t))"
proof -
  let ?b = "take 1000 (unsent s)"
  have b: "(if maxOpsPerSend < length (unsent s) then take maxOpsPerSend (unsent s) else unsent s) = ?b"
    by (simp add: maxOpsPerSend_def)
  have ne: "?b \<noteq> []" using assms(4) by simp
  define s2 where "s2 = (emit (PulseTraffic Up) (emit (Send (WsOps ?b (readTTLSeconds s) (nextSeq s) (roomPassword s)))
      (s\<lparr>nextSeq := nextSeq s + 1\<rparr>)))\<lparr>sentBatches := sentBatches s @ [(nextSeq s, \<lparr>sb_ids = remdups (map opKey ?b), sb_at = now\<rparr>)]\<rparr>"
  have t: "t = (if maxOpsPerSend < length (unsent s) then scheduleFlush s2 else s2)"
    unfolding assms(6) flushPending_def Let_def b s2_def
    using assms(1-5) ne by (simp add: alist_put_fresh)
  have o: "set (outstanding s2) = set (outstanding s) \<union> opKey ` set ?b" "pendingOps s2 = pendingOps s"
    "nextSeq s2 = nextSeq s + 1"
    "Send (WsOps ?b (readTTLSeconds s) (nextSeq s) (roomPassword s)) \<in> set (out s2)"
    by (simp_all add: s2_def outstanding_def) (simp add: emit_def)
  have "outstanding (scheduleFlush s2) = outstanding s2" by (simp add: outstanding_def)
  moreover have "flushTimer (scheduleFlush s2)" "set (out (scheduleFlush s2)) = insert (Arm FlushTimer 60) (set (out s2))"
    by (simp_all add: scheduleFlush_def setStatus_def emit_def)
  ultimately show ?thesis using o by (cases "1000 < length (unsent s)") (simp_all add: t maxOpsPerSend_def)
qed

lemma flush_sends_unsent_witness:
  "pendingOps (flushPending 9 ((initial_app [97])\<lparr>pendingOps := [ins_op (js ''a:1'') [] (js ''x'')], ws_connected := True,
     socket := Some (0, Open)\<rparr>)) = [ins_op (js ''a:1'') [] (js ''x'')]"
proof -
  let ?s = "(initial_app [97])\<lparr>pendingOps := [ins_op (js ''a:1'') [] (js ''x'')], ws_connected := True,
     socket := Some (0, Open)\<rparr>"
  have "readTTLSeconds ?s = readTTLSeconds (setTTLControls 3600 ?s)"
    by (simp add: readTTLSeconds_def setTTLControls_def initial_app_def) (simp add: js_eval)
  then have "readTTLSeconds ?s \<noteq> 0" using ttl_read_set [of 3600 ?s] by (simp add: max_safe_def)
  moreover have "unsent ?s = [ins_op (js ''a:1'') [] (js ''x'')]"
    by (simp add: unsent_def outstanding_def initial_app_def) (simp add: js_eval)
  moreover have "socket_open ?s" by (simp add: socket_open_def)
  ultimately show ?thesis using flush_sends_unsent [OF _ _ _ _ _ refl, of ?s 9] by (simp add: initial_app_def)
qed

text \<open>Acknowledgement. An acknowledgement without an error removes from the pending operations exactly
  those of the acknowledged batch, in place, ends the flight of that batch only, and leaves the document alone.\<close>

lemma ack_drops_its_batch:
  assumes "map_of (sentBatches s) (or_zero (m_seq data)) = Some b" "or_empty (m_error data) = []"
  shows "pendingOps (handleAck data s) =
      filter (\<lambda>x. op_id x = [] \<or> opKey x \<notin> set (sb_ids b)) (pendingOps s) \<and>
    sentBatches (handleAck data s) = filter (\<lambda>(q, c). q \<noteq> or_zero (m_seq data)) (sentBatches s) \<and>
    the_doc (handleAck data s) = the_doc s"
proof -
  define u where "u = (ack_batch (or_zero (m_seq data)) s)\<lparr>pendingOps := drop_acked (sb_ids b) (pendingOps s)\<rparr>"
  have h: "handleAck data s = ack_accepted data u"
    using assms by (simp add: handleAck_def Let_def u_def js_def)
  have "pendingOps (ack_accepted data u) = pendingOps u \<and> sentBatches (ack_accepted data u) = sentBatches u \<and>
      the_doc (ack_accepted data u) = the_doc u"
    by (simp add: ack_accepted_def Let_def)
  then show ?thesis unfolding h
    by (simp add: u_def ack_batch_def drop_acked_def de_Morgan_conj)
qed

definition demo_msg :: msg where
  [js_eval]: "demo_msg = \<lparr>m_type = js ''state'', m_version = Some 1, m_generation = Some (Fin 1), m_exists = Some True,
     m_content = None, m_items = None, m_itemsSite = None, m_ops = None, m_updatedBy = None,
     m_editPasswordSet = None, m_passwordScope = None, m_passwordRequired = False, m_ttlSeconds = None,
     m_expiresAt = None, m_error = None, m_seq = None, m_cursors = None\<rparr>"

section \<open>Snapshots\<close>

text \<open>Stale messages change nothing. Outside a composition, a snapshot the staleness test rejects, and a
  broadcast of an older generation, leave the whole state as it is.\<close>

lemma stale_messages_ignored:
  assumes "\<not> compositionIsActive s"
  shows "(snapshotIsStale data s \<longrightarrow> handleState now data s = s) \<and>
    (hasGeneration data \<and> messageGeneration data < knownGeneration s \<longrightarrow> handleRemoteOps now data s = s)"
  using assms by (simp add: handleState_def handleRemoteOps_def Let_def)

lemma adopt_fields:
  "knownVersion (adopt_snapshot data s) = or_zero (m_version data)"
  "knownGeneration (adopt_snapshot data s) = (if hasGeneration data then messageGeneration data else knownGeneration s)"
  "knownExists (adopt_snapshot data s) = messageExists data"
  "the_doc (adopt_snapshot data s) = snapshot_doc (CLIENT_ID s) data"
  "lastSyncedText (adopt_snapshot data s) = materialize (snapshot_doc (CLIENT_ID s) data)"
  "pendingOps (adopt_snapshot data s) = pendingOps s" "sentBatches (adopt_snapshot data s) = []"
  "CLIENT_ID (adopt_snapshot data s) = CLIENT_ID s"
  "undoStack (adopt_snapshot data s) = undoStack s" "redoStack (adopt_snapshot data s) = redoStack s"
proof -
  have g: "\<not> hasGeneration data \<Longrightarrow> messageGeneration data = 0" by (simp add: hasGeneration_def messageGeneration_def)
  have t: "knownGeneration (take_snapshot data s) = (if hasGeneration data then messageGeneration data else knownGeneration s)"
    "knownVersion (take_snapshot data s) = or_zero (m_version data)" "knownExists (take_snapshot data s) = messageExists data"
    "the_doc (take_snapshot data s) = snapshot_doc (CLIENT_ID s) data" "pendingOps (take_snapshot data s) = pendingOps s"
    "CLIENT_ID (take_snapshot data s) = CLIENT_ID s"
    "undoStack (take_snapshot data s) = undoStack s" "redoStack (take_snapshot data s) = redoStack s"
    by (simp_all add: take_snapshot_def bumpClockFromDoc_def Let_def)
  have "\<not> knownGeneration (take_snapshot data s) < messageGeneration data" using g by (simp add: t)
  then have a: "adopt_snapshot data s = (take_snapshot data s)\<lparr>lastSyncedText := materialize (the_doc (take_snapshot data s)), sentBatches := []\<rparr>"
    by (simp add: adopt_snapshot_def clear_undo_if_newer_def Let_def)
  show "knownVersion (adopt_snapshot data s) = or_zero (m_version data)"
    "knownGeneration (adopt_snapshot data s) = (if hasGeneration data then messageGeneration data else knownGeneration s)"
    "knownExists (adopt_snapshot data s) = messageExists data"
    "the_doc (adopt_snapshot data s) = snapshot_doc (CLIENT_ID s) data"
    "lastSyncedText (adopt_snapshot data s) = materialize (snapshot_doc (CLIENT_ID s) data)"
    "pendingOps (adopt_snapshot data s) = pendingOps s" "sentBatches (adopt_snapshot data s) = []"
    "CLIENT_ID (adopt_snapshot data s) = CLIENT_ID s"
    "undoStack (adopt_snapshot data s) = undoStack s" "redoStack (adopt_snapshot data s) = redoStack s"
    by (simp_all add: a t)
qed

text \<open>The editor's text and the first-snapshot flag do not change before the text is painted.\<close>

lemma gate_editor [simp]:
  "ed_value (content (unlock_editor (syncEditLockGate (noteEditPasswordSet data s)))) = ed_value (content s)"
  "initialSnapshotApplied (unlock_editor (syncEditLockGate (noteEditPasswordSet data s))) = initialSnapshotApplied s"
proof -
  have n: "content (noteEditPasswordSet data s) = content s"
    "initialSnapshotApplied (noteEditPasswordSet data s) = initialSnapshotApplied s"
    by (simp_all add: noteEditPasswordSet_def Let_def split: option.splits)
  have g: "ed_value (content (syncEditLockGate u)) = ed_value (content u)"
    "initialSnapshotApplied (syncEditLockGate u) = initialSnapshotApplied u" for u
    by (simp_all add: syncEditLockGate_def hideRoomLock_def showRoomLock_def applyReadOnlyControls_def setStatus_def emit_def Let_def)
  have u: "ed_value (content (unlock_editor u)) = ed_value (content u)"
    "initialSnapshotApplied (unlock_editor u) = initialSnapshotApplied u" for u
    by (simp_all add: unlock_editor_def)
  show "ed_value (content (unlock_editor (syncEditLockGate (noteEditPasswordSet data s)))) = ed_value (content s)"
    "initialSnapshotApplied (unlock_editor (syncEditLockGate (noteEditPasswordSet data s))) = initialSnapshotApplied s"
    by (simp_all add: n g u)
qed

lemma handleState_core:
  assumes "\<not> compositionIsActive s" "\<not> snapshotIsStale data s" "\<not> m_passwordRequired data"
  shows "core (handleState now data s) = core (merge_unsynced now (ed_value (content s)) (lastSyncedText s)
    (pendingOps s \<noteq> [] \<or> \<not> initialSnapshotApplied s \<and> lastSyncedText s = [] \<and> ed_value (content s) \<noteq> [])
    (adopt_snapshot data (unlock_editor (syncEditLockGate (noteEditPasswordSet data s)))))"
proof -
  have "(pendingOps s \<noteq> [] \<or> (if \<not> initialSnapshotApplied s \<and> \<not> pendingOps s \<noteq> [] \<and> lastSyncedText s = []
        then ed_value (content s) else []) \<noteq> []) =
      (pendingOps s \<noteq> [] \<or> \<not> initialSnapshotApplied s \<and> lastSyncedText s = [] \<and> ed_value (content s) \<noteq> [])"
    by auto
  then show ?thesis using assms by (simp add: handleState_def Let_def)
qed

text \<open>A snapshot with nothing to lose. When nothing is pending and a snapshot was applied before, a snapshot
  that is not stale and not withheld replaces the document by the one it describes, with its version, generation
  and existence, its text is the base of the next merge, and no batch is in flight.\<close>

lemma snapshot_adopted:
  assumes "\<not> compositionIsActive s" "\<not> snapshotIsStale data s" "\<not> m_passwordRequired data"
    and "pendingOps s = []" "initialSnapshotApplied s" "t = handleState now data s"
  shows "the_doc t = snapshot_doc (CLIENT_ID s) data \<and> lastSyncedText t = materialize (the_doc t) \<and> pendingOps t = [] \<and>
    sentBatches t = [] \<and> knownVersion t = or_zero (m_version data) \<and> knownExists t = messageExists data \<and>
    knownGeneration t = (if hasGeneration data then messageGeneration data else knownGeneration s)"
proof -
  let ?a = "adopt_snapshot data (unlock_editor (syncEditLockGate (noteEditPasswordSet data s)))"
  have "core t = core ?a"
    using handleState_core [OF assms(1-3), of now] assms(4-6)
    by (simp add: merge_unsynced_def replay_pending_def adopt_fields Let_def)
  from core_frame [OF this] show ?thesis using assms(4) by (simp add: adopt_fields)
qed

text \<open>C37: Undo history survives a new room. The code means to drop the undo and redo stacks when a snapshot
  carries a newer generation, but it compares after it has taken that generation over: whatever the generation,
  a snapshot with nothing pending leaves both stacks as they were.\<close>

theorem snapshot_never_clears_undo:
  assumes "\<not> compositionIsActive s" "\<not> m_passwordRequired data" "pendingOps s = []" "initialSnapshotApplied s"
    and "hasGeneration data" "knownGeneration s < messageGeneration data"
  shows "knownGeneration (handleState now data s) = messageGeneration data \<and>
    undoStack (handleState now data s) = undoStack s \<and> redoStack (handleState now data s) = redoStack s"
proof -
  let ?a = "adopt_snapshot data (unlock_editor (syncEditLockGate (noteEditPasswordSet data s)))"
  have ns: "\<not> snapshotIsStale data s" using assms(5,6) by (simp add: snapshotIsStale_def Let_def)
  have "core (handleState now data s) = core ?a"
    using handleState_core [OF assms(1) ns assms(2), of now] assms(3,4)
    by (simp add: merge_unsynced_def replay_pending_def adopt_fields Let_def)
  from core_frame [OF this] show ?thesis using assms(5) by (simp add: adopt_fields)
qed
lemma snapshot_never_clears_undo_witness:
  "undoStack (handleState 9 (demo_msg\<lparr>m_generation := Some (Fin 7)\<rparr>) ((initial_app [97])\<lparr>initialSnapshotApplied := True,
     undoStack := [\<lparr>ue_ops = [del_op (js ''a:1'')], ue_at = 0\<rparr>]\<rparr>)) = [\<lparr>ue_ops = [del_op (js ''a:1'')], ue_at = 0\<rparr>]"
proof -
  let ?s = "(initial_app [97])\<lparr>initialSnapshotApplied := True, undoStack := [\<lparr>ue_ops = [del_op (js ''a:1'')], ue_at = 0\<rparr>]\<rparr>"
  let ?m = "demo_msg\<lparr>m_generation := Some (Fin 7)\<rparr>"
  have "\<not> compositionIsActive ?s" "\<not> m_passwordRequired ?m" "pendingOps ?s = []" "initialSnapshotApplied ?s"
    "hasGeneration ?m" "knownGeneration ?s < messageGeneration ?m"
    by (simp_all add: compositionIsActive_def hasGeneration_def messageGeneration_def demo_msg_def initial_app_def)
  from snapshot_never_clears_undo [OF this, of 9] show ?thesis by simp
qed

text \<open>C21: Versions move forward. Outside a composition, a snapshot that carries a generation never lowers the known
  generation; within one generation it never lowers the version of a room that existed before and after.\<close>

theorem snapshot_versions_monotone:
  assumes "\<not> compositionIsActive s" "hasGeneration data" "t = handleState now data s"
  shows "knownGeneration s \<le> knownGeneration t \<and>
    (knownGeneration t = knownGeneration s \<and> knownExists s \<and> knownExists t \<longrightarrow> knownVersion s \<le> knownVersion t)"
proof (cases "snapshotIsStale data s \<or> m_passwordRequired data")
  case True
  have "core (handleState now data s) = core s"
    using True assms(1) by (cases "snapshotIsStale data s") (simp_all add: handleState_def Let_def)
  from core_frame [OF this] show ?thesis by (simp add: assms(3))
next
  case False
  let ?a = "adopt_snapshot data (unlock_editor (syncEditLockGate (noteEditPasswordSet data s)))"
  have m: "knownGeneration (merge_unsynced now v base b u) = knownGeneration u \<and>
      knownVersion (merge_unsynced now v base b u) = knownVersion u \<and>
      knownExists (merge_unsynced now v base b u) = knownExists u" for v base b u
    using applyLocalText_frame
    by (simp add: merge_unsynced_def replay_pending_def bumpClockFromDoc_def Let_def split: prod.splits)
  have "knownGeneration t = messageGeneration data" "knownVersion t = or_zero (m_version data)"
    "knownExists t = messageExists data"
    using core_frame [OF handleState_core [OF assms(1), of data now]] False assms(2,3) by (simp_all add: m adopt_fields)
  then show ?thesis using False assms(2) by (auto simp: snapshotIsStale_def Let_def split: if_splits)
qed

lemma snapshot_versions_monotone_witness:
  "knownGeneration ((initial_app [97])\<lparr>knownGeneration := 3\<rparr>)
     \<le> knownGeneration (handleState 9 demo_msg ((initial_app [97])\<lparr>knownGeneration := 3\<rparr>))"
  by (rule conjunct1 [OF snapshot_versions_monotone [OF _ _ refl]])
     (simp_all add: compositionIsActive_def hasGeneration_def demo_msg_def initial_app_def)

text \<open>C11: Pending edits survive a snapshot. When the pending operations can be applied to the document of a
  snapshot, the client ends with that document with all of them applied, they stay pending, and none counts as
  in flight, so each will be sent again.\<close>

theorem snapshot_replays_pending:
  assumes "\<not> compositionIsActive s" "\<not> snapshotIsStale data s" "\<not> m_passwordRequired data"
    and "pendingOps s \<noteq> []" "applyBatch (snapshot_doc (CLIENT_ID s) data) (pendingOps s) = (d', BatchOk b)"
    and "t = handleState now data s"
  shows "the_doc t = d' \<and> pendingOps t = pendingOps s \<and> outstanding t = [] \<and>
    lastSyncedText t = materialize (snapshot_doc (CLIENT_ID s) data)"
proof -
  let ?a = "adopt_snapshot data (unlock_editor (syncEditLockGate (noteEditPasswordSet data s)))"
  have "core t = core (bumpClockFromDoc (?a\<lparr>the_doc := d'\<rparr>))"
    using handleState_core [OF assms(1-3), of now] assms(4-6)
    by (simp add: merge_unsynced_def replay_pending_def adopt_fields batch_ok_def Let_def)
  from core_frame [OF this] show ?thesis
    by (simp add: adopt_fields bump_core outstanding_def) (simp add: bumpClockFromDoc_def Let_def adopt_fields)
qed

lemma snapshot_replays_pending_witness:
  "pendingOps (handleState 9 demo_msg ((initial_app [97])\<lparr>pendingOps := [ins_op (js ''a:1'') [] (js ''x'')]\<rparr>))
     = [ins_op (js ''a:1'') [] (js ''x'')]"
proof -
  let ?s = "(initial_app [97])\<lparr>pendingOps := [ins_op (js ''a:1'') [] (js ''x'')]\<rparr>"
  have "\<not> compositionIsActive ?s" "\<not> snapshotIsStale demo_msg ?s" "\<not> m_passwordRequired demo_msg" "pendingOps ?s \<noteq> []"
    by (simp_all add: compositionIsActive_def snapshotIsStale_def hasGeneration_def messageGeneration_def
        demo_msg_def initial_app_def)
  moreover have "applyBatch (snapshot_doc (CLIENT_ID ?s) demo_msg) (pendingOps ?s) =
      (fst (applyBatch newDoc [ins_op (js ''a:1'') [] (js ''x'')]), BatchOk True)"
    by (simp add: initial_app_def) (simp add: js_eval)
  ultimately show ?thesis using snapshot_replays_pending [OF _ _ _ _ _ refl, of ?s demo_msg _ True 9] by simp
qed



section \<open>Merging\<close>

lemma diff_lo_same: "diff_lo xs xs = length xs"
  by (induction xs) auto

lemma diff_ro_stop: "diff_ro n old new n m = (n, m)"
  by (cases n) auto

lemma diff_same: "df_ops (diffToOps xs ids xs site m) = []"
  by (simp add: diffToOps_def diff_lo_same diff_ro_stop)

lemma maxClockFromIds_le:
  "\<forall>i\<in>set ids. \<forall>s c. parseID i = Some (s, c) \<longrightarrow> c \<le> m \<Longrightarrow> maxClockFromIds ids \<le> m"
proof -
  assume "\<forall>i\<in>set ids. \<forall>s c. parseID i = Some (s, c) \<longrightarrow> c \<le> m"
  then have "fold (\<lambda>iden mx. case parseID iden of Some (_, c) \<Rightarrow> if mx < c then c else mx | None \<Rightarrow> mx) ids n \<le> m"
    if "n \<le> m" for n
    using that by (induction ids arbitrary: n) (auto split: option.splits)
  then show ?thesis by (simp add: maxClockFromIds_def)
qed

lemma maxClock_le: "\<lbrakk>canonical_doc d; clocks_le d m\<rbrakk> \<Longrightarrow> maxClock d \<le> m"
proof -
  assume c: "canonical_doc d" and cl: "clocks_le d m"
  have "\<forall>i\<in>set (map fst (items d)). \<forall>s c'. parseID i = Some (s, c') \<longrightarrow> c' \<le> m"
    using cl by (auto simp: clocks_le_def doc_ids_def id_clock_def)
  then show ?thesis unfolding maxClock_def by (rule maxClockFromIds_le)
qed

lemma build_base:
  assumes "length (codePoints base) \<le> max_exact"
  shows "\<exists>d. buildFromString (js ''base'') base = Some d \<and> canonical_doc d \<and> clocks_le d (maxClock d) \<and>
    maxClock d \<le> length (codePoints base) \<and> map it_ch (visible d) = codePoints base \<and> materialize d = base"
proof -
  have "js ''base'' \<noteq> []" "colon \<notin> set (js ''base'')" by (simp_all add: js_eval)
  from buildFromString_ok [OF this assms] obtain d where d: "buildFromString (js ''base'') base = Some d"
    "canonical_doc d" "clocks_le d (length (codePoints base))" "map it_ch (visible d) = codePoints base" by blast
  then show ?thesis using maxClock_le clocks_le_maxClock [OF d(2)] aligned_chars by (metis order_refl)
qed

text \<open>Three-way merge with one side unchanged. If only one of the two texts differs from the base, the
  merge is that text.\<close>

lemma merge3_one_sided:
  assumes "length (codePoints base) + length (codePoints new) \<le> max_exact"
  shows "merge3 base base new = new \<and> merge3 base new base = new"
proof -
  obtain d where d: "buildFromString (js ''base'') base = Some d" "canonical_doc d" "clocks_le d (maxClock d)"
    "maxClock d \<le> length (codePoints base)" "map it_ch (visible d) = codePoints base" "materialize d = base"
    using build_base assms by (metis add_leD1)
  have m: "maxClock d + length (codePoints new) \<le> max_exact" using assms d(4) by linarith
  let ?ops = "\<lambda>site. df_ops (diffToOps (codePoints base) (visibleIds d) (codePoints new) site (maxClock d))"
  have side: "(case ?ops site of [] \<Rightarrow> new = base | _ \<Rightarrow>
      \<exists>d' b. applyBatch d (?ops site) = (d', BatchOk b) \<and> materialize d' = new)"
    if "site \<noteq> []" "colon \<notin> set site" for site
  proof (cases "?ops site = []")
    case True
    then have "new = base" using diff_not_empty by (metis codePoints_concat)
    with True show ?thesis by simp
  next
    case False
    then have "\<exists>d' b. applyBatch d (?ops site) = (d', BatchOk b) \<and> materialize d' = new"
      using diff_applies [OF d(2,3,5) that m _ refl False] codePoints_single aligned_chars by blast
    with False show ?thesis by (cases "?ops site") simp_all
  qed
  have sites: "js ''their'' \<noteq> []" "colon \<notin> set (js ''their'')" "js ''mine'' \<noteq> []" "colon \<notin> set (js ''mine'')"
    by (simp_all add: js_eval)
  have "merge3 base base new = new"
    using side [OF sites(1,2)] d(1,6)
    by (cases "?ops (js ''their'')") (auto simp: merge3_def Let_def diff_same batch_ok_def)
  moreover have "merge3 base new base = new"
    using side [OF sites(3,4)] d(1,6)
    by (cases "?ops (js ''mine'')") (auto simp: merge3_def Let_def diff_same batch_ok_def)
  ultimately show ?thesis by blast
qed

section \<open>Composition\<close>

text \<open>Nothing moves under a composition. While one is active or about to be committed, a content message of
  the server only joins the queue: the document, the pending operations, the known version and the editor stay,
  whether it came as a snapshot, a broadcast, a conflict answer or a load.\<close>

lemma composition_defers:
  assumes "compositionIsActive s"
  shows "handleState now data s = s\<lparr>deferredContentMessages := deferredContentMessages s @ [DMsg data]\<rparr> \<and>
    handleRemoteOps now data s = s\<lparr>deferredContentMessages := deferredContentMessages s @ [DMsg data]\<rparr> \<and>
    mergeServerState data s = s\<lparr>deferredContentMessages := deferredContentMessages s @ [DRest data]\<rparr> \<and>
    load_done force (Some data) s = s\<lparr>deferredContentMessages := deferredContentMessages s @ [DRestLoad data force]\<rparr>"
  using assms by (simp add: handleState_def handleRemoteOps_def mergeServerState_def load_done_def)




section \<open>The lock\<close>

text \<open>Read-only rooms. In a room whose edit lock is closed, undo, redo, typing and starting a composition
  leave the document, the pending operations and both stacks alone.\<close>

lemma read_only_blocks_edits:
  assumes "roomAccess s = Locked" "passwordScope s \<noteq> js ''view''" "ed_readOnly (content s)"
    and "e \<in> {KeyUndo, KeyRedo, Typed v a b, CompositionStart, CompositionTyped v a b}"
  shows "core (client_step now jitter e s) = core s"
  using assms(4)
  by (auto simp: client_step_def assms undo_def redo_def blockWhenReadOnly_def roomNeedsUnlock_def isViewGate_def)


section \<open>Draining\<close>

text \<open>What a flush looks at besides the queue: the lifetime controls and the connection.\<close>

definition line :: "app \<Rightarrow> jsstring \<times> jsstring \<times> bool \<times> (nat \<times> ready_state) option" where
  "line s = (ttlValue s, ttlUnit s, ws_connected s, socket s)"

definition line_open :: "app \<Rightarrow> bool" where
  "line_open s \<longleftrightarrow> readTTLSeconds s \<noteq> 0 \<and> ws_connected s \<and> socket_open s"

lemma line_open_cong: "line t = line s \<Longrightarrow> line_open t = line_open s"
  by (simp add: line_def line_open_def readTTLSeconds_def socket_open_def)

lemma line_simps [simp]:
  "line (emit e s) = line s" "line (setStatus k s) = line s" "line (scheduleFlush s) = line s"
  "line (s\<lparr>sentBatches := b\<rparr>) = line s" "line (s\<lparr>nextSeq := q\<rparr>) = line s" "line (s\<lparr>flushTimer := f\<rparr>) = line s"
  "line (s\<lparr>pendingOps := p\<rparr>) = line s" "line (setIdleStatus s) = line s" "line (announceFirstSave c s) = line s" "line (updateMeta m s) = line s"
  by (simp_all add: line_def emit_def setStatus_def scheduleFlush_def setIdleStatus_def announceFirstSave_def
      updateMeta_def Let_def)

lemma ack_accepted_keeps [simp]:
  "line (ack_accepted data s) = line s" "pendingOps (ack_accepted data s) = pendingOps s"
  "sentBatches (ack_accepted data s) = sentBatches s"
  by (simp_all add: ack_accepted_def Let_def) (simp add: line_def)

text \<open>
  One exchange: the flush timer fires, and the server acknowledges the batch it sent. The server is free in
  everything the acknowledgement holds but its number and that it reports no error.
\<close>

fun exchanges :: "(nat \<times> msg) list \<Rightarrow> app \<Rightarrow> app" where
  "exchanges [] s = s"
| "exchanges ((now, data) # es) s =
     exchanges es (handleAck (data\<lparr>m_seq := Some (nextSeq s), m_error := None\<rparr>) (flushTimer_fired now s))"

lemma flush_idle_line:
  assumes "line_open s" "sentBatches s = []" "list_all (\<lambda>x. op_id x \<noteq> []) (pendingOps s)"
  shows "pendingOps (flushTimer_fired now s) = pendingOps s \<and>
    sentBatches (flushTimer_fired now s) = (if pendingOps s = [] then []
      else [(nextSeq s, \<lparr>sb_ids = remdups (map opKey (take 1000 (pendingOps s))), sb_at = now\<rparr>)]) \<and>
    line (flushTimer_fired now s) = line s"
proof -
  let ?s = "s\<lparr>flushTimer := False\<rparr>"
  have u: "unsent ?s = pendingOps s"
    using assms(2,3) by (simp add: unsent_def outstanding_def list_all_iff)
  then have l: "readTTLSeconds ?s \<noteq> 0" "ws_connected ?s" "socket_open ?s"
    using assms(1) line_open_cong [of ?s s] by (simp_all add: line_open_def)
  let ?b = "if maxOpsPerSend < length (pendingOps s) then take maxOpsPerSend (pendingOps s) else pendingOps s"
  have b: "?b = take 1000 (pendingOps s)" by (simp add: maxOpsPerSend_def)
  have n: "take 1000 (pendingOps s) = [] \<longleftrightarrow> pendingOps s = []" by simp
  show ?thesis
    unfolding flushTimer_fired_def flushPending_def Let_def u b
    using l assms(2) n by simp
qed

lemma exchange_step:
  assumes "line_open s" "sentBatches s = []" "list_all (\<lambda>x. op_id x \<noteq> []) (pendingOps s)"
    and "t = handleAck (data\<lparr>m_seq := Some (nextSeq s), m_error := None\<rparr>) (flushTimer_fired now s)"
  shows "line_open t \<and> sentBatches t = [] \<and> list_all (\<lambda>x. op_id x \<noteq> []) (pendingOps t) \<and>
    length (pendingOps t) \<le> length (pendingOps s) - 1000"
proof -
  let ?u = "flushTimer_fired now s" and ?k = "map opKey (take 1000 (pendingOps s))"
  note f = flush_idle_line [OF assms(1-3), of now]
  define v where "v = (if pendingOps s = [] then ?u
     else (ack_batch (nextSeq s) ?u)\<lparr>pendingOps := drop_acked (remdups ?k) (pendingOps ?u)\<rparr>)"
  have t: "t = ack_accepted (data\<lparr>m_seq := Some (nextSeq s), m_error := None\<rparr>) v"
    using f by (simp add: assms(4) handleAck_def Let_def v_def js_def)
  have v: "line v = line s \<and> sentBatches v = [] \<and> pendingOps v = drop_acked (remdups ?k) (pendingOps s)"
  proof (cases "pendingOps s = []")
    case True
    with f show ?thesis by (simp add: v_def drop_acked_def)
  next
    case False
    with f show ?thesis by (simp add: v_def ack_batch_def)
  qed
  have l: "line_open t" using assms(1) line_open_cong [of t s] v by (simp add: t)
  have sb: "sentBatches t = []" using v by (simp add: t)
  have p: "pendingOps t = drop_acked (remdups ?k) (pendingOps s)" using v by (simp add: t)
  have split: "drop_acked (remdups ?k) (pendingOps s) = drop_acked (remdups ?k) (take 1000 (pendingOps s)) @
      drop_acked (remdups ?k) (drop 1000 (pendingOps s))"
    unfolding drop_acked_def filter_append [symmetric] append_take_drop_id ..
  have "drop_acked (remdups ?k) (take 1000 (pendingOps s)) = []"
    using assms(3) by (auto simp: drop_acked_def filter_empty_conv list_all_iff dest: in_set_takeD)
  then have "length (pendingOps t) \<le> length (pendingOps s) - 1000"
    unfolding p split by (simp add: drop_acked_def order_trans [OF length_filter_le])
  moreover have "list_all (\<lambda>x. op_id x \<noteq> []) (pendingOps t)"
    using assms(3) unfolding p by (simp add: drop_acked_def list_all_iff)
  ultimately show ?thesis using l sb by blast
qed

text \<open>C16: Pending operations are delivered. On a live socket with a valid lifetime and nothing in flight, as many
  exchanges as there are thousands of pending operations leave none pending and none in flight, whatever else
  the acknowledgements say.\<close>

theorem pending_drains:
  assumes "readTTLSeconds s \<noteq> 0" "ws_connected s" "socket_open s" "sentBatches s = []"
    and "\<forall>x\<in>set (pendingOps s). op_id x \<noteq> []" "length (pendingOps s) \<le> 1000 * length es"
  shows "pendingOps (exchanges es s) = [] \<and> sentBatches (exchanges es s) = []"
proof -
  have "line_open s" "list_all (\<lambda>x. op_id x \<noteq> []) (pendingOps s)"
    using assms(1-3,5) by (simp_all add: line_open_def list_all_iff)
  then show ?thesis using assms(4,6)
  proof (induction es arbitrary: s)
    case (Cons e es)
    obtain now data where e: "e = (now, data)" by (cases e)
    let ?t = "handleAck (data\<lparr>m_seq := Some (nextSeq s), m_error := None\<rparr>) (flushTimer_fired now s)"
    note st = exchange_step [OF Cons.prems(1,3,2) refl, of data now]
    show ?case unfolding e exchanges.simps
    proof (rule Cons.IH)
      have "length (pendingOps ?t) \<le> length (pendingOps s) - 1000" using st by blast
      also have "\<dots> \<le> 1000 * length es" using Cons.prems(4) by simp
      finally show "length (pendingOps ?t) \<le> 1000 * length es" .
    qed (use st in blast)+
  qed simp
qed

lemma pending_drains_witness:
  "let s = (initial_app [97])\<lparr>pendingOps := [ins_op (js ''a:1'') [] (js ''x'')], ws_connected := True,
     socket := Some (0, Open)\<rparr>
   in pendingOps (exchanges [(9, demo_msg)] s) = []"
proof -
  let ?s = "(initial_app [97])\<lparr>pendingOps := [ins_op (js ''a:1'') [] (js ''x'')], ws_connected := True,
     socket := Some (0, Open)\<rparr>"
  have "readTTLSeconds ?s = readTTLSeconds (setTTLControls 3600 ?s)"
    by (simp add: readTTLSeconds_def setTTLControls_def initial_app_def) (simp add: js_eval)
  then have "readTTLSeconds ?s \<noteq> 0" using ttl_read_set [of 3600 ?s] by (simp add: max_safe_def)
  moreover have "socket_open ?s" by (simp add: socket_open_def)
  ultimately have "pendingOps (exchanges [(9, demo_msg)] ?s) = []"
    using pending_drains [of ?s "[(9, demo_msg)]"] by (simp add: initial_app_def js_def)
  then show ?thesis by (simp add: Let_def)
qed

end
