(* ===== verification/PeerProps.thy ===== *)
theory PeerProps
  imports ClientProps
begin

text \<open>
  What holds of the parts around the text: the lifetime controls, the retry delays, the status line, the carets
  and colours of the peers, the restored selection and the client identifier. Witnesses follow their theorems.
\<close>

section \<open>Times\<close>

text \<open>C34: Lifetime. A lifetime written into the two fields is read back rounded down to whole minutes, and is at
  least one; so one of whole minutes comes back as it was, and one of ninety seconds as sixty.\<close>

theorem ttl_round_trip:
  assumes "0 < n" "int n \<le> max_safe"
  shows "readTTLSeconds (setTTLControls n s) = max 60 (n div 60 * 60)"
  by (rule ttl_read_set_rounded [OF assms])

lemma ttl_round_trip_witness:
  "readTTLSeconds (setTTLControls 7200 (initial_app [97])) = 7200 \<and> readTTLSeconds (setTTLControls 90 (initial_app [97])) = 60"
  using ttl_round_trip [of 7200 "initial_app [97]"] ttl_round_trip [of 90 "initial_app [97]"] by (simp add: max_safe_def)

text \<open>The delays before a reconnect and before a whole-text save.\<close>

lemma backoff_bounds:
  assumes "jitter < 400" "a \<le> b"
  shows "1000 \<le> reconnect_delay a jitter \<and> reconnect_delay a jitter < 15400 \<and>
    reconnect_delay a jitter \<le> reconnect_delay b jitter \<and>
    (1 \<le> a \<and> a < 4 \<longrightarrow> reconnect_delay (a + 1) 0 = 2 * reconnect_delay a 0) \<and>
    (\<exists>k. out (schedulePutFallback s) = out s @ [Arm PutFallbackTimer k] \<and> 200 \<le> k \<and> k \<le> 3200)"
proof -
  have small: "k \<le> 4 \<Longrightarrow> k = 0 \<or> k = 1 \<or> k = 2 \<or> k = 3 \<or> k = (4::nat)" for k by arith
  have p: "(1000::nat) \<le> min 15000 (1000 * 2 ^ k)" if "k \<le> 4" for k :: nat
    using small [OF that] by auto
  have f: "200 \<le> min 3200 ((200::nat) * 2 ^ k) \<and> min 3200 (200 * 2 ^ k) \<le> (3200::nat)" if "k \<le> 4" for k :: nat
    using small [OF that] by auto
  have mono: "min (a - 1) 4 \<le> min (b - 1) (4::nat)" using assms(2) by linarith
  have "(2::nat) ^ min (a - 1) 4 \<le> 2 ^ min (b - 1) 4" using mono by (rule power_increasing) simp
  then have m: "reconnect_delay a jitter \<le> reconnect_delay b jitter"
    by (simp only: reconnect_delay_def) (rule add_right_mono, rule min.mono, simp_all)
  have r: "1000 \<le> reconnect_delay a jitter \<and> reconnect_delay a jitter < 15400"
    using p [of "min (a - 1) 4"] assms(1) unfolding reconnect_delay_def by linarith
  have d: "reconnect_delay (a + 1) 0 = 2 * reconnect_delay a 0" if "1 \<le> a" "a < 4"
  proof -
    have "a = 1 \<or> a = 2 \<or> a = 3" using that by linarith
    then show ?thesis by (auto simp: reconnect_delay_def numeral_2_eq_2 numeral_3_eq_3)
  qed
  have "out (schedulePutFallback s) = out s @ [Arm PutFallbackTimer (min 3200 (200 * 2 ^ min (putFailures s) 4))]"
    by (simp add: schedulePutFallback_def emit_def)
  then show ?thesis using m r d f [of "min (putFailures s) 4"] by simp
qed

text \<open>The idle status off-line, with the text on screen: the reverse of what the comment in the code says.\<close>

lemma idle_status_when_offline:
  assumes "\<not> ws_connected s" "roomAccess s = Unlocked" "initialSnapshotApplied s"
  shows "statusKind (setIdleStatus s) = (if everConnected s then Syncing else ErrorStatus)"
  using assms by (simp add: setIdleStatus_def roomNeedsUnlock_def setStatus_def)

section \<open>Peers\<close>

text \<open>C30: A peer's caret sticks to its character. After a text change each edge of a caret whose anchor is still
  visible is directly behind that character, an edge at the document start stays there, and every other edge is a
  gap of the new text with an anchor that resolves to it.\<close>

theorem peer_caret_sticks:
  assumes "track_edge oldText newText ids anchor pos = (p, a)" "distinct ids" "[] \<notin> set ids"
    and "length ids = length (codePoints newText)"
  shows "p \<le> length ids \<and> a \<noteq> None \<and> posFromAfterId (the a) ids = Some p \<and>
    (\<forall>x. anchor = Some x \<and> x \<in> set ids \<longrightarrow> a = Some x \<and> 0 < p \<and> ids ! (p - 1) = x) \<and>
    (anchor = Some [] \<longrightarrow> p = 0)"
proof -
  have r: "mapCaretIndex oldText newText pos \<le> length ids" using mapCaret_le assms(4) by simp
  have ap: "posFromAfterId (anchorIdAt (mapCaretIndex oldText newText pos) ids) ids =
      Some (mapCaretIndex oldText newText pos)"
    using anchor_pos [OF assms(2,3)] r by (simp add: min_absorb1)
  have known: "posFromAfterId x ids \<noteq> None" if "x \<in> set ids" for x
    using that index_from_None [of 0 x ids] by (auto simp: posFromAfterId_def)
  show ?thesis
  proof (cases "\<exists>x q. anchor = Some x \<and> posFromAfterId x ids = Some q")
    case True
    then obtain x q where x: "anchor = Some x" "posFromAfterId x ids = Some q" by blast
    then have pa: "p = q" "a = Some x" using assms(1) by (simp_all add: track_edge_def)
    have "0 < q \<and> ids ! (q - 1) = x" if "x \<in> set ids"
      using posFromAfterId_left [OF x(2)] that assms(3) by metis
    moreover have "x = [] \<Longrightarrow> q = 0" using x(2) by (simp add: posFromAfterId_def)
    ultimately show ?thesis using x pa posFromAfterId_le by auto
  next
    case False
    then have "p = mapCaretIndex oldText newText pos" "a = Some (anchorIdAt p ids)"
      using assms(1) by (auto simp: track_edge_def Let_def split: option.splits)
    moreover have "anchor = Some x \<Longrightarrow> x \<notin> set ids \<and> x \<noteq> []" for x
      using False known [of x] by (cases "x = []") (auto simp: posFromAfterId_def)
    ultimately show ?thesis using r ap by auto
  qed
qed

lemma peer_caret_sticks_witness:
  "track_edge (js ''b'') (js ''ab'') [js ''x:2'', js ''x:1''] (Some (js ''x:1'')) 1 = (2, Some (js ''x:1''))"
proof -
  have t: "track_edge (js ''b'') (js ''ab'') [js ''x:2'', js ''x:1''] (Some (js ''x:1'')) 1 = (2, Some (js ''x:1''))"
    by (simp add: js_eval)
  from peer_caret_sticks [OF t] show ?thesis using t by (simp add: js_eval)
qed

text \<open>The caret and the ends of the selection of a peer are offsets of the editor's text, in order.\<close>

lemma render_span_in_text:
  assumes "render_span c s = (caret, lo, hi)"
  shows "lo \<le> hi \<and> hi \<le> length (ed_value (content s)) \<and> (caret = lo \<or> caret = hi)"
proof -
  have b: "codePointToUtf16Offset t (int k) \<le> length t" for t k
    unfolding offset_of_cp by (metis append_take_drop_id codePoints_concat concat_append le_add1 length_append)
  from assms obtain k j where "caret = codePointToUtf16Offset (ed_value (content s)) (int k)"
    "lo = min caret (codePointToUtf16Offset (ed_value (content s)) (int j))"
    "hi = max caret (codePointToUtf16Offset (ed_value (content s)) (int j))"
    unfolding render_span_def Let_def by blast
  then show ?thesis using b [of "ed_value (content s)"] by (auto simp: min_def max_def)
qed

lemma set_range_valid:
  "ed_start (setSelectionRange a b d e) \<le> ed_end (setSelectionRange a b d e)"
  "ed_end (setSelectionRange a b d e) \<le> length (ed_value e)"
  "ed_value (setSelectionRange a b d e) = ed_value e"
  by (auto simp: setSelectionRange_def Let_def min_def)

text \<open>The restored selection is a range of the text.\<close>

lemma restored_selection_valid:
  "ed_start (content (restoreSelection sel s)) \<le> ed_end (content (restoreSelection sel s)) \<and>
   ed_end (content (restoreSelection sel s)) \<le> length (ed_value (content (restoreSelection sel s))) \<and>
   ed_value (content (restoreSelection sel s)) = ed_value (content s)"
  by (simp add: restoreSelection_def Let_def set_range_valid)

text \<open>Colours. A picked colour is none the peers use, whenever the palette has one left, and then it is of the
  palette; with the palette exhausted it is a hash sign and six hexadecimal digits.\<close>

lemma picked_color_unused:
  "(\<exists>c\<in>set CURSOR_COLORS. c \<notin> set (map normalizeColor used)) \<and> pickColor i used \<in> set CURSOR_COLORS \<and>
     pickColor i used \<notin> set (map normalizeColor used) \<or>
   set CURSOR_COLORS \<subseteq> set (map normalizeColor used) \<and> length (pickColor i used) = 7 \<and> hd (pickColor i used) = 35 \<and>
     set (tl (pickColor i used)) \<subseteq> set hex_chars"
proof -
  let ?cs = "map (\<lambda>k. CURSOR_COLORS ! ((nat \<bar>hashId i\<bar> mod 18 + k) mod 18)) [0..<18]"
  have cs: "set ?cs = set CURSOR_COLORS" by (rule palette_rotation)
  show ?thesis
  proof (cases "find (\<lambda>c. c \<notin> set (map normalizeColor used)) ?cs")
    case (Some c)
    then have "c \<in> set CURSOR_COLORS" "c \<notin> set (map normalizeColor used)"
      using find_unused [OF Some] cs by auto
    moreover have "pickColor i used = c" using Some by (simp add: pickColor_def Let_def)
    ultimately show ?thesis by blast
  next
    case None
    then have "set CURSOR_COLORS \<subseteq> set (map normalizeColor used)"
      unfolding cs [symmetric] by (auto simp: find_None_iff)
    moreover have h: "pickColor i used = hashToHexColor (hashId i)" using None by (simp add: pickColor_def Let_def)
    have "\<exists>m r g b. pickColor i used = 35 # hex_channel m r @ hex_channel m g @ hex_channel m b"
      unfolding h hashToHexColor_def Let_def split_beta by blast
    then have "length (pickColor i used) = 7 \<and> hd (pickColor i used) = 35 \<and> set (tl (pickColor i used)) \<subseteq> set hex_chars"
      using hex_channel_digits by (auto dest!: subsetD [OF conjunct2 [OF hex_channel_digits]])
    ultimately show ?thesis by blast
  qed
qed

text \<open>What is loaded or created is a site the identifiers can use, and is stable once stored.\<close>

lemma client_id_stable:
  assumes "16 \<le> length draws" "loadOrCreateClientId stored draws = (cid, saved)"
  shows "valid_client_id cid \<and> cid \<noteq> [] \<and> colon \<notin> set cid \<and>
    loadOrCreateClientId (case saved of Some x \<Rightarrow> Some x | None \<Rightarrow> stored) draws' = (cid, None)"
  using assms(2) generate_valid [OF assms(1)] valid_site
  by (auto simp: loadOrCreateClientId_def Let_def split: if_splits)

end
