(* ===== verification/PageProps.thy ===== *)
theory PageProps
  imports PageInv View PeerProps
begin

text \<open>
  Properties of the page as a whole, of its dialogs and of the history panel: what holds in every reachable
  state, that no prompt is lost, what restoring a snapshot does, and two places where the code does not do
  what its comments say.
\<close>

section \<open>Dialogs\<close>

text \<open>C9: The page in every reachable state. Whatever was clicked, typed, answered and received, a dialog with a
  promise is shown exactly while the promise waits, the preview exactly while a snapshot is chosen, the
  document of the room is well-formed, and an upload in flight has counted every other file of its batch once: as
  stored, as failed or as still to send.\<close>

theorem page_invariant:
  assumes "page_reachable cid s"
  shows "(passwordModalHidden s \<longleftrightarrow> modalState s = None) \<and> (confirmModalHidden s \<longleftrightarrow> confirmState s = None) \<and>
    (historyPreviewModalHidden s \<longleftrightarrow> historyPreviewIdx s = None) \<and> wf_doc (the_doc (app_of s)) \<and>
    (\<forall>r\<in>set (requests s). \<forall>u nm. rq_kind r = FileUpload u nm \<longrightarrow>
       up_ok u + up_fail u + 1 + length (up_rest u) = length (up_files u))"
  using page_reachable_inv [OF assms]
  by (auto simp: page_inv_def client_inv_def list_all_iff request_ok_def upload_ok_def)

lemma page_invariant_witness:
  "wf_doc (the_doc (app_of (page_step 9 (FilesPasted [\<lparr>fb_name = [], fb_type = []\<rparr>])
     (boot_page 0 (js ''0123456789abcdef'') None None []))))"
  by (rule page_invariant [THEN conjunct2, THEN conjunct2, THEN conjunct2, THEN conjunct1, OF page_next [OF page_init]])

text \<open>C17: No prompt is forgotten. A caller that waits for a dialog keeps waiting, in the dialog or with the job
  that settles its promise queued, through every event but the microtask that runs this job.\<close>

theorem no_prompt_lost:
  assumes "page_reachable cid s"
  shows "(e \<noteq> Microtask \<longrightarrow> tickets s \<subseteq># tickets (page_step now e s)) \<and>
    (\<forall>j rest. jobs s = j # rest \<longrightarrow> tickets s - mset (ticket_of j) \<subseteq># tickets (page_step now Microtask s))"
  using no_ticket_lost [OF page_reachable_inv [OF assms]] microtask_ticket [OF page_reachable_inv [OF assms]] by blast

lemma no_prompt_lost_witness:
  "tickets (boot_page 0 [97] None None []) \<subseteq># tickets (page_step 9 TitleClickedThrice (boot_page 0 [97] None None []))"
  using no_prompt_lost [OF page_init, of TitleClickedThrice] by simp

text \<open>With the password dialog over the share dialog, one Escape closes both; with the preview over the history, Tab
  keeps the focus in the history behind it.\<close>

lemma stacked_dialogs:
  assumes "modalState s = Some m" "\<not> passwordModalHidden s" "confirmModalHidden s" "historyPreviewModalHidden s"
    and "\<not> shareModalHidden s" "\<not> historyModalHidden t" "\<not> historyPreviewModalHidden t"
  shows "passwordModalHidden (escape_key s) \<and> shareModalHidden (escape_key s) \<and>
    jobs (escape_key s) = jobs s @ [AnswerJob (md_purpose m) None] \<and> focus_trap t = Some HistoryDialog"
  using assms
  by (simp add: escape_key_def escape_password_def escape_others_def closePasswordModal_def queue_job_def closeShare_def
      focus_trap_def modalStack_def dialog_hidden_def)

section \<open>History\<close>

lemma ed_value_keep [simp]:
  "ed_value (content (updateUndoButtons s)) = ed_value (content s)"
  "ed_value (content (scheduleCursorSend s)) = ed_value (content s)"
  "ed_value (content (emit e s)) = ed_value (content s)"
  "ed_value (content (onLocalTextChanged a b s)) = ed_value (content s)"
  "ed_value (content (restoreSelection x s)) = ed_value (content s)"
  by (simp_all add: updateUndoButtons_def scheduleCursorSend_def emit_def onLocalTextChanged_def restoreSelection_def
      set_range_valid Let_def)

lemma paint_value: "normalize_newlines v = v \<Longrightarrow> ed_value (content (paint v x s)) = v"
  by (simp add: paint_def setContentValue_def Let_def set_value_def emit_def)

text \<open>C19: Restoring a snapshot. In a writable room whose edits are exact, restoring a snapshot that is not the current
  text makes the document and the editor show it, by operations added to the pending ones, and closes the
  history.\<close>

theorem restore_shows_snapshot:
  assumes "edit_ready (app_of s)" "roomAccess (app_of s) = Unlocked" "i < length (historySnapshots s)"
    and "hs_text (historySnapshots s ! i) = v" "v \<noteq> materialize (the_doc (app_of s))" "normalize_newlines v = v"
    and "clock_after_bump (app_of s) + length (codePoints v) \<le> max_exact" "t = restoreSnapshot now i s"
  shows "materialize (the_doc (app_of t)) = v \<and> ed_value (content (app_of t)) = v \<and> historyModalHidden t \<and>
    (\<exists>ops b. ops \<noteq> [] \<and> pendingOps (app_of t) = pendingOps (app_of s) @ ops \<and>
       applyBatch (the_doc (app_of s)) ops = (the_doc (app_of t), BatchOk b))"
proof -
  let ?a = "app_of s"
  let ?d = "diffToOps (codePoints (materialize (the_doc ?a))) (visibleIds (the_doc ?a)) (codePoints v) (CLIENT_ID ?a)
    (clock_after_bump ?a)"
  from applyLocalText_ok [OF assms(1) assms(5) [symmetric] assms(7) refl, of now] obtain d' b where
    d': "applyBatch (the_doc ?a) (df_ops ?d) = (d', BatchOk b)" "map it_ch (visible d') = codePoints v" "df_ops ?d \<noteq> []"
    and ap: "applyLocalText now v ?a = scheduleFlush (pushUndoEntry now (df_ops ?d)
      ((bumpClockFromDoc ?a)\<lparr>localClock := df_clock ?d, the_doc := d', pendingOps := pendingOps ?a @ df_ops ?d\<rparr>))"
    by blast
  define u where "u = applyLocalText now v ?a"
  have u: "the_doc u = d'" "pendingOps u = pendingOps ?a @ df_ops ?d" "materialize (the_doc u) = v"
    using aligned_chars [OF d'(2)] core_frame [OF core_scheduleFlush] by (simp_all add: u_def ap push_core)
  have "blockWhenReadOnly ?a = (False, ?a)" using assms(2) by (simp add: blockWhenReadOnly_def roomNeedsUnlock_def)
  then have t: "t = closeHistory (pageToast (Translated Restored) OkTone
      (setFilesStatus (Some (Translated Restored)) (Some OkTone) (s\<lparr>app_of := updateUndoButtons (scheduleCursorSend
        (emit RenderCursors (onLocalTextChanged (materialize (the_doc ?a)) v (paint v (captureSelection u) u))))\<rparr>)))"
    using assms(3-5,8) u(3) by (simp add: restoreSnapshot_def Let_def u_def)
  have c: "core (app_of t) = core u"
    by (simp add: t closeHistory_def closeHistoryPreview_def pageToast_def setFilesStatus_def page_emit_def)
  have "ed_value (content (app_of t)) = v"
    using paint_value [OF assms(6)]
    by (simp add: t closeHistory_def closeHistoryPreview_def pageToast_def setFilesStatus_def page_emit_def)
  moreover have "historyModalHidden t" by (simp add: t closeHistory_def)
  ultimately show ?thesis using core_frame [OF c] u d' by auto
qed

lemma restore_shows_snapshot_witness:
  "let s = (initial_page (js ''0123456789abcdef''))\<lparr>app_of := (initial_app (js ''0123456789abcdef''))\<lparr>roomAccess := Unlocked\<rparr>,
       historySnapshots := [\<lparr>hs_at = 0, hs_text = js ''hi'', hs_version = 1, hs_manual = True\<rparr>]\<rparr>
   in materialize (the_doc (app_of (restoreSnapshot 9 0 s))) = js ''hi''"
proof -
  let ?a = "(initial_app (js ''0123456789abcdef''))\<lparr>roomAccess := Unlocked\<rparr>"
  let ?s = "(initial_page (js ''0123456789abcdef''))\<lparr>app_of := ?a,
       historySnapshots := [\<lparr>hs_at = 0, hs_text = js ''hi'', hs_version = 1, hs_manual = True\<rparr>]\<rparr>"
  have "valid_client_id (js ''0123456789abcdef'')" by (simp add: js_eval)
  then have "edit_ready ?a" using edit_ready_initial by (simp add: edit_ready_def)
  then have r: "edit_ready (app_of ?s)" by simp
  have cl: "clock_after_bump ?a = 0" by (simp add: clock_after_bump_def initial_app_def) (simp add: js_eval)
  then have le: "clock_after_bump (app_of ?s) + length (codePoints (js ''hi'')) \<le> max_exact" by (simp add: js_eval)
  have "materialize newDoc = []" by (simp add: js_eval)
  then have ne: "js ''hi'' \<noteq> materialize (the_doc (app_of ?s))" by (simp add: initial_app_def) (simp add: js_def)
  have nn: "normalize_newlines (js ''hi'') = js ''hi''" by (simp add: js_eval)
  have "roomAccess (app_of ?s) = Unlocked" "0 < length (historySnapshots ?s)"
    "hs_text (historySnapshots ?s ! 0) = js ''hi''" by simp_all
  from restore_shows_snapshot [OF r this ne nn le refl, of 9] show ?thesis by (simp add: Let_def)
qed

text \<open>The server keeps twenty snapshots and drops the oldest; an answer that does not list more snapshots than are
  known is reported as unchanged content, even when its last snapshot is new.\<close>

lemma capture_misreports_full_history:
  assumes "ok_status st" "rp_snapshots data = Some l" "length l = length (historySnapshots s)"
  shows "pageOut (capture_done (Answer st (Json data) h) s) =
      pageOut s @ (if historyModalHidden s then [] else [RenderHistory]) @ [PageToast (Translated ContentUnchanged) OkTone] \<and>
    historySnapshots (capture_done (Answer st (Json data) h) s) = l"
  using assms
  by (auto simp: capture_done_def ok_status_def Let_def pageToast_def page_emit_def show_history_def applyHistoryPayload_def)

end
