(* ===== verification/PanelProps.thy ===== *)
theory PanelProps
  imports PageInv View PeerProps
begin

text \<open>
  Properties of the panels and of the preview: generated passwords, the retries of the file transfers, the
  addresses of rooms, and the sanitiser of the Markdown preview.
\<close>

section \<open>Passwords\<close>

lemma password_chars_list:
  "length password_chars = 56" "distinct password_chars" "maxUnbiased = 76695844 * 56"
  by (simp_all add: password_chars_def maxUnbiased_def js_def)

lemma draw_unbiased_first:
  "filter (\<lambda>x. unat x < maxUnbiased) ds \<noteq> [] \<Longrightarrow>
   \<exists>x ds'. draw_unbiased ds = Some (x, ds') \<and>
     length (filter (\<lambda>x. unat x < maxUnbiased) ds) = Suc (length (filter (\<lambda>x. unat x < maxUnbiased) ds'))"
  by (induction ds) auto

lemma password_loop_enough:
  "k \<le> length (filter (\<lambda>x. unat x < maxUnbiased) ds) \<Longrightarrow>
   \<exists>p. password_loop k ds = Some p \<and> length p = k \<and> set p \<subseteq> set password_chars"
proof (induction k arbitrary: ds)
  case (Suc k)
  then have "filter (\<lambda>x. unat x < maxUnbiased) ds \<noteq> []" by auto
  from draw_unbiased_first [OF this] obtain x ds' where d: "draw_unbiased ds = Some (x, ds')"
    "length (filter (\<lambda>x. unat x < maxUnbiased) ds) = Suc (length (filter (\<lambda>x. unat x < maxUnbiased) ds'))" by blast
  have "k \<le> length (filter (\<lambda>x. unat x < maxUnbiased) ds')" using Suc.prems unfolding d(2) by simp
  from Suc.IH [OF this] obtain p where
    "password_loop k ds' = Some p" "length p = k" "set p \<subseteq> set password_chars" by blast
  then show ?case by (simp add: d(1) password_chars_list nth_mem)
qed simp

text \<open>C32: A generated password. Once twelve draws are below the bound the generator ends, with twelve characters of
  its alphabet.\<close>

theorem password_generated:
  assumes "12 \<le> length (filter (\<lambda>x. unat x < maxUnbiased) ds)"
  shows "\<exists>p. generateEditPassword ds = Some p \<and> length p = 12 \<and> set p \<subseteq> set password_chars"
  using password_loop_enough [OF assms] by (simp add: generateEditPassword_def)

lemma password_generated_witness:
  "\<exists>p. generateEditPassword (0xFFFFFFFF # replicate 12 57) = Some p \<and> length p = 12 \<and> set p \<subseteq> set password_chars"
  by (rule password_generated) (simp add: password_chars_list)




section \<open>Files\<close>

text \<open>The retry of a download. A download carries the room password when one is remembered; after a wrong file
  password the request is repeated without it, so that in a room that needs a password to view the retry is
  refused whatever is entered.\<close>

lemma download_retry_drops_room_password:
  assumes "roomPassword (app_of s) \<noteq> []" "pw \<noteq> []"
  shows "requests (download_entered i nm (Some pw) s) = requests s @ [\<lparr>rq_kind = FileDownload i nm False,
      rq_room = Some (roomPassword (app_of s)), rq_admin = None, rq_file = Some pw\<rparr>] \<and>
    requests (download_retry_entered i nm (Some pw) s) = requests s @ [\<lparr>rq_kind = FileDownload i nm True,
      rq_room = None, rq_admin = None, rq_file = Some pw\<rparr>]"
  using assms
  by (simp add: download_entered_def download_retry_entered_def Let_def send_request_def page_emit_def setFilesStatus_def
      rememberFilePassword_def withRoomPasswordHeaders_def)

text \<open>A wrong file password answered with a readable body is forgotten and asked for again; answered with a body that
  does not parse, it stays remembered and no dialog opens.\<close>

lemma unparsable_refusal_keeps_password:
  assumes "modalState s = None"
  shows "filePass (download_done i nm (Answer 401 (Json empty_reply) h) s) = None \<and>
    modalState (download_done i nm (Answer 401 (Json empty_reply) h) s) \<noteq> None \<and>
    filePass (download_done i nm (Answer 401 Unparsable h) s) = filePass s \<and>
    modalState (download_done i nm (Answer 401 Unparsable h) s) = None"
  using assms
  by (simp add: download_done_def download_refused_def reply_or_empty_def empty_reply_def js_def download_failed_def
      files_error_def pageToast_def setFilesStatus_def page_emit_def askPassword_def Let_def rememberFilePassword_def)

text \<open>Dropping files on a room whose lock is closed only shows the notice; pasting them opens the upload dialog.\<close>

lemma paste_uploads_read_only:
  assumes "roomAccess (app_of s) = Locked" "passwordScope (app_of s) \<noteq> js ''view''" "files \<noteq> []"
    and "\<not> fileUploadEnabled s" "modalState s = None"
  shows "modalState (page_step now (FilesDropped files) s) = None \<and>
    modalState (page_step now (FilesPasted files) s) =
      Some \<lparr>md_purpose = UploadAdmin files, md_options = plain_options AdminKind (map fb_name files)\<rparr>"
  using assms
  by (simp add: page_step_def guarded_def blockWhenReadOnly_def roomNeedsUnlock_def isViewGate_def promptUploadFiles_def
      askPassword_def Let_def)

section \<open>Addresses\<close>

lemma encoded_chars: "encodeURIComponent s = Some e \<Longrightarrow> \<forall>u\<in>set e. unreserved u \<or> u = 37"
proof -
  have hex: "unreserved (upper_hex d)" if "d < 16" for d
  proof -
    have "d \<in> set [0..<16]" using that by simp
    moreover have "list_all (\<lambda>d. unreserved (upper_hex d)) [0..<16]"
      by (simp add: upt_rec upper_hex_def unreserved_def)
    ultimately show ?thesis by (simp add: list_all_iff)
  qed
  have p: "\<forall>u\<in>set (percent b). unreserved u \<or> u = 37" if "b < 256" for b
    using that by (simp add: percent_def hex less_mult_imp_div_less)
  have b: "\<forall>b\<in>set (utf8 c). b < 256" if "c < 0x110000" for c
    using that by (auto simp: utf8_def)
  have cp: "\<forall>u\<in>set (percent_cp c). unreserved u \<or> u = 37" if "c < 0x110000" for c
    using p b [OF that] by (fastforce simp: percent_cp_def)
  have u: "unat u < 0x110000" for u :: codeunit using unsigned_less [of u, where ?'a = nat] by simp
  show "encodeURIComponent s = Some e \<Longrightarrow> \<forall>u\<in>set e. unreserved u \<or> u = 37"
  proof (induction s arbitrary: e rule: encodeURIComponent.induct)
    case (2 v)
    then show ?case using cp [OF u [of v]] by (auto split: if_splits)
  next
    case (3 v w us)
    then show ?case using cp [OF u [of v]] cp [OF pair_cp_units(1), of v w]
      by (auto split: if_splits)
  qed simp
qed

text \<open>C33: Addresses of rooms. The path built from a room's key gives the key back; the address of the room's data has
  no further slash, question mark or hash sign in the key's place; and different keys have different
  addresses.\<close>

theorem room_addresses:
  assumes "encodeURIComponent key = Some e" "encodeURIComponent key' = Some e'"
  shows "room_key (47 # e) = Some key \<and> apiURL key = Some (js ''/api/clipboard/'' @ e) \<and>
    47 \<notin> set e \<and> 63 \<notin> set e \<and> 35 \<notin> set e \<and> (apiURL key = apiURL key' \<longrightarrow> key = key')"
proof -
  have d: "decodeURIComponent e = Some key" "decodeURIComponent e' = Some key'"
    using decode_encode assms by blast+
  have "\<not> unreserved 47" "\<not> unreserved 63" "\<not> unreserved 35" by (simp_all add: unreserved_def js_def)
  then have "47 \<notin> set e \<and> 63 \<notin> set e \<and> 35 \<notin> set e" using encoded_chars [OF assms(1)] by fastforce
  then show ?thesis using d assms by (auto simp: room_key_def apiURL_def)
qed

lemma room_addresses_witness: "room_key (47 # js ''a%2Fb%C3%A9'') = Some [97, 47, 98, 0xE9]"
proof -
  have "encodeURIComponent [97, 47, 98, 0xE9] = Some (js ''a%2Fb%C3%A9'')" by (simp add: js_eval)
  from room_addresses [OF this this] show ?thesis by blast
qed

section \<open>Preview\<close>

text \<open>C18: The sanitiser. Whatever tree the Markdown renderer made, no element of the cleaned tree is one of the removed
  kinds, none has an attribute that begins with \<open>on\<close>, every link has an allowed beginning and so has
  every source; and cleaning a clean tree changes nothing.\<close>

theorem sanitizer_safe:
  "(\<forall>(tag, attrs)\<in>set (concat (map elements (sanitizeMarkdown ns))).
      \<not> removed_tag tag \<and> (\<forall>(n, v)\<in>set attrs. \<not> is_handler n \<and> (is_href n \<longrightarrow> href_ok v) \<and>
         (n = js ''src'' \<longrightarrow> src_ok v))) \<and>
   sanitizeMarkdown (sanitizeMarkdown ns) = sanitizeMarkdown ns"
proof -
  have safe: "safe_nodes (sanitizeMarkdown ns)" by (rule sanitize_safe_nodes)
  show ?thesis using safe sanitize_fixed [OF safe]
    by (fastforce simp: safe_nodes_def safe_element_def safe_attr_def list_all_iff)
qed

lemma sanitizer_safe_witness:
  "sanitizeMarkdown (sanitizeMarkdown [Element (js ''a'') [(js ''href'', js ''javascript:x''), (js ''onclick'', [])] []]) =
   [Element (js ''a'') [] []]"
  using sanitizer_safe [of "[Element (js ''a'') [(js ''href'', js ''javascript:x''), (js ''onclick'', [])] []]"]
  by (simp add: js_eval)

end
