(* ===== verification/CrdtDelivery.thy ===== *)
theory CrdtDelivery
  imports CrdtProps LocalEdit
begin

text \<open>
  When operations can be delivered. A batch deliverable after one log is deliverable after every log that holds
  as much, unless the identifier of an insert is taken there; and a batch a replica applied to its own document,
  with new identifiers and deletions of known atoms, is deliverable after the replica's log.
\<close>

lemma delivered_unique:
  "\<lbrakk>delivered crdt_ready a ops; x \<in> set ops; is_ins x; y \<in> set a; is_ins y; op_id y = op_id x\<rbrakk> \<Longrightarrow> y = x"
proof (induction ops arbitrary: a)
  case (Cons z ops)
  show ?case
  proof (cases "x = z")
    case True
    then show ?thesis using Cons.prems by (auto simp: crdt_ready_def list_all_iff)
  next
    case False
    then show ?thesis using Cons.prems by (intro Cons.IH [of "a @ [z]"]) simp_all
  qed
qed simp

lemma delivered_mono:
  "\<lbrakk>delivered crdt_ready a ops; set a \<subseteq> set b;
    \<forall>x\<in>set ops. is_ins x \<longrightarrow> (\<forall>y\<in>set b. is_ins y \<and> op_id y = op_id x \<longrightarrow> y = x)\<rbrakk> \<Longrightarrow> delivered crdt_ready b ops"
proof (induction ops arbitrary: a b)
  case (Cons x ops)
  have r: "crdt_ready a x" and d: "delivered crdt_ready (a @ [x]) ops" using Cons.prems(1) by simp_all
  have "crdt_ready b x"
    using r Cons.prems(2,3) by (auto simp: crdt_ready_def list_ex_iff list_all_iff split: if_splits)
  moreover have "delivered crdt_ready (b @ [x]) ops"
    using Cons.prems(2,3) delivered_unique [OF d] by (intro Cons.IH [OF d]) auto
  ultimately show ?case by simp
qed simp

lemma delivered_kinds: "\<lbrakk>delivered crdt_ready a ops; x \<in> set ops\<rbrakk> \<Longrightarrow> is_ins x \<or> is_del x"
  by (induction ops arbitrary: a) (auto simp: crdt_ready_def split: if_splits)

lemma delivered_sets: "\<lbrakk>delivered crdt_ready a ops; set a = set b\<rbrakk> \<Longrightarrow> delivered crdt_ready b ops"
proof (induction ops arbitrary: a b)
  case (Cons x ops)
  have r: "crdt_ready a x" and d: "delivered crdt_ready (a @ [x]) ops" using Cons.prems(1) by simp_all
  have "crdt_ready a x = crdt_ready b x" unfolding crdt_ready_def list_ex_iff list_all_iff Cons.prems(2) by (rule refl)
  with r have "crdt_ready b x" by simp
  moreover have "delivered crdt_ready (b @ [x]) ops" by (rule Cons.IH [OF d]) (simp add: Cons.prems(2))
  ultimately show ?case by simp
qed simp

lemma delivered_drop:
  "\<lbrakk>delivered crdt_ready a ops; \<forall>x\<in>set ops. \<not> P x \<longrightarrow> x \<in> set a\<rbrakk> \<Longrightarrow> delivered crdt_ready a (filter P ops)"
proof (induction ops arbitrary: a)
  case (Cons x ops)
  have "delivered crdt_ready a ops" if "\<not> P x"
    using Cons.prems that by (intro delivered_sets [of "a @ [x]" ops a]) auto
  then show ?case using Cons by auto
qed simp

text \<open>An operation that is ready and, if it is an insert, new; several of them with different identifiers.\<close>

definition makeable :: "crdt_op list \<Rightarrow> crdt_op \<Rightarrow> bool" where
  "makeable l x \<longleftrightarrow> crdt_ready l x \<and> (is_ins x \<longrightarrow> \<not> list_ex (\<lambda>y. is_ins y \<and> op_id y = op_id x) l)"

lemma makeable_delivered:
  "\<lbrakk>list_all (makeable l) ops; distinct (map op_id (filter is_ins ops))\<rbrakk> \<Longrightarrow> delivered crdt_ready l ops"
proof (induction ops arbitrary: l)
  case (Cons x ops)
  have "makeable (l @ [x]) y" if y: "y \<in> set ops" for y
  proof -
    have "is_ins x \<Longrightarrow> is_ins y \<Longrightarrow> op_id x \<noteq> op_id y" using Cons.prems(2) y by auto
    then show ?thesis using Cons.prems(1) y
      by (auto simp: makeable_def crdt_ready_def list_all_iff list_ex_iff split: if_splits)
  qed
  then have "delivered crdt_ready (l @ [x]) ops"
    using Cons.prems(2) by (intro Cons.IH) (auto simp: list_all_iff split: if_splits)
  then show ?case using Cons.prems(1) by (simp add: makeable_def)
qed simp

text \<open>An operation a replica may make: an insert under a new identifier, or the deletion of a known atom.\<close>

definition fresh_for :: "doc \<Rightarrow> crdt_op \<Rightarrow> bool" where
  "fresh_for d x \<longleftrightarrow> canonical_id (op_id x) \<and>
     (is_ins x \<and> get_item d (op_id x) = None \<or> is_del x \<and> get_item d (op_id x) \<noteq> None)"

lemma fresh_for_step:
  assumes c: "canonical_doc d" and v: "get_item d = log_item l" and ok: "log_ok l"
    and x: "fresh_for d x" and ap: "doc_apply d x = (d', Inr b)"
  shows "crdt_ready l x \<and> canonical_doc d' \<and> get_item d' = log_item (l @ [x])"
proof -
  have r: "crdt_ready l x"
  proof (cases "is_ins x")
    case True
    then have i: "doc_insert d (op_id x) (op_after x) (op_ch x) = (d', Inr b)"
      and none: "get_item d (op_id x) = None" "canonical_id (op_id x)"
      using ap x by (auto simp: doc_apply_def is_ins_def is_del_def js_def fresh_for_def)
    from none(1) have "\<not> list_ex (\<lambda>y. is_ins y \<and> op_id y = op_id x) l"
      unfolding v using log_item_known [of l "op_id x"] by simp
    moreover have "singleCodePoint (op_ch x)" "op_after x = [] \<or> get_item d (op_after x) \<noteq> None"
      using i none(1) by (cases rule: doc_insert_cases [of "op_id x" d "op_after x" "op_ch x"]; simp)+
    ultimately show ?thesis
      using none(2) True unfolding v log_item_known by (auto simp: crdt_ready_def list_ex_iff list_all_iff)
  next
    case False
    then have "is_del x" "canonical_id (op_id x)" "get_item d (op_id x) \<noteq> None" using x by (simp_all add: fresh_for_def)
    then show ?thesis using False unfolding v log_item_known by (simp add: crdt_ready_def)
  qed
  moreover have "canonical_doc d'" using canonical_apply [OF c, of x] x ap by (simp add: fresh_for_def)
  ultimately show ?thesis using ready_view [OF c v r ok] ap by simp
qed

lemma fresh_for_next:
  assumes "doc_apply d x = (d', Inr b)" "fresh_for d x" "fresh_for d y" "is_ins x \<Longrightarrow> is_ins y \<Longrightarrow> op_id y \<noteq> op_id x"
    and v: "get_item d = log_item l" "get_item d' = log_item (l @ [x])"
  shows "fresh_for d' y"
proof -
  have "get_item d' (op_id y) = None \<longleftrightarrow> get_item d (op_id y) = None"
    using assms(2,3,4) log_item_known [of l "op_id y"] log_item_known [of "l @ [x]" "op_id y"]
    by (auto simp: fresh_for_def v)
  then show ?thesis using assms(3) by (simp add: fresh_for_def)
qed

lemma applied_delivered:
  assumes "canonical_doc d" "get_item d = log_item l" "log_ok l"
    and "list_all (fresh_for d) ops" "distinct (map op_id (filter is_ins ops))" "apply_loop d ops k ch = (d', BatchOk b)"
  shows "delivered crdt_ready l ops \<and> canonical_doc d' \<and> get_item d' = log_item (l @ ops)"
  using assms
proof (induction ops arbitrary: d l k ch)
  case (Cons x ops)
  from Cons.prems(6) obtain d1 b1 where d1: "doc_apply d x = (d1, Inr b1)"
    "apply_loop d1 ops (Suc k) (ch \<or> b1) = (d', BatchOk b)"
    by (auto split: prod.splits sum.splits)
  have x: "fresh_for d x" using Cons.prems(4) by simp
  note st = fresh_for_step [OF Cons.prems(1-3) x d1(1)]
  have "fresh_for d1 y" if y: "y \<in> set ops" for y
  proof (rule fresh_for_next [OF d1(1) x])
    show "fresh_for d y" "get_item d = log_item l" "get_item d1 = log_item (l @ [x])"
      using Cons.prems(2,4) y st by (simp_all add: list_all_iff)
    show "is_ins x \<Longrightarrow> is_ins y \<Longrightarrow> op_id y \<noteq> op_id x" using Cons.prems(5) y by (auto simp: image_iff)
  qed
  then have "list_all (fresh_for d1) ops" by (simp add: list_all_iff)
  then have "delivered crdt_ready (l @ [x]) ops \<and> canonical_doc d' \<and> get_item d' = log_item ((l @ [x]) @ ops)"
    using Cons.prems(3,5) st d1(2) log_ok_snoc by (intro Cons.IH) (auto split: if_splits)
  then show ?case using st by simp
qed simp

section \<open>The operations of a site\<close>

definition own_op :: "jsstring \<Rightarrow> crdt_op \<Rightarrow> bool" where
  "own_op site x \<longleftrightarrow>
     (if is_ins x then (\<exists>c. 0 < c \<and> c \<le> max_exact \<and> op_id x = formatID site c) else x = del_op (op_id x))"

lemma own_site:
  assumes "own_op a x" "own_op b y" "is_ins x" "is_ins y" "op_id x = op_id y"
    and "a \<noteq> []" "colon \<notin> set a" "b \<noteq> []" "colon \<notin> set b"
  shows "a = b"
proof -
  obtain c c' where c: "0 < c" "c \<le> max_exact" "op_id x = formatID a c" "0 < c'" "c' \<le> max_exact" "op_id y = formatID b c'"
    using assms(1-4) unfolding own_op_def by auto
  have "parseID (op_id x) = Some (a, c)" unfolding c(3) by (rule parse_formatID_raw) (use assms c in auto)
  moreover have "parseID (op_id y) = Some (b, c')" unfolding c(6) by (rule parse_formatID_raw) (use assms c in auto)
  ultimately show ?thesis using assms(5) by simp
qed

lemma diff_ins_own:
  assumes "diff_ins site m a cs = (ops, m')" "m + length cs \<le> max_exact"
  shows "map op_id ops = map (formatID site) [Suc m..<Suc m + length cs] \<and> list_all (own_op site) ops"
  using assms
proof (induction cs arbitrary: m a ops)
  case (Cons c cs)
  have inc: "num_inc m = Suc m" using Cons.prems(2) by (intro num_inc_exact) simp
  let ?i = "formatID site (Suc m)"
  obtain ops' where o: "ops = ins_op ?i a c # ops'" "diff_ins site (Suc m) ?i cs = (ops', m')"
    using Cons.prems(1) by (auto simp: inc Let_def split: prod.splits)
  have "map op_id ops' = map (formatID site) [Suc (Suc m)..<Suc (Suc m) + length cs] \<and> list_all (own_op site) ops'"
    using Cons.prems(2) by (intro Cons.IH [OF o(2)]) simp
  moreover have "own_op site (ins_op ?i a c)"
    using Cons.prems(2) unfolding own_op_def by (auto intro!: exI [of _ "Suc m"])
  moreover have "[Suc m..<Suc m + length (c # cs)] = Suc m # [Suc (Suc m)..<Suc (Suc m) + length cs]"
    by (simp add: upt_rec)
  ultimately show ?case by (simp add: o(1) del: upt_Suc)
qed simp

lemma diff_own:
  assumes "m + length new \<le> max_exact" "site \<noteq> []" "colon \<notin> set site"
  shows "\<exists>ids inss n. df_ops (diffToOps old oldIds new site m) = map del_op ids @ inss \<and>
    list_all is_ins inss \<and> list_all (own_op site) inss \<and> map op_id inss = map (formatID site) [Suc m..<Suc m + n] \<and>
    m + n \<le> max_exact"
proof -
  define lo where "lo = diff_lo old new"
  obtain ro rn where ro: "diff_ro lo old new (length old) (length new) = (ro, rn)" by force
  let ?cs = "take (rn - lo) (drop lo new)" and ?a = "if 0 < lo then id_at oldIds (lo - 1) else []"
  obtain inss m' where i: "diff_ins site m ?a ?cs = (inss, m')" by force
  have le: "m + length ?cs \<le> max_exact" using assms(1) by simp
  have "df_ops (diffToOps old oldIds new site m) = map del_op (map (id_at oldIds) [lo..<ro]) @ inss"
    using i ro by (simp add: diffToOps_def Let_def lo_def [symmetric] comp_def)
  then show ?thesis using diff_ins_own [OF i le] diff_ins_kinds [OF i] le by blast
qed

lemma formatID_inj:
  assumes "0 < c" "c \<le> max_exact" "0 < c'" "c' \<le> max_exact" "site \<noteq> []" "colon \<notin> set site"
    and "formatID site c = formatID site c'"
  shows "c = c'"
proof -
  have "Some (site, c) = Some (site, c')"
    using parse_formatID_raw [OF assms(5,6,1,2)] parse_formatID_raw [OF assms(5,6,3,4)] unfolding assms(7) by (rule subst)
  then show ?thesis by simp
qed

lemma delivered_shape:
  assumes "delivered crdt_ready a ops" "x \<in> set ops" "is_ins x"
  shows "singleCodePoint (op_ch x) \<and> (op_after x = [] \<or> list_ex (\<lambda>y. is_ins y \<and> op_id y = op_after x) (a @ ops))"
  using assms
proof (induction ops arbitrary: a)
  case (Cons z ops)
  show ?case
  proof (cases "x = z")
    case True
    then show ?thesis using Cons.prems by (auto simp: crdt_ready_def)
  next
    case False
    then show ?thesis using Cons.prems Cons.IH [of "a @ [z]"] by auto
  qed
qed simp

section \<open>The inverse of a batch\<close>

lemma inverse_step:
  assumes v: "get_item d = log_item l" and dl: "delivered crdt_ready [] l" and x: "x \<in> set l" "is_del x"
    and cl: "\<forall>y\<in>set l. is_ins y \<longrightarrow> id_clock (op_id y) \<le> c" and c: "c < max_exact" and site: "site \<noteq> []" "colon \<notin> set site"
  shows "\<exists>it. get_item d (op_id x) = Some it \<and> makeable l (ins_op (formatID site (Suc c)) (it_after it) (it_ch it))"
proof -
  have ok: "log_ok l" using delivered_log_ok [of "[]" l] dl by (simp add: log_ok_def)
  then have "get_item d (op_id x) \<noteq> None" using x unfolding v log_item_known by (auto simp: log_ok_def list_ex_iff)
  then obtain it where it: "get_item d (op_id x) = Some it" by blast
  then obtain y where y: "y \<in> set l" "is_ins y" "it_after it = op_after y" "it_ch it = op_ch y"
    unfolding v log_item_def by (auto split: option.splits simp: find_Some_iff) (metis nth_mem)+
  note f = id_formatID [OF site, of "Suc c"]
  have "\<not> list_ex (\<lambda>z. is_ins z \<and> op_id z = formatID site (Suc c)) l"
    using cl f(1) c by (fastforce simp: list_ex_iff)
  then show ?thesis
    using it y f(2) c delivered_shape [OF dl y(1,2)]
    by (auto simp: makeable_def crdt_ready_def list_ex_iff list_all_iff)
qed

lemma inverse_made:
  assumes v: "get_item d = log_item l" and dl: "delivered crdt_ready [] l"
    and site: "site \<noteq> []" "colon \<notin> set site"
  shows "\<lbrakk>set ops \<subseteq> set l; \<forall>y\<in>set l. is_ins y \<longrightarrow> id_clock (op_id y) \<le> c; c + length ops \<le> max_exact;
      inverse_loop d site ops c = (ys, c')\<rbrakk> \<Longrightarrow>
    c \<le> c' \<and> c' \<le> c + length ops \<and> list_all (own_op site) ys \<and> list_all (makeable l) ys \<and>
    map op_id (filter is_ins ys) = map (formatID site) [Suc c..<Suc c']"
proof (induction ops arbitrary: c ys)
  case (Cons x ops)
  have ok: "log_ok l" using delivered_log_ok [of "[]" l] dl by (simp add: log_ok_def)
  have x: "x \<in> set l" using Cons.prems(1) by simp
  show ?case
  proof (cases "is_ins x")
    case True
    then obtain zs where z: "ys = del_op (op_id x) # zs" "inverse_loop d site ops c = (zs, c')"
      using Cons.prems(4) by (auto simp: is_ins_def Let_def split: prod.splits)
    have "crdt_ready l (del_op (op_id x))"
      using x True delivered_ready [OF dl] by (auto simp: crdt_ready_def list_ex_iff)
    then show ?thesis using z Cons.IH [OF _ _ _ z(2)] Cons.prems by (auto simp: makeable_def own_op_def)
  next
    case False
    then have d: "is_del x" using x delivered_ready [OF dl] by auto
    have c: "c < max_exact" using Cons.prems(3) by simp
    from inverse_step [OF v dl x d Cons.prems(2) c site] obtain it where it: "get_item d (op_id x) = Some it"
      "makeable l (ins_op (formatID site (Suc c)) (it_after it) (it_ch it))" by blast
    then obtain zs where z: "ys = ins_op (formatID site (Suc c)) (it_after it) (it_ch it) # zs"
      "inverse_loop d site ops (Suc c) = (zs, c')"
      using Cons.prems(4) False d num_inc_exact [OF c]
      by (auto simp: is_ins_def is_del_def Let_def split: prod.splits)
    have ih: "Suc c \<le> c' \<and> c' \<le> Suc c + length ops \<and> list_all (own_op site) zs \<and> list_all (makeable l) zs \<and>
        map op_id (filter is_ins zs) = map (formatID site) [Suc (Suc c)..<Suc c']"
      using Cons.prems by (intro Cons.IH [OF _ _ _ z(2)]) fastforce+
    moreover have "own_op site (ins_op (formatID site (Suc c)) (it_after it) (it_ch it))"
      using c by (auto simp: own_op_def intro!: exI [of _ "Suc c"])
    moreover have "[Suc c..<Suc c'] = Suc c # [Suc (Suc c)..<Suc c']" using ih by (simp add: upt_conv_Cons)
    ultimately show ?thesis using it(2) z(1) by (simp del: upt_Suc)
  qed
qed simp

end
