(* ===== verification/RoomLog.thy ===== *)
theory RoomLog
  imports CrdtDelivery
begin

text \<open>
  The log of a room against what one client has. The log holds the batches the server accepted, each with its
  author and sequence number; a client has applied a log of its own, which covers the first \<open>k\<close> entries and
  otherwise holds entries still to come and operations it has not been told are accepted.
\<close>

section \<open>The log\<close>

type_synonym entry = "nat \<times> nat \<times> crdt_op list"

definition entry_ops :: "entry \<Rightarrow> crdt_op list" where
  [js_eval]: "entry_ops e = snd (snd e)"

definition log_of :: "crdt_op list \<Rightarrow> entry list \<Rightarrow> crdt_op list" where
  [js_eval]: "log_of base a = base @ concat (map entry_ops a)"

lemma log_of_snoc [simp]: "log_of base (a @ [e]) = log_of base a @ entry_ops e"
  by (simp add: log_of_def)

lemma log_of_Suc: "k < length a \<Longrightarrow> log_of base (take (Suc k) a) = log_of base (take k a) @ entry_ops (a ! k)"
  by (simp add: take_Suc_conv_app_nth)

lemma log_of_take: "delivered crdt_ready [] (log_of base a) \<Longrightarrow> delivered crdt_ready [] (log_of base (take k a))"
proof -
  have "log_of base a = log_of base (take k a) @ concat (map entry_ops (drop k a))"
    by (simp add: log_of_def flip: concat_append map_append)
  then show "delivered crdt_ready [] (log_of base a) \<Longrightarrow> ?thesis" by (simp add: delivered_append)
qed

lemma entry_in_log: "k < length a \<Longrightarrow> set (entry_ops (a ! k)) \<subseteq> set (log_of base a)"
  using nth_mem [of k a] by (auto simp: log_of_def)

lemma log_of_sub: "set (log_of base (take k a)) \<subseteq> set (log_of base a)"
  by (auto simp: log_of_def dest: in_set_takeD)

text \<open>
  What client \<open>i\<close> relies on: identifiers that are client identifiers, different from its own for the other
  authors, and batches that hold operations of their author.
\<close>

definition authors :: "(nat \<Rightarrow> jsstring) \<Rightarrow> entry list \<Rightarrow> nat \<Rightarrow> bool" where
  "authors ids a i \<longleftrightarrow> valid_client_id (ids i) \<and>
     (\<forall>e\<in>set a. valid_client_id (ids (fst e)) \<and> (ids (fst e) = ids i \<longrightarrow> fst e = i) \<and> entry_ops e \<noteq> [] \<and>
        list_all (own_op (ids (fst e))) (entry_ops e))"

lemma author_site: "authors ids a i \<Longrightarrow> ids i \<noteq> [] \<and> colon \<notin> set (ids i)"
  using valid_site by (auto simp: authors_def)

lemma same_author:
  assumes au: "authors ids a i" and e: "e \<in> set a" and x: "own_op (ids i) x" and y: "y \<in> set (entry_ops e)"
    and k: "is_ins x" "is_ins y" "op_id x = op_id y"
  shows "fst e = i"
proof -
  have v: "valid_client_id (ids (fst e))" "own_op (ids (fst e)) y" "ids (fst e) = ids i \<longrightarrow> fst e = i"
    using au e y by (auto simp: authors_def list_all_iff)
  have "ids i = ids (fst e)"
    by (rule own_site [OF x v(2) k]) (use author_site [OF au] valid_site [OF v(1)] in simp_all)
  then show ?thesis using v(3) by simp
qed

section \<open>What a client has of it\<close>

definition have_log :: "crdt_op list \<Rightarrow> (nat \<Rightarrow> jsstring) \<Rightarrow> entry list \<Rightarrow> nat \<Rightarrow> crdt_op list \<Rightarrow> crdt_op list \<Rightarrow> nat \<Rightarrow> bool" where
  "have_log base ids a i p l k \<longleftrightarrow>
     delivered crdt_ready [] l \<and> k \<le> length a \<and> set (log_of base (take k a)) \<subseteq> set l \<and>
     set l \<subseteq> set (log_of base a) \<union> set p \<and> set p \<subseteq> set l \<and> list_all (own_op (ids i)) p \<and>
     delivered crdt_ready (log_of base a) p"

text \<open>What it sent: every batch under its own number, the accepted ones of its own among them, and its record of
  the batches in flight.\<close>

definition have_sent :: "(nat \<Rightarrow> jsstring) \<Rightarrow> entry list \<Rightarrow> nat \<Rightarrow> (nat \<times> crdt_op list) list \<Rightarrow> nat \<Rightarrow>
    (nat \<times> sent_batch) list \<Rightarrow> crdt_op list \<Rightarrow> bool" where
  "have_sent ids a i posts n bs l \<longleftrightarrow> distinct (map fst posts) \<and>
     (\<forall>(q, ops)\<in>set posts. q < n \<and> set ops \<subseteq> set l \<and> list_all (own_op (ids i)) ops) \<and>
     (\<forall>e\<in>set a. fst e = i \<longrightarrow> snd e \<in> set posts) \<and>
     (\<forall>(q, b)\<in>set bs. \<exists>ops. (q, ops) \<in> set posts \<and> set (sb_ids b) \<subseteq> opKey ` set ops)"

lemma have_log_ok: "have_log base ids a i p l k \<Longrightarrow> log_ok l"
  using delivered_log_ok [of "[]" l] by (simp add: have_log_def log_ok_def)

lemma own_in_log: "\<lbrakk>have_sent ids a i posts n bs l; e \<in> set a; fst e = i\<rbrakk> \<Longrightarrow> set (entry_ops e) \<subseteq> set l"
  by (force simp: have_sent_def entry_ops_def)

text \<open>No entry takes an identifier of the client's but those the client knows of.\<close>

lemma own_clash:
  assumes au: "authors ids a i" and l: "have_log base ids a i p l k" and st: "have_sent ids a i posts n bs l"
    and x: "own_op (ids i) x" "is_ins x" and y: "y \<in> set (log_of base a)" "is_ins y" "op_id y = op_id x"
  shows "y \<in> set l"
proof (cases "y \<in> set base")
  case True
  then show ?thesis using l by (auto simp: have_log_def log_of_def)
next
  case False
  then obtain e where e: "e \<in> set a" "y \<in> set (entry_ops e)" using y(1) by (auto simp: log_of_def)
  from same_author [OF au e(1) x(1) e(2) x(2) y(2) y(3) [symmetric]] show ?thesis
    using own_in_log [OF st e(1)] e(2) by auto
qed

lemma have_log_local:
  assumes au: "authors ids a i" and l: "have_log base ids a i p l k" and st: "have_sent ids a i posts n bs l"
    and d: "delivered crdt_ready l ops" and o: "list_all (own_op (ids i)) ops"
  shows "have_log base ids a i (p @ ops) (l @ ops) k"
proof -
  have "delivered crdt_ready (log_of base a @ p) ops"
  proof (rule delivered_mono [OF d], goal_cases)
    case 1
    then show ?case using l by (auto simp: have_log_def)
  next
    case 2
    show ?case
    proof (intro ballI impI; elim conjE)
      fix x y assume x: "x \<in> set ops" "is_ins x" and y: "y \<in> set (log_of base a @ p)" "is_ins y" "op_id y = op_id x"
      have "own_op (ids i) x" using o x(1) by (simp add: list_all_iff)
      then have "y \<in> set l" using own_clash [OF au l st _ x(2)] y l by (auto simp: have_log_def)
      then show "y = x" using delivered_unique [OF d x] y by simp
    qed
  qed
  then show ?thesis using l o d by (auto simp: have_log_def delivered_append)
qed

lemma have_log_drop:
  assumes "have_log base ids a i p l k" "\<forall>x\<in>set p. \<not> P x \<longrightarrow> x \<in> set (log_of base a)"
  shows "have_log base ids a i (filter P p) l k"
  using assms delivered_drop by (auto simp: have_log_def list_all_iff)

lemma have_log_own:
  assumes "have_log base ids a i p l k" "have_sent ids a i posts n bs l" "k < length a" "fst (a ! k) = i"
  shows "have_log base ids a i p l (Suc k)"
  using assms own_in_log [OF assms(2) nth_mem assms(4)] by (simp add: have_log_def log_of_Suc)

lemma have_log_foreign:
  assumes au: "authors ids a i" and la: "delivered crdt_ready [] (log_of base a)"
    and l: "have_log base ids a i p l k" and k: "k < length a" "fst (a ! k) \<noteq> i"
  shows "have_log base ids a i p (l @ entry_ops (a ! k)) (Suc k)"
proof -
  let ?ops = "entry_ops (a ! k)"
  have ok: "log_ok (log_of base a)" using delivered_log_ok [OF _ la] by (simp add: log_ok_def)
  have "delivered crdt_ready (log_of base (take k a)) ?ops"
    using log_of_take [OF la, of "Suc k"] by (simp add: log_of_Suc [OF k(1)] delivered_append)
  moreover have "y = x" if x: "x \<in> set ?ops" "is_ins x" and y: "y \<in> set l" "is_ins y" "op_id y = op_id x" for x y
  proof (cases "y \<in> set (log_of base a)")
    case True
    then show ?thesis using ok x y entry_in_log [OF k(1), of base] by (auto simp: log_ok_def)
  next
    case False
    then have "own_op (ids i) y" using l y(1) by (auto simp: have_log_def list_all_iff)
    then have "fst (a ! k) = i" by (rule same_author [OF au nth_mem [OF k(1)] _ x(1) y(2) x(2) y(3)])
    then show ?thesis using k(2) by simp
  qed
  ultimately have "delivered crdt_ready l ?ops" using l by (intro delivered_mono [of _ ?ops l]) (auto simp: have_log_def)
  then show ?thesis using l k entry_in_log [OF k(1), of base] by (auto simp: have_log_def delivered_append log_of_Suc)
qed

text \<open>The server accepts one more batch, of any client.\<close>

lemma have_log_accept:
  assumes au: "authors ids (a @ [e]) i" and l: "have_log base ids a i p l k" and st: "have_sent ids (a @ [e]) i posts n bs l"
  shows "have_log base ids (a @ [e]) i p l k"
proof -
  have "y = x" if x: "x \<in> set p" "is_ins x" and y: "y \<in> set (log_of base a @ entry_ops e)" "is_ins y" "op_id y = op_id x" for x y
  proof (cases "y \<in> set (log_of base a)")
    case True
    then show ?thesis using l delivered_unique [of "log_of base a" p x y] x y by (simp add: have_log_def)
  next
    case False
    then have ye: "y \<in> set (entry_ops e)" using y by simp
    have o: "own_op (ids i) x" and "e \<in> set (a @ [e])" using l x by (auto simp: have_log_def list_all_iff)
    from same_author [OF au this(2) o ye x(2) y(2) y(3) [symmetric]] have "fst e = i" .
    then have "y \<in> set l" using own_in_log [OF st, of e] ye by auto
    moreover have "x \<in> set l" using l x(1) by (auto simp: have_log_def)
    ultimately show ?thesis using have_log_ok [OF l] x y by (simp add: log_ok_def)
  qed
  note same = this
  have "delivered crdt_ready (log_of base a) p" using l by (simp add: have_log_def)
  then have "delivered crdt_ready (log_of base a @ entry_ops e) p"
  proof (rule delivered_mono)
    show "\<forall>x\<in>set p. is_ins x \<longrightarrow> (\<forall>y\<in>set (log_of base a @ entry_ops e). is_ins y \<and> op_id y = op_id x \<longrightarrow> y = x)"
      using same by blast
  qed simp
  then show ?thesis using l by (auto simp: have_log_def)
qed

section \<open>What it sent\<close>

lemma have_sent_mono: "\<lbrakk>have_sent ids a i posts n bs l; set l \<subseteq> set l'\<rbrakk> \<Longrightarrow> have_sent ids a i posts n bs l'"
  by (fastforce simp: have_sent_def)

lemma have_sent_accept:
  assumes "have_sent ids a i posts n bs l" "fst e = i \<Longrightarrow> snd e \<in> set posts"
  shows "have_sent ids (a @ [e]) i posts n bs l"
  using assms by (auto simp: have_sent_def)

lemma have_sent_fewer:
  assumes "have_sent ids a i posts n bs l"
    and "\<forall>(q, b)\<in>set cs. \<exists>b'. (q, b') \<in> set bs \<and> set (sb_ids b) \<subseteq> set (sb_ids b')"
  shows "have_sent ids a i posts n cs l"
proof -
  have "\<exists>ops. (q, ops) \<in> set posts \<and> set (sb_ids b) \<subseteq> opKey ` set ops" if c: "(q, b) \<in> set cs" for q b
  proof -
    obtain b' where b': "(q, b') \<in> set bs" "set (sb_ids b) \<subseteq> set (sb_ids b')" using bspec [OF assms(2) c] by auto
    then obtain ops where "(q, ops) \<in> set posts" "set (sb_ids b') \<subseteq> opKey ` set ops"
      using assms(1) unfolding have_sent_def by fastforce
    with b'(2) show ?thesis by blast
  qed
  then have "\<forall>(q, b)\<in>set cs. \<exists>ops. (q, ops) \<in> set posts \<and> set (sb_ids b) \<subseteq> opKey ` set ops" by blast
  then show ?thesis using assms(1) unfolding have_sent_def by blast
qed

lemma have_sent_post:
  assumes "have_sent ids a i posts n bs l" "set ops \<subseteq> set l" "list_all (own_op (ids i)) ops"
    and "set bs' \<subseteq> insert (n, b) (set bs)" "set (sb_ids b) \<subseteq> opKey ` set ops"
  shows "have_sent ids a i (posts @ [(n, ops)]) (Suc n) bs' l"
proof -
  have "n \<notin> fst ` set posts" using assms(1) by (force simp: have_sent_def)
  then have "distinct (map fst (posts @ [(n, ops)]))" using assms(1) by (simp add: have_sent_def)
  moreover have "\<exists>ops'. (q, ops') \<in> set (posts @ [(n, ops)]) \<and> set (sb_ids b') \<subseteq> opKey ` set ops'"
    if q: "(q, b') \<in> set bs'" for q b'
  proof (cases "(q, b') \<in> set bs")
    case True
    then obtain ops' where "(q, ops') \<in> set posts" "set (sb_ids b') \<subseteq> opKey ` set ops'"
      using assms(1) unfolding have_sent_def by fastforce
    then show ?thesis by auto
  next
    case False
    then have "q = n" "b' = b" using q assms(4) by auto
    then show ?thesis using assms(5) by auto
  qed
  moreover have "\<forall>(q, ops')\<in>set (posts @ [(n, ops)]). q < Suc n \<and> set ops' \<subseteq> set l \<and> list_all (own_op (ids i)) ops'"
    using assms(1-3) by (auto simp: have_sent_def less_Suc_eq)
  moreover have "\<forall>e\<in>set a. fst e = i \<longrightarrow> snd e \<in> set (posts @ [(n, ops)])"
    using assms(1) by (simp add: have_sent_def)
  ultimately show ?thesis unfolding have_sent_def by blast
qed

text \<open>An operation of the client's with the key of an accepted one is that one.\<close>

lemma key_same:
  assumes "log_ok l" "x \<in> set l" "y \<in> set l" "own_op site x" "own_op site y" "opKey x = opKey y"
    and "is_ins x \<or> is_del x" "is_ins y \<or> is_del y"
  shows "x = y"
proof -
  have k: "op_kind x = op_kind y" "op_id x = op_id y"
    using assms(6-8) by (auto simp: opKey_def is_ins_def is_del_def js_def)
  then show ?thesis
    using assms by (cases "is_ins x") (auto simp: log_ok_def own_op_def is_ins_def)
qed

section \<open>What it has of an earlier log\<close>

text \<open>
  A message tells of the log as it was when the message was sent, the first \<open>h\<close> entries. Until a client knows more
  than these, what it has is something of this earlier log too, and of its pending operations. \<open>H\<close> are the moments of
  the messages on their way to it.
\<close>

definition behind :: "crdt_op list \<Rightarrow> (nat \<Rightarrow> jsstring) \<Rightarrow> entry list \<Rightarrow> nat set \<Rightarrow> nat \<Rightarrow> crdt_op list \<Rightarrow> crdt_op list \<Rightarrow> nat \<Rightarrow> bool" where
  "behind base ids a H i p l k \<longleftrightarrow> (\<forall>h\<in>H. h \<le> length a \<and> (k \<le> h \<longrightarrow> have_log base ids (take h a) i p l k))"

lemma authors_take: "authors ids a i \<Longrightarrow> authors ids (take h a) i"
  by (auto simp: authors_def dest: in_set_takeD)

lemma have_sent_take: "have_sent ids a i posts n bs l \<Longrightarrow> have_sent ids (take h a) i posts n bs l"
  by (auto simp: have_sent_def dest: in_set_takeD)

lemma behind_mono: "\<lbrakk>behind base ids a H i p l k; H' \<subseteq> H\<rbrakk> \<Longrightarrow> behind base ids a H' i p l k"
  by (auto simp: behind_def)

lemma behind_now: "\<lbrakk>behind base ids a H i p l k; have_log base ids a i p l k\<rbrakk> \<Longrightarrow> behind base ids a (insert (length a) H) i p l k"
  by (simp add: behind_def)

lemma behind_accept: "behind base ids a H i p l k \<Longrightarrow> behind base ids (a @ [e]) H i p l k"
  by (auto simp: behind_def)

lemma behind_local:
  assumes "behind base ids a H i p l k" "authors ids a i" "have_sent ids a i posts n bs l"
    and "delivered crdt_ready l ops" "list_all (own_op (ids i)) ops"
  shows "behind base ids a H i (p @ ops) (l @ ops) k"
  unfolding behind_def
proof (intro ballI conjI impI)
  fix h assume h: "h \<in> H"
  then show "h \<le> length a" using assms(1) by (simp add: behind_def)
  assume "k \<le> h"
  then show "have_log base ids (take h a) i (p @ ops) (l @ ops) k"
    using have_log_local [OF authors_take [OF assms(2)] _ have_sent_take [OF assms(3)] assms(4,5)] assms(1) h
    by (simp add: behind_def)
qed

lemma behind_drop:
  assumes "behind base ids a H i p l k" "\<forall>h\<in>H. \<forall>x\<in>set p. \<not> P x \<longrightarrow> x \<in> set (log_of base (take h a))"
  shows "behind base ids a H i (filter P p) l k"
  using assms have_log_drop by (simp add: behind_def)

lemma behind_own:
  assumes "behind base ids a H i p l k" "have_sent ids a i posts n bs l" "k < length a" "fst (a ! k) = i"
  shows "behind base ids a H i p l (Suc k)"
  unfolding behind_def
proof (intro ballI conjI impI)
  fix h assume h: "h \<in> H"
  then show "h \<le> length a" using assms(1) by (simp add: behind_def)
  assume k: "Suc k \<le> h"
  then have "have_log base ids (take h a) i p l k" using assms(1) h by (simp add: behind_def)
  then show "have_log base ids (take h a) i p l (Suc k)"
    by (rule have_log_own [OF _ have_sent_take [OF assms(2)]]) (use k assms(3,4) in simp_all)
qed

lemma behind_foreign:
  assumes "behind base ids a H i p l k" "authors ids a i" "delivered crdt_ready [] (log_of base a)"
    and k: "k < length a" "fst (a ! k) \<noteq> i"
  shows "behind base ids a H i p (l @ entry_ops (a ! k)) (Suc k)"
  unfolding behind_def
proof (intro ballI conjI impI)
  fix h assume h: "h \<in> H"
  then show "h \<le> length a" using assms(1) by (simp add: behind_def)
  assume "Suc k \<le> h"
  moreover from this have "have_log base ids (take h a) i p l k" using assms(1) h by (simp add: behind_def)
  ultimately show "have_log base ids (take h a) i p (l @ entry_ops (a ! k)) (Suc k)"
    using have_log_foreign [OF authors_take [OF assms(2)] log_of_take [OF assms(3)], of h p l k] k by simp
qed

text \<open>A snapshot of an earlier log, for a client that has something of it.\<close>

lemma have_log_snapshot:
  assumes "delivered crdt_ready [] (log_of base a)" "have_log base ids a i p l k" "have_log base ids (take h a) i p l k"
    and "h \<le> length a"
  shows "have_log base ids a i p (log_of base (take h a) @ p) h" "set l \<subseteq> set (log_of base (take h a) @ p)"
proof -
  have "delivered crdt_ready [] (log_of base (take h a))" by (rule log_of_take [OF assms(1)])
  then show "have_log base ids a i p (log_of base (take h a) @ p) h"
    using assms(2-4) log_of_sub [of base h a] by (auto simp: have_log_def delivered_append)
  show "set l \<subseteq> set (log_of base (take h a) @ p)" using assms(3) by (simp add: have_log_def)
qed

lemma behind_snapshot:
  assumes "behind base ids a H i p l k" "delivered crdt_ready [] (log_of base a)"
    and "have_log base ids (take h a) i p l k" "\<forall>h'\<in>H. h \<le> h'" "k \<le> h"
  shows "behind base ids a H i p (log_of base (take h a) @ p) h"
  unfolding behind_def
proof (intro ballI conjI impI)
  fix h' assume h': "h' \<in> H"
  then show "h' \<le> length a" using assms(1) by (simp add: behind_def)
  moreover have "h \<le> h'" using assms(4) h' by simp
  moreover from this have "have_log base ids (take h' a) i p l k" using assms(1,5) h' by (simp add: behind_def)
  ultimately show "have_log base ids (take h' a) i p (log_of base (take h a) @ p) h"
    using have_log_snapshot(1) [OF log_of_take [OF assms(2)], of ids h' i p l k h] assms(3) by (simp add: min_def)
qed

end
