(* ===== verification/RoomEdits.thy ===== *)
theory RoomEdits
  imports ClientProps RoomLog
begin

text \<open>
  A client in its room, handler by handler: what it has of the room's log after each. \<open>in_step\<close> is the invariant
  of one client; the log of the room changes only when the server accepts a batch. While the user composes, the
  client keeps the document of the start of the composition, part of its log, and queues the broadcasts it is sent.
\<close>

section \<open>The invariant of a client\<close>

definition of_generation :: "nat \<Rightarrow> nat \<Rightarrow> msg \<Rightarrow> bool" where
  [js_eval]: "of_generation g v m \<longleftrightarrow> m_version m = Some v \<and> m_generation m = Some (Fin (of_nat g)) \<and> m_exists m \<noteq> Some False"

text \<open>The broadcast of entry \<open>j\<close>.\<close>

definition ops_frame :: "nat \<Rightarrow> nat \<Rightarrow> (nat \<Rightarrow> jsstring) \<Rightarrow> entry list \<Rightarrow> nat \<Rightarrow> msg \<Rightarrow> bool" where
  [js_eval]: "ops_frame v0 g ids a j m \<longleftrightarrow> j < length a \<and> m_type m = js ''ops'' \<and> of_generation g (v0 + j + 1) m \<and>
     m_ops m = Some (entry_ops (a ! j)) \<and> m_updatedBy m = Some (ids (fst (a ! j)))"

lemma ops_frame_later: "ops_frame v0 g ids a j m \<Longrightarrow> ops_frame v0 g ids (a @ [e]) j m"
  by (simp add: ops_frame_def nth_append)

text \<open>A document and its text, part of the log the client has.\<close>

definition earlier_doc :: "crdt_op list \<Rightarrow> doc \<Rightarrow> jsstring \<Rightarrow> bool" where
  "earlier_doc l d v \<longleftrightarrow> canonical_doc d \<and> aligned d \<and> v = materialize d \<and>
     (\<exists>l0. get_item d = log_item l0 \<and> delivered crdt_ready [] l0 \<and> set l0 \<subseteq> set l)"

lemma earlier_doc_mono: "\<lbrakk>earlier_doc l d v; set l \<subseteq> set l'\<rbrakk> \<Longrightarrow> earlier_doc l' d v"
  by (auto simp: earlier_doc_def)

text \<open>The composition of a client, and what it keeps of it. The queued broadcasts are of entries that all messages
  on their way to the client, sent at the moments \<open>H\<close>, come after.\<close>

type_synonym composition = "bool \<times> bool \<times> doc option \<times> jsstring \<times> deferred list"

definition comp_of :: "app \<Rightarrow> composition" where
  "comp_of s = (compositionActive s, compositionCommitPending s, compositionBaseDoc s, compositionBaseText s,
     deferredContentMessages s)"

fun comp_ok :: "nat \<Rightarrow> nat \<Rightarrow> (nat \<Rightarrow> jsstring) \<Rightarrow> entry list \<Rightarrow> nat set \<Rightarrow> crdt_op list \<Rightarrow> composition \<Rightarrow> bool" where
  "comp_ok v0 g ids a H l (active, pending, base, v, queue) \<longleftrightarrow> \<not> (active \<and> pending) \<and>
     (if active \<or> pending then (\<exists>d. base = Some d \<and> earlier_doc l d v) \<and>
        (\<forall>q\<in>set queue. \<exists>j m. q = DMsg m \<and> ops_frame v0 g ids a j m \<and> (\<forall>h\<in>H. j < h))
      else queue = [])"

lemma comp_ok_mono: "\<lbrakk>comp_ok v0 g ids a H l c; set l \<subseteq> set l'\<rbrakk> \<Longrightarrow> comp_ok v0 g ids a H l' c"
  using earlier_doc_mono [of l _ _ l'] by (cases c) auto

lemma comp_ok_later: "comp_ok v0 g ids a H l c \<Longrightarrow> comp_ok v0 g ids (a @ [e]) H l c"
  by (cases c) (fastforce intro: ops_frame_later)

lemma comp_core: "core t = core s \<Longrightarrow> comp_of t = comp_of s"
  by (simp add: comp_of_def core_def)

lemma composing_comp: "comp_of t = comp_of s \<Longrightarrow> compositionIsActive t = compositionIsActive s"
  by (simp add: compositionIsActive_def comp_of_def)

lemma comp_update [simp]:
  "comp_of (s\<lparr>the_doc := d\<rparr>) = comp_of s" "comp_of (s\<lparr>localClock := c\<rparr>) = comp_of s"
  "comp_of (s\<lparr>pendingOps := ops\<rparr>) = comp_of s" "comp_of (s\<lparr>undoStack := st\<rparr>) = comp_of s"
  "comp_of (s\<lparr>redoStack := st\<rparr>) = comp_of s" "comp_of (s\<lparr>sentBatches := bs\<rparr>) = comp_of s"
  "comp_of (s\<lparr>nextSeq := n\<rparr>) = comp_of s" "comp_of (s\<lparr>knownVersion := n\<rparr>) = comp_of s"
  "comp_of (s\<lparr>knownGeneration := n\<rparr>) = comp_of s" "comp_of (s\<lparr>knownExists := b\<rparr>) = comp_of s"
  "comp_of (s\<lparr>lastSyncedText := v\<rparr>) = comp_of s" "comp_of (s\<lparr>out := es\<rparr>) = comp_of s"
  "comp_of (scheduleFlush s) = comp_of s" "comp_of (bumpClockFromDoc s) = comp_of s"
  "comp_of (bumpClockFromOps ops s) = comp_of s" "comp_of (pushUndoEntry now ops s) = comp_of s"
  by (simp_all add: comp_of_def bumpClockFromDoc_def bumpClockFromOps_def pushUndoEntry_def Let_def)

definition history_ops :: "app \<Rightarrow> crdt_op set" where
  "history_ops s = (\<Union>e\<in>set (undoStack s) \<union> set (redoStack s). set (ue_ops e))"

definition in_doc :: "app \<Rightarrow> crdt_op list \<Rightarrow> bool" where
  "in_doc s l \<longleftrightarrow> canonical_doc (the_doc s) \<and> get_item (the_doc s) = log_item l \<and> clocks_le (the_doc s) (localClock s)"

definition in_step :: "crdt_op list \<Rightarrow> nat \<Rightarrow> nat \<Rightarrow> (nat \<Rightarrow> jsstring) \<Rightarrow> entry list \<Rightarrow> nat set \<Rightarrow> nat \<Rightarrow> app \<Rightarrow> crdt_op list \<Rightarrow> nat \<Rightarrow> bool" where
  "in_step base v0 g ids a H i s l k \<longleftrightarrow> in_doc s l \<and> have_log base ids a i (pendingOps s) l k \<and>
     behind base ids a H i (pendingOps s) l k \<and> have_sent ids a i (posted s) (nextSeq s) (sentBatches s) l \<and> history_ops s \<subseteq> set l \<and>
     knownVersion s = v0 + k \<and> knownGeneration s = g \<and> knownExists s \<and> CLIENT_ID s = ids i \<and>
     comp_ok v0 g ids a H l (comp_of s)"

lemma in_step_core:
  assumes "core t = core s"
  shows "in_step base v0 g ids a H i t l k = in_step base v0 g ids a H i s l k"
  using core_frame [OF assms] comp_core [OF assms] by (simp add: in_step_def in_doc_def history_ops_def)

text \<open>What stays when operations of the client's own are made.\<close>

definition same_link :: "app \<Rightarrow> app \<Rightarrow> bool" where
  "same_link s t \<longleftrightarrow> posted t = posted s \<and> nextSeq t = nextSeq s \<and> sentBatches t = sentBatches s \<and>
     knownVersion t = knownVersion s \<and> knownGeneration t = knownGeneration s \<and> knownExists t = knownExists s \<and>
     CLIENT_ID t = CLIENT_ID s \<and> comp_of t = comp_of s"

lemma in_step_local:
  assumes st: "in_step base v0 g ids a H i s l k" and au: "authors ids a i"
    and d: "delivered crdt_ready l ops" "list_all (own_op (ids i)) ops" "in_doc t (l @ ops)"
    and t: "pendingOps t = pendingOps s @ ops" "same_link s t" "history_ops t \<subseteq> history_ops s \<union> set ops"
  shows "in_step base v0 g ids a H i t (l @ ops) k"
proof -
  have l: "have_log base ids a i (pendingOps s) l k"
    and p: "have_sent ids a i (posted s) (nextSeq s) (sentBatches s) l" using st by (simp_all add: in_step_def)
  show ?thesis
    using st t have_log_local [OF au l p d(1,2)] have_sent_mono [OF p, of "l @ ops"] d(3)
      comp_ok_mono [of v0 g ids a H l "comp_of s" "l @ ops"] behind_local [OF _ au p d(1,2)]
    by (auto simp: in_step_def same_link_def)
qed

section \<open>Local edits\<close>

lemma posted_fields [simp]:
  "posted (s\<lparr>the_doc := d\<rparr>) = posted s" "posted (s\<lparr>localClock := c\<rparr>) = posted s"
  "posted (s\<lparr>pendingOps := ops\<rparr>) = posted s" "posted (s\<lparr>undoStack := st\<rparr>) = posted s"
  "posted (s\<lparr>redoStack := st\<rparr>) = posted s" "posted (s\<lparr>sentBatches := bs\<rparr>) = posted s"
  "posted (s\<lparr>nextSeq := n\<rparr>) = posted s" "posted (s\<lparr>knownVersion := n\<rparr>) = posted s"
  "posted (s\<lparr>knownGeneration := n\<rparr>) = posted s" "posted (s\<lparr>knownExists := b\<rparr>) = posted s"
  "posted (s\<lparr>lastSyncedText := v\<rparr>) = posted s"
  by (simp_all add: posted_def)

lemma bump_link [simp]:
  "posted (bumpClockFromDoc s) = posted s" "posted (bumpClockFromOps ops s) = posted s"
  "knownVersion (bumpClockFromDoc s) = knownVersion s" "knownVersion (bumpClockFromOps ops s) = knownVersion s"
  "knownGeneration (bumpClockFromDoc s) = knownGeneration s" "knownGeneration (bumpClockFromOps ops s) = knownGeneration s"
  "knownExists (bumpClockFromDoc s) = knownExists s" "knownExists (bumpClockFromOps ops s) = knownExists s"
  "undoStack (bumpClockFromDoc s) = undoStack s" "undoStack (bumpClockFromOps ops s) = undoStack s"
  "redoStack (bumpClockFromDoc s) = redoStack s" "redoStack (bumpClockFromOps ops s) = redoStack s"
  by (simp_all add: bumpClockFromDoc_def bumpClockFromOps_def Let_def)

lemma push_link [simp]:
  "posted (pushUndoEntry now ops s) = posted s" "knownVersion (pushUndoEntry now ops s) = knownVersion s"
  "knownGeneration (pushUndoEntry now ops s) = knownGeneration s" "knownExists (pushUndoEntry now ops s) = knownExists s"
  by (simp_all add: pushUndoEntry_def)

lemma set_tl: "set (tl xs) \<subseteq> set xs"
  by (cases xs) auto

lemma push_entry_ops: "(\<Union>e\<in>set (push_entry now ops st). set (ue_ops e)) \<subseteq> (\<Union>e\<in>set st. set (ue_ops e)) \<union> set ops"
proof (cases "st \<noteq> [] \<and> now - ue_at (last st) \<le> undoCoalesceMs")
  case True
  then have "last st \<in> set st" by simp
  then have "set (ue_ops (last st)) \<subseteq> (\<Union>e\<in>set st. set (ue_ops e))" by blast
  then show ?thesis using True by (auto simp: push_entry_def dest: in_set_butlastD)
next
  case False
  then have "set (push_entry now ops st) \<subseteq> set (st @ [\<lparr>ue_ops = ops, ue_at = now\<rparr>])"
    using set_tl [of "st @ [\<lparr>ue_ops = ops, ue_at = now\<rparr>]"] by (auto simp: push_entry_def Let_def)
  then show ?thesis by fastforce
qed

lemma history_push: "history_ops (pushUndoEntry now ops s) \<subseteq> history_ops s \<union> set ops"
  using push_entry_ops [of now ops "undoStack s"] by (auto simp: pushUndoEntry_def history_ops_def)

lemma history_core: "core t = core s \<Longrightarrow> history_ops t = history_ops s"
  by (simp add: history_ops_def core_def)

lemma diff_fresh:
  assumes c: "canonical_doc d" "clocks_le d m" and le: "m + length new \<le> max_exact" and site: "site \<noteq> []" "colon \<notin> set site"
    and df: "ops = df_ops (diffToOps old oldIds new site m)" "ops = map (\<lambda>x. del_op (it_id x)) M @ inss"
    and M: "set M \<subseteq> set (visible d)" and i: "list_all is_ins inss"
  shows "list_all (fresh_for d) ops \<and> distinct (map op_id inss) \<and> list_all (own_op site) ops \<and>
    (\<forall>x\<in>set inss. m < id_clock (op_id x))"
proof -
  from diff_own [OF le site, of old oldIds] obtain xs ys n where o: "ops = map del_op xs @ ys" "list_all is_ins ys"
    "list_all (own_op site) ys" "map op_id ys = map (formatID site) [Suc m..<Suc m + n]" "m + n \<le> max_exact"
    unfolding df(1) by blast
  have split: "filter is_ins (map f zs @ ws) = ws" if "\<forall>z. \<not> is_ins (f z)" "list_all is_ins ws"
    for f :: "'z \<Rightarrow> crdt_op" and zs ws using that by (auto simp: list_all_iff)
  have "filter is_ins ops = ys" unfolding o(1) using o(2) by (intro split) simp_all
  moreover have "filter is_ins ops = inss" unfolding df(2) using i by (intro split) simp_all
  ultimately have yi: "ys = inss" by simp
  have new: "\<exists>k. Suc m \<le> k \<and> k \<le> max_exact \<and> op_id x = formatID site k" if "x \<in> set inss" for x
  proof -
    have "op_id x \<in> set (map op_id ys)" using that yi by simp
    then obtain k where "k \<in> set [Suc m..<Suc m + n]" "op_id x = formatID site k" unfolding o(4) by auto
    then show ?thesis using o(5) by (intro exI [of _ k]) (auto simp: less_Suc_eq_le)
  qed
  have later: "m < id_clock (op_id x)" if x: "x \<in> set inss" for x
    using new [OF x] id_formatID [OF site] by (metis Suc_le_lessD le_trans less_eq_Suc_le zero_less_Suc)
  have new_ok: "fresh_for d x" if x: "x \<in> set inss" for x
  proof -
    obtain k where k: "Suc m \<le> k" "k \<le> max_exact" "op_id x = formatID site k" using new [OF x] by blast
    note f = id_formatID [OF site, of k]
    have "op_id x \<notin> doc_ids d" using c(2) f(1) k by (auto simp: clocks_le_def)
    then have "get_item d (op_id x) = None" by (simp add: doc_ids_get_item)
    then show ?thesis using x i f k by (simp add: fresh_for_def list_all_iff)
  qed
  have del_ok: "fresh_for d (del_op (it_id x))" if "x \<in> set M" for x
  proof -
    have "x \<in> set (walk d [])" using that M by (auto simp: visible_def)
    then have "get_item d (it_id x) = Some x" by (rule walk_item [OF canonical_wf [OF c(1)]])
    moreover from canonical_item [OF c(1) this] have "canonical_id (it_id x)" by blast
    ultimately show ?thesis by (simp add: fresh_for_def)
  qed
  have "inj_on (formatID site) {Suc m..<Suc m + n}"
    using formatID_inj [OF _ _ _ _ site] o(5) by (intro inj_onI) auto
  then have "distinct (map (formatID site) [Suc m..<Suc m + n])"
    by (simp only: distinct_map distinct_upt set_upt simp_thms)
  then have "distinct (map op_id inss)" using o(4) yi by metis
  moreover have "list_all (fresh_for d) ops"
    unfolding df(2) using new_ok del_ok by (auto simp: list_all_iff)
  moreover have "list_all (own_op site) inss" using o(3) yi by simp
  then have "list_all (own_op site) ops" unfolding df(2) by (auto simp: list_all_iff own_op_def [of _ "del_op j" for j])
  ultimately show ?thesis using later by blast
qed

lemma bump_clocks: "canonical_doc (the_doc s) \<Longrightarrow> clocks_le (the_doc s) (localClock (bumpClockFromDoc s))"
  by (rule clocks_le_maxClock) (simp_all add: bump_clock clock_after_bump_def)

section \<open>Applying operations of the log\<close>

lemma clock_of: "canonical_id i \<Longrightarrow> \<exists>site. parseID i = Some (site, id_clock i)"
  by (auto simp: canonical_id_def id_clock_def split: option.splits)

lemma bump_ops_clock:
  "localClock s \<le> localClock (bumpClockFromOps ops s) \<and>
   (\<forall>x\<in>set ops. canonical_id (op_id x) \<longrightarrow> id_clock (op_id x) \<le> localClock (bumpClockFromOps ops s))"
proof -
  let ?f = "\<lambda>x c. if op_id x = [] then c else case parseID (op_id x) of Some (_, k) \<Rightarrow> if c < k then k else c | None \<Rightarrow> c"
  have "c \<le> fold ?f ops c \<and> (\<forall>x\<in>set ops. canonical_id (op_id x) \<longrightarrow> id_clock (op_id x) \<le> fold ?f ops c)" for c :: nat
  proof (induction ops arbitrary: c)
    case (Cons x ops)
    have le: "c \<le> ?f x c" by (auto split: option.splits)
    have "id_clock (op_id x) \<le> ?f x c" if "canonical_id (op_id x)"
      using clock_of [OF that] canonical_nonempty [OF that] by auto
    then show ?case using Cons.IH [of "?f x c"] le by (auto intro: order_trans)
  qed simp
  then show ?thesis by (simp add: bumpClockFromOps_def)
qed

lemma applied_in_doc:
  assumes d: "in_doc s l" "delivered crdt_ready [] l" "delivered crdt_ready l ops" "ops \<noteq> []"
  shows "\<exists>d' r. applyBatch (the_doc s) ops = (d', BatchOk r) \<and> canonical_doc d' \<and> get_item d' = log_item (l @ ops) \<and>
    (\<forall>m. localClock s \<le> m \<and> (\<forall>x\<in>set ops. id_clock (op_id x) \<le> m) \<longrightarrow> clocks_le d' m)"
proof -
  have v: "canonical_doc (the_doc s)" "get_item (the_doc s) = log_item l" "clocks_le (the_doc s) (localClock s)"
    using d(1) by (simp_all add: in_doc_def)
  have dl: "delivered crdt_ready [] (l @ ops)" using d(2,3) by (simp add: delivered_append)
  obtain d' r where ap: "applyBatch (the_doc s) ops = (d', BatchOk r)"
    using applyBatch_foldl(2) [OF v(1,2) dl d(4)] by (cases "applyBatch (the_doc s) ops"; cases "snd (applyBatch (the_doc s) ops)")
      (auto simp: batch_ok_def)
  have d': "canonical_doc d'" "get_item d' = log_item (l @ ops)"
    using doc_replica.run_view [OF v(1,2) dl] applyBatch_foldl(1) [OF v(1,2) dl] ap by simp_all
  have "id_clock i \<le> m" if m: "localClock s \<le> m" "\<forall>x\<in>set ops. id_clock (op_id x) \<le> m" and i: "i \<in> doc_ids d'" for i m
  proof -
    have "list_ex (\<lambda>x. is_ins x \<and> op_id x = i) l \<or> (\<exists>x\<in>set ops. op_id x = i)"
      using i log_item_known [of "l @ ops" i] by (auto simp: doc_ids_get_item d'(2) list_ex_iff)
    then show ?thesis
    proof
      assume "list_ex (\<lambda>x. is_ins x \<and> op_id x = i) l"
      then have "get_item (the_doc s) i \<noteq> None" unfolding v(2) log_item_known .
      then have "i \<in> doc_ids (the_doc s)" by (simp only: doc_ids_get_item not_False_eq_True)
      then have "id_clock i \<le> localClock s" using v(3) by (simp add: clocks_le_def)
      then show ?thesis using m(1) by (rule order_trans)
    qed (use m(2) in auto)
  qed
  then have "\<forall>m. localClock s \<le> m \<and> (\<forall>x\<in>set ops. id_clock (op_id x) \<le> m) \<longrightarrow> clocks_le d' m"
    by (simp add: clocks_le_def)
  with ap d' show ?thesis by blast
qed

lemma delivered_ids: "delivered crdt_ready l ops \<Longrightarrow> \<forall>x\<in>set ops. canonical_id (op_id x)"
  using delivered_ready by blast

section \<open>Texts that are edited\<close>

text \<open>The operations of a diff from a document the client had, with clocks after all it has now, can be delivered
  after its log and applied to its document.\<close>

lemma diff_ins_clock: "\<lbrakk>diff_ins site m a cs = (ops, m'); m + length cs \<le> max_exact\<rbrakk> \<Longrightarrow> m \<le> m'"
proof (induction cs arbitrary: m a ops)
  case (Cons c cs)
  then have "num_inc m = Suc m" by (intro num_inc_exact) simp
  then show ?case using Cons.IH [of "Suc m"] Cons.prems by (auto simp: Let_def split: prod.splits dest: Suc_leD)
qed simp

lemma diff_clock:
  assumes "m + length new \<le> max_exact"
  shows "m \<le> df_clock (diffToOps old oldIds new site m)"
proof -
  obtain ro rn where ro: "diff_ro (diff_lo old new) old new (length old) (length new) = (ro, rn)" by force
  let ?a = "if 0 < diff_lo old new then id_at oldIds (diff_lo old new - 1) else []"
  obtain inss m' where i: "diff_ins site m ?a (take (rn - diff_lo old new) (drop (diff_lo old new) new)) = (inss, m')" by force
  then have "df_clock (diffToOps old oldIds new site m) = m'" by (simp add: diffToOps_def ro Let_def)
  then show ?thesis using diff_ins_clock [OF i] assms by simp
qed

lemma diff_delivered:
  assumes e: "earlier_doc l d v" and s: "in_doc s l" "localClock s \<le> m" and v: "valid_client_id site"
    and le: "m + length (codePoints w) \<le> max_exact" and dl: "delivered crdt_ready [] l"
    and df: "diff = diffToOps (codePoints v) (visibleIds d) (codePoints w) site m" "df_ops diff \<noteq> []"
  shows "\<exists>d' b. applyBatch (the_doc s) (df_ops diff) = (d', BatchOk b) \<and> canonical_doc d' \<and>
    get_item d' = log_item (l @ df_ops diff) \<and> clocks_le d' (df_clock diff) \<and>
    delivered crdt_ready l (df_ops diff) \<and> list_all (own_op site) (df_ops diff)"
proof -
  obtain l0 where c: "canonical_doc d" "aligned d" "v = materialize d" and l0: "get_item d = log_item l0"
    "delivered crdt_ready [] l0" "set l0 \<subseteq> set l" using e by (auto simp: earlier_doc_def)
  have known: "id_clock (op_id y) \<le> m" if y: "y \<in> set l" "is_ins y" for y
  proof -
    have "get_item (the_doc s) (op_id y) \<noteq> None"
      using s(1) y log_item_known [of l] by (auto simp: in_doc_def list_ex_iff)
    then have "id_clock (op_id y) \<le> localClock s" using s(1) by (simp add: in_doc_def clocks_le_def doc_ids_get_item)
    then show ?thesis using s(2) by simp
  qed
  have cl: "clocks_le d m"
  proof -
    have "id_clock j \<le> m" if j: "j \<in> doc_ids d" for j
      using j l0(1,3) known log_item_known [of l0 j] by (auto simp: doc_ids_get_item list_ex_iff)
    then show ?thesis by (simp add: clocks_le_def)
  qed
  have site: "site \<noteq> []" "colon \<notin> set site" using valid_site [OF v] by simp_all
  obtain d1 b P M N S inss where d1: "applyBatch d (df_ops diff) = (d1, BatchOk b)" "clocks_le d1 (df_clock diff)"
    and M: "visible d = P @ M @ S" "list_all is_ins inss" "df_ops diff = map (\<lambda>x. del_op (it_id x)) M @ inss"
    using diff_applies [OF c(1) cl _ site le _ df(1) [symmetric] df(2)] c(2,3) codePoints_single
    by (metis aligned_def)
  have f: "list_all (fresh_for d) (df_ops diff)" "distinct (map op_id inss)" "list_all (own_op site) (df_ops diff)"
    "\<forall>x\<in>set inss. m < id_clock (op_id x)"
    using diff_fresh [OF c(1) cl le site _ M(3) _ M(2)] df(1) M(1) by auto
  have "filter is_ins (df_ops diff) = inss" using M(2) by (simp add: M(3) comp_def list_all_iff)
  then have d0: "delivered crdt_ready l0 (df_ops diff)" "get_item d1 = log_item (l0 @ df_ops diff)"
    using applied_delivered [OF c(1) l0(1) _ f(1), of 0 False d1 b] d1(1) f(2) df(2) delivered_log_ok [OF _ l0(2)]
    by (auto simp: applyBatch_def log_ok_def)
  have new: "x \<in> set inss" if "x \<in> set (df_ops diff)" "is_ins x" for x using that by (auto simp: M(3))
  have fresh: "\<forall>x\<in>set (df_ops diff). is_ins x \<longrightarrow> (\<forall>y\<in>set l. is_ins y \<and> op_id y = op_id x \<longrightarrow> y = x)"
    using known f(4) new by (metis leD)
  have dd: "delivered crdt_ready l (df_ops diff)" by (rule delivered_mono [OF d0(1) l0(3) fresh])
  obtain d' b' where d': "applyBatch (the_doc s) (df_ops diff) = (d', BatchOk b')" "canonical_doc d'"
    "get_item d' = log_item (l @ df_ops diff)"
    "\<forall>m. localClock s \<le> m \<and> (\<forall>x\<in>set (df_ops diff). id_clock (op_id x) \<le> m) \<longrightarrow> clocks_le d' m"
    using applied_in_doc [OF s(1) dl dd df(2)] by blast
  have "id_clock (op_id x) \<le> df_clock diff" if x: "x \<in> set (df_ops diff)" for x
  proof (cases "is_ins x")
    case True
    then have "get_item d1 (op_id x) \<noteq> None" using x log_item_known [of "l0 @ df_ops diff"] by (auto simp: d0(2) list_ex_iff)
    then show ?thesis using d1(2) by (simp add: clocks_le_def doc_ids_get_item)
  next
    case False
    then obtain y where "y \<in> set M" "x = del_op (it_id y)" using x M(2) by (auto simp: M(3) list_all_iff)
    then have y: "y \<in> set (visible d)" "op_id x = it_id y" using M(1) by simp_all
    then have "y \<in> set (walk d [])" by (simp add: visible_def)
    then have "get_item d (op_id x) \<noteq> None" using walk_item [OF canonical_wf [OF c(1)]] y(2) by auto
    then have "id_clock (op_id x) \<le> m" using cl by (simp add: clocks_le_def doc_ids_get_item)
    then show ?thesis using diff_clock [OF le] df(1) by (metis le_trans)
  qed
  moreover have "localClock s \<le> df_clock diff" using diff_clock [OF le] df(1) s(2) by (metis le_trans)
  ultimately have "clocks_le d' (df_clock diff)" using d'(4) by blast
  then show ?thesis using d' dd f(3) by blast
qed

lemma bump_in_step:
  assumes "in_step base v0 g ids a H i s l k"
  shows "in_step base v0 g ids a H i (bumpClockFromDoc s) l k"
  using assms bump_clocks [of s] by (simp add: in_step_def in_doc_def bump_core history_ops_def)

text \<open>An edit from such a document joins the log of the client and its pending operations.\<close>

lemma commit_diff_in_step:
  assumes st: "in_step base v0 g ids a H i s l k" and au: "authors ids a i" and e: "earlier_doc l d v"
    and m: "localClock s + length (codePoints w) \<le> max_exact"
    and df: "diff = diffToOps (codePoints v) (visibleIds d) (codePoints w) (CLIENT_ID s) (localClock s)"
  shows "\<exists>t. commit_diff now diff s = (True, t) \<and> in_step base v0 g ids a H i t (l @ df_ops diff) k \<and>
    comp_of t = comp_of s \<and> pendingOps t = pendingOps s @ df_ops diff"
proof (cases "df_ops diff = []")
  case True
  then show ?thesis using st by (simp add: commit_diff_def)
next
  case False
  have dl: "delivered crdt_ready [] l" "in_doc s l" "CLIENT_ID s = ids i" "valid_client_id (ids i)"
    using st au by (simp_all add: in_step_def have_log_def authors_def)
  from diff_delivered [OF e dl(2) order_refl _ m dl(1), of "ids i" diff] obtain d' b where
    d': "applyBatch (the_doc s) (df_ops diff) = (d', BatchOk b)" "canonical_doc d'" "get_item d' = log_item (l @ df_ops diff)"
      "clocks_le d' (df_clock diff)" "delivered crdt_ready l (df_ops diff)" "list_all (own_op (ids i)) (df_ops diff)"
    using df False dl(3,4) by auto
  let ?w = "s\<lparr>localClock := df_clock diff, the_doc := d', pendingOps := pendingOps s @ df_ops diff\<rparr>"
  let ?t = "pushUndoEntry now (df_ops diff) ?w"
  have t: "commit_diff now diff s = (True, ?t)" using False d'(1) by (simp add: commit_diff_def batch_ok_def Let_def)
  have "in_step base v0 g ids a H i ?t (l @ df_ops diff) k"
    by (rule in_step_local [OF st au d'(5,6)])
       (use d'(2-4) history_push [of now "df_ops diff" ?w] in
         \<open>simp_all add: in_doc_def push_core same_link_def history_ops_def\<close>)
  with t show ?thesis by (simp add: push_core)
qed

lemma applyLocalText_in_step:
  assumes st: "in_step base v0 g ids a H i s l k" and au: "authors ids a i" and al: "aligned (the_doc s)"
    and m: "clock_after_bump s + length (codePoints w) \<le> max_exact"
  shows "\<exists>l'. in_step base v0 g ids a H i (applyLocalText now w s) l' k"
proof -
  let ?s = "bumpClockFromDoc s" and ?v = "materialize (the_doc s)"
  define diff where "diff = diffToOps (codePoints ?v) (visibleIds (the_doc s)) (codePoints w) (CLIENT_ID s) (clock_after_bump s)"
  have e: "earlier_doc l (the_doc s) ?v" using st al by (auto simp: earlier_doc_def in_step_def in_doc_def have_log_def)
  obtain t where t: "commit_diff now diff ?s = (True, t)" "in_step base v0 g ids a H i t (l @ df_ops diff) k"
    using commit_diff_in_step [OF bump_in_step [OF st] au e, of w diff now] m
    by (auto simp: diff_def bump_core bump_clock)
  have "applyLocalText now w s = (if ?v = w then s else if df_ops diff = [] then ?s else scheduleFlush t)"
    using t(1) by (auto simp: applyLocalText_def commit_diff_def diff_def [symmetric] bump_core bump_clock Let_def
        split: prod.splits if_splits)
  then show ?thesis using st bump_in_step [OF st] t(2) in_step_core [of "scheduleFlush t" t] by auto
qed

lemma onInput_in_step:
  assumes st: "in_step base v0 g ids a H i s l k" and au: "authors ids a i"
    and m: "compositionIsActive s \<or> aligned (the_doc s) \<and>
      clock_after_bump s + length (codePoints (ed_value (content s))) \<le> max_exact"
  shows "\<exists>l'. in_step base v0 g ids a H i (onInput now s) l' k"
proof (cases "applyingRemote s \<or> compositionIsActive s")
  case True
  then have "core (onInput now s) = core s" by (auto simp: onInput_def compositionIsActive_def)
  then show ?thesis using st in_step_core by metis
next
  case False
  then have "core (onInput now s) = core (applyLocalText now (ed_value (content s)) s)"
    by (simp add: onInput_def compositionIsActive_def Let_def)
  then show ?thesis using applyLocalText_in_step [OF st au] m False in_step_core by metis
qed

section \<open>Compositions\<close>

lemma start_in_step:
  assumes st: "in_step base v0 g ids a H i s l k" and al: "aligned (the_doc s)" "ed_value (content s) = materialize (the_doc s)"
  shows "in_step base v0 g ids a H i (onCompositionStart s) l k"
proof (cases "applyingRemote s \<or> compositionActive s")
  case False
  have c: "canonical_doc (the_doc s)" "get_item (the_doc s) = log_item l" "delivered crdt_ready [] l"
    using st by (simp_all add: in_step_def in_doc_def have_log_def)
  have same: "same_doc (the_doc s) (clone (the_doc s))" "canonical_doc (clone (the_doc s))"
    using same_clone canonical_clone c(1) by blast+
  then have "visible (clone (the_doc s)) = visible (the_doc s)" "get_item (clone (the_doc s)) = get_item (the_doc s)"
    using same_walk [OF same(1) canonical_wf canonical_wf] c(1) by (auto simp: visible_def same_doc_def)
  then have "earlier_doc l (clone (the_doc s)) (ed_value (content s))"
    using al c same by (auto simp: earlier_doc_def aligned_def visible_readers)
  then have "comp_ok v0 g ids a H l (comp_of (onCompositionStart s))"
    using False st by (auto simp: onCompositionStart_def comp_of_def in_step_def split: if_splits)
  moreover have "onCompositionStart s = s\<lparr>cursorTimer := False, compositionActive := True, compositionCommitPending := False,
      compositionInputPending := False, compositionBaseText := ed_value (content s), compositionBaseDoc := Some (clone (the_doc s))\<rparr>"
    using False by (simp add: onCompositionStart_def)
  ultimately show ?thesis using st by (simp add: in_step_def in_doc_def history_ops_def posted_def)
next
  case True
  then show ?thesis using st by (auto simp: onCompositionStart_def)
qed

lemma end_in_step:
  assumes "in_step base v0 g ids a H i s l k"
  shows "in_step base v0 g ids a H i (onCompositionEnd s) l k"
proof (cases "compositionActive s")
  case True
  let ?t = "s\<lparr>compositionActive := False, compositionCommitPending := True\<rparr>"
  have "comp_ok v0 g ids a H l (comp_of ?t)" using assms True by (simp add: in_step_def comp_of_def)
  then have "in_step base v0 g ids a H i ?t l k" using assms by (simp add: in_step_def in_doc_def history_ops_def posted_def)
  moreover have "onCompositionEnd s = emit (Arm CompositionCommit 0) ?t" using True by (simp add: onCompositionEnd_def)
  ultimately show ?thesis using in_step_core [of "emit (Arm CompositionCommit 0) ?t" ?t] by simp
next
  case False
  then show ?thesis using assms by (simp add: onCompositionEnd_def)
qed

section \<open>Undo and redo\<close>

lemma inverse_in_step:
  assumes st: "in_step base v0 g ids a H i s l k" and au: "authors ids a i" and ops: "set ops \<subseteq> set l"
    and c: "localClock s + length ops \<le> max_exact" and inv: "inverseOps ops s = (ys, s1)"
  shows "in_step base v0 g ids a H i s1 l k \<and> delivered crdt_ready l ys \<and> list_all (own_op (ids i)) ys \<and>
    undoStack s1 = undoStack s \<and> redoStack s1 = redoStack s"
proof -
  have v: "get_item (the_doc s) = log_item l" "clocks_le (the_doc s) (localClock s)" and dl: "delivered crdt_ready [] l"
    and cid: "CLIENT_ID s = ids i"
    using st by (simp_all add: in_step_def in_doc_def have_log_def)
  obtain c' where s1: "s1 = s\<lparr>localClock := c'\<rparr>" "inverse_loop (the_doc s) (ids i) (rev ops) (localClock s) = (ys, c')"
    using inv cid by (auto simp: inverseOps_def split: prod.splits)
  have site: "ids i \<noteq> []" "colon \<notin> set (ids i)" using author_site [OF au] by simp_all
  have cl: "\<forall>y\<in>set l. is_ins y \<longrightarrow> id_clock (op_id y) \<le> localClock s"
  proof (intro ballI impI)
    fix y assume "y \<in> set l" "is_ins y"
    then have "get_item (the_doc s) (op_id y) \<noteq> None" unfolding v(1) log_item_known by (auto simp: list_ex_iff)
    then show "id_clock (op_id y) \<le> localClock s" using v(2) by (simp add: clocks_le_def doc_ids_get_item)
  qed
  have m: "localClock s \<le> c' \<and> c' \<le> localClock s + length ops \<and> list_all (own_op (ids i)) ys \<and> list_all (makeable l) ys \<and>
      map op_id (filter is_ins ys) = map (formatID (ids i)) [Suc (localClock s)..<Suc c']"
    using inverse_made [OF v(1) dl site _ cl _ s1(2)] ops c by simp
  have "inj_on (formatID (ids i)) {Suc (localClock s)..<Suc c'}"
    using m c formatID_inj [OF _ _ _ _ site] by (intro inj_onI) auto
  then have "distinct (map (formatID (ids i)) [Suc (localClock s)..<Suc c'])"
    by (simp only: distinct_map distinct_upt set_upt simp_thms)
  then have "delivered crdt_ready l ys" using m by (intro makeable_delivered) (simp_all only:)
  moreover have "in_step base v0 g ids a H i s1 l k"
  proof -
    have "clocks_le (the_doc s) c'" using v(2) m by (auto simp: clocks_le_def)
    then show ?thesis using st by (simp add: s1(1) in_step_def in_doc_def history_ops_def)
  qed
  ultimately show ?thesis using m by (simp add: s1(1))
qed

lemma applyOpsLocal_in_step:
  assumes st: "in_step base v0 g ids a H i s l k" and au: "authors ids a i"
    and ops: "delivered crdt_ready l ops" "list_all (own_op (ids i)) ops" "ops \<noteq> []"
  shows "\<exists>t. applyOpsLocal ops s = (True, t) \<and> in_step base v0 g ids a H i t (l @ ops) k \<and>
    undoStack t = undoStack s \<and> redoStack t = redoStack s"
proof -
  have dl: "delivered crdt_ready [] l" "in_doc s l" using st by (simp_all add: in_step_def have_log_def)
  let ?s = "bumpClockFromDoc s"
  have "in_doc ?s l" using dl(2) bump_clocks [of s] by (simp add: in_doc_def bump_core)
  from applied_in_doc [OF this dl(1) ops(1,3)] obtain d' r where d': "applyBatch (the_doc s) ops = (d', BatchOk r)"
    "canonical_doc d'" "get_item d' = log_item (l @ ops)"
    "\<And>m. localClock ?s \<le> m \<Longrightarrow> \<forall>x\<in>set ops. id_clock (op_id x) \<le> m \<Longrightarrow> clocks_le d' m"
    by (auto simp: bump_core)
  let ?w = "bumpClockFromOps ops (?s\<lparr>the_doc := d'\<rparr>)"
  have cl: "clocks_le d' (localClock ?w)"
    using bump_ops_clock [of "?s\<lparr>the_doc := d'\<rparr>" ops] delivered_ids [OF ops(1)] by (intro d'(4)) simp_all
  let ?t = "scheduleFlush (?w\<lparr>pendingOps := pendingOps ?w @ ops\<rparr>)"
  have t: "applyOpsLocal ops s = (True, ?t)"
    using ops(3) d'(1) by (simp add: applyOpsLocal_def Let_def bump_core batch_ok_def)
  have "in_step base v0 g ids a H i ?t (l @ ops) k"
    by (rule in_step_local [OF st au ops(1,2)])
       (use d'(2,3) cl in \<open>simp_all add: in_doc_def bump_core same_link_def history_ops_def\<close>)
  with t show ?thesis by (simp add: bump_core)
qed

lemma after_history_core [simp]: "core (after_history_step old s) = core s"
  by (simp add: after_history_step_def Let_def)

text \<open>Both walk the same path: the last entry of one stack is inverted, applied, and joins the other.\<close>

lemma stack_step:
  assumes st: "in_step base v0 g ids a H i s l k" and au: "authors ids a i"
    and e: "set (ue_ops entry) \<subseteq> set l" "localClock s + length (ue_ops entry) \<le> max_exact"
    and inv: "inverseOps (ue_ops entry) s = (ops, s1)" "ops \<noteq> []"
  shows "\<exists>t. applyOpsLocal ops s1 = (True, t) \<and> in_step base v0 g ids a H i t (l @ ops) k \<and>
    undoStack t = undoStack s \<and> redoStack t = redoStack s"
  using inverse_in_step [OF st au e inv(1)] applyOpsLocal_in_step [OF _ au _ _ inv(2)] by metis

lemma in_step_stacks:
  assumes st: "in_step base v0 g ids a H i s l k" and t: "t = s\<lparr>undoStack := u, redoStack := r\<rparr>"
    and h: "history_ops t \<subseteq> set l"
  shows "in_step base v0 g ids a H i t l k"
  using st h by (simp add: t in_step_def in_doc_def)

lemma invert_in_step:
  assumes st: "in_step base v0 g ids a H i s l k" and au: "authors ids a i"
    and e: "set (ue_ops entry) \<subseteq> set l" "localClock s + length (ue_ops entry) \<le> max_exact"
    and inv: "inverseOps (ue_ops entry) s = (ops, s1)"
    and push: "\<And>t. push t = t\<lparr>undoStack := undoStack t @ u, redoStack := redoStack t @ r\<rparr>"
      "\<forall>x\<in>set (u @ r). ue_ops x = ops"
  shows "\<exists>l'. in_step base v0 g ids a H i (if ops = [] then updateUndoButtons s1
    else case applyOpsLocal ops s1 of (ok, s2) \<Rightarrow> if \<not> ok then back s2 else after_history_step old (push s2)) l' k"
proof (cases "ops = []")
  case True
  have "in_step base v0 g ids a H i (updateUndoButtons s1) l k"
    using inverse_in_step [OF st au e inv] in_step_core [of "updateUndoButtons s1" s1] by simp
  then show ?thesis using True by auto
next
  case False
  obtain t where t: "applyOpsLocal ops s1 = (True, t)" "in_step base v0 g ids a H i t (l @ ops) k"
    using stack_step [OF st au e inv False] by blast
  have "history_ops (push t) \<subseteq> set (l @ ops)" using t(2) push(2) by (auto simp: push(1) in_step_def history_ops_def)
  then have "in_step base v0 g ids a H i (push t) (l @ ops) k" by (rule in_step_stacks [OF t(2) push(1)])
  then have "in_step base v0 g ids a H i (after_history_step old (push t)) (l @ ops) k"
    using in_step_core [OF after_history_core] by simp
  then show ?thesis using False t(1) by auto
qed

lemma undo_in_step:
  assumes st: "in_step base v0 g ids a H i s l k" and au: "authors ids a i"
    and c: "undoStack s \<noteq> [] \<Longrightarrow> localClock s + length (ue_ops (last (undoStack s))) \<le> max_exact"
  shows "\<exists>l'. in_step base v0 g ids a H i (undo now s) l' k"
proof (cases "fst (blockWhenReadOnly s) \<or> undoStack s = []")
  case True
  have "core (undo now s) = core s" using True core_blockWhenReadOnly [of s]
    by (auto simp: undo_def blockWhenReadOnly_def split: if_splits)
  then show ?thesis using st in_step_core by metis
next
  case False
  then have b: "blockWhenReadOnly s = (False, s)" by (auto simp: blockWhenReadOnly_def split: if_splits)
  let ?e = "last (undoStack s)" let ?s = "s\<lparr>undoStack := butlast (undoStack s)\<rparr>" let ?n = "\<lambda>ops. \<lparr>ue_ops = ops, ue_at = now\<rparr>"
  have h: "history_ops s \<subseteq> set l" using st by (simp add: in_step_def)
  have e: "set (ue_ops ?e) \<subseteq> set l" using h False by (fastforce simp: history_ops_def)
  have "history_ops ?s \<subseteq> set l" using h by (force simp: history_ops_def dest: in_set_butlastD)
  then have s: "in_step base v0 g ids a H i ?s l k"
    by (rule in_step_stacks [OF st, where u = "butlast (undoStack s)" and r = "redoStack s", rotated]) simp
  obtain ops s1 where inv: "inverseOps (ue_ops ?e) ?s = (ops, s1)" by force
  have m: "localClock ?s + length (ue_ops ?e) \<le> max_exact" using c False by simp
  have "undo now s = (if ops = [] then updateUndoButtons s1
      else case applyOpsLocal ops s1 of (ok, s2) \<Rightarrow> if \<not> ok then s2\<lparr>undoStack := undoStack s2 @ [?e]\<rparr>
        else after_history_step (materialize (the_doc s1)) (s2\<lparr>redoStack := redoStack s2 @ [?n ops]\<rparr>))"
    using False by (simp add: undo_def b inv Let_def)
  moreover have "\<exists>l'. in_step base v0 g ids a H i (if ops = [] then updateUndoButtons s1
      else case applyOpsLocal ops s1 of (ok, s2) \<Rightarrow> if \<not> ok then (\<lambda>t. t\<lparr>undoStack := undoStack t @ [?e]\<rparr>) s2
        else after_history_step (materialize (the_doc s1)) ((\<lambda>t. t\<lparr>redoStack := redoStack t @ [?n ops]\<rparr>) s2)) l' k"
    by (rule invert_in_step [OF s au e m inv, where u = "[]" and r = "[?n ops]"]) simp_all
  ultimately show ?thesis by simp
qed

lemma redo_in_step:
  assumes st: "in_step base v0 g ids a H i s l k" and au: "authors ids a i"
    and c: "redoStack s \<noteq> [] \<Longrightarrow> localClock s + length (ue_ops (last (redoStack s))) \<le> max_exact"
  shows "\<exists>l'. in_step base v0 g ids a H i (redo now s) l' k"
proof (cases "fst (blockWhenReadOnly s) \<or> redoStack s = []")
  case True
  have "core (redo now s) = core s" using True core_blockWhenReadOnly [of s]
    by (auto simp: redo_def blockWhenReadOnly_def split: if_splits)
  then show ?thesis using st in_step_core by metis
next
  case False
  then have b: "blockWhenReadOnly s = (False, s)" by (auto simp: blockWhenReadOnly_def split: if_splits)
  let ?e = "last (redoStack s)" let ?s = "s\<lparr>redoStack := butlast (redoStack s)\<rparr>" let ?n = "\<lambda>ops. \<lparr>ue_ops = ops, ue_at = now\<rparr>"
  have h: "history_ops s \<subseteq> set l" using st by (simp add: in_step_def)
  have e: "set (ue_ops ?e) \<subseteq> set l" using h False by (fastforce simp: history_ops_def)
  have "history_ops ?s \<subseteq> set l" using h by (force simp: history_ops_def dest: in_set_butlastD)
  then have s: "in_step base v0 g ids a H i ?s l k"
    by (rule in_step_stacks [OF st, where u = "undoStack s" and r = "butlast (redoStack s)", rotated]) simp
  obtain ops s1 where inv: "inverseOps (ue_ops ?e) ?s = (ops, s1)" by force
  have m: "localClock ?s + length (ue_ops ?e) \<le> max_exact" using c False by simp
  have "redo now s = (if ops = [] then updateUndoButtons s1
      else case applyOpsLocal ops s1 of (ok, s2) \<Rightarrow> if \<not> ok then s2\<lparr>redoStack := redoStack s2 @ [?e]\<rparr>
        else after_history_step (materialize (the_doc s1)) (s2\<lparr>undoStack := undoStack s2 @ [?n ops]\<rparr>))"
    using False by (simp add: redo_def b inv Let_def)
  moreover have "\<exists>l'. in_step base v0 g ids a H i (if ops = [] then updateUndoButtons s1
      else case applyOpsLocal ops s1 of (ok, s2) \<Rightarrow> if \<not> ok then (\<lambda>t. t\<lparr>redoStack := redoStack t @ [?e]\<rparr>) s2
        else after_history_step (materialize (the_doc s1)) ((\<lambda>t. t\<lparr>undoStack := undoStack t @ [?n ops]\<rparr>) s2)) l' k"
    by (rule invert_in_step [OF s au e m inv, where u = "[?n ops]" and r = "[]"]) simp_all
  ultimately show ?thesis by simp
qed

end
