(* ===== verification/RoomMessages.thy ===== *)
theory RoomMessages
  imports RoomEdits
begin

text \<open>
  Flushes and messages in a room, handler by handler: a posted batch, the broadcast of an entry of the log, the
  acknowledgement of one, a snapshot of the room, and a closed socket leave the client in step.
\<close>

lemma in_step_change:
  assumes st: "in_step base v0 g ids a H i s l k"
    and t: "the_doc t = the_doc s" "localClock t = localClock s" "undoStack t = undoStack s" "redoStack t = redoStack s"
      "knownGeneration t = knownGeneration s" "knownExists t" "CLIENT_ID t = CLIENT_ID s"
      "comp_of t = comp_of s" "knownVersion t = v0 + k'"
      "have_log base ids a i (pendingOps t) l k'" "behind base ids a H i (pendingOps t) l k'" "have_sent ids a i (posted t) (nextSeq t) (sentBatches t) l"
  shows "in_step base v0 g ids a H i t l k'"
  using st by (simp add: in_step_def in_doc_def history_ops_def t)

section \<open>Sending\<close>

lemma alist_put_sub: "set (alist_put q b bs) \<subseteq> insert (q, b) (set bs)"
  by (induction bs) (auto split: if_splits)

lemma flush_in_step:
  assumes st: "in_step base v0 g ids a H i s l k"
  shows "in_step base v0 g ids a H i (flushPending now s) l k"
proof (cases "readTTLSeconds s \<noteq> 0 \<and> ws_connected s \<and> socket_open s \<and> \<not> (unsent s = [] \<and> pendingOps s \<noteq> [])")
  case False
  have "core (flushPending now s) = core s" using False by (auto simp: flushPending_def Let_def)
  then show ?thesis using st in_step_core by metis
next
  case True
  have l: "have_log base ids a i (pendingOps s) l k"
    and p: "have_sent ids a i (posted s) (nextSeq s) (sentBatches s) l" using st by (simp_all add: in_step_def)
  define batch where "batch = (if maxOpsPerSend < length (unsent s) then take maxOpsPerSend (unsent s) else unsent s)"
  define t where "t = s\<lparr>nextSeq := nextSeq s + 1, sentBatches := if batch \<noteq> []
    then alist_put (nextSeq s) \<lparr>sb_ids = remdups (map opKey batch), sb_at = now\<rparr> (sentBatches s) else sentBatches s,
    out := out s @ [Send (WsOps batch (readTTLSeconds s) (nextSeq s) (roomPassword s)), PulseTraffic Up]\<rparr>"
  define w where "w = (let s1 = emit (PulseTraffic Up) (emit (Send (WsOps batch (readTTLSeconds s) (nextSeq s) (roomPassword s)))
      (s\<lparr>nextSeq := nextSeq s + 1\<rparr>)) in if batch \<noteq> [] then s1\<lparr>sentBatches := alist_put (nextSeq s)
        \<lparr>sb_ids = remdups (map opKey batch), sb_at = now\<rparr> (sentBatches s1)\<rparr> else s1)"
  have "\<not> readTTLSeconds s = 0" "ws_connected s \<and> socket_open s" "\<not> (unsent s = [] \<and> pendingOps s \<noteq> [])"
    using True by simp_all
  then have "flushPending now s = (if maxOpsPerSend < length (unsent s) then scheduleFlush w else w)"
    unfolding flushPending_def Let_def w_def batch_def [symmetric] by (simp only: if_False if_True simp_thms)
  moreover have "core w = core t"
    by (cases "batch = []") (simp_all add: core_def w_def t_def Let_def posted_def emit_def)
  ultimately have f: "core (flushPending now s) = core t" by simp
  have sub: "set batch \<subseteq> set (pendingOps s)"
    by (auto simp: batch_def unsent_def dest: in_set_takeD split: if_splits)
  have "have_sent ids a i (posted s @ [(nextSeq s, batch)]) (Suc (nextSeq s)) (sentBatches t) l"
  proof (rule have_sent_post [OF p, where b = "\<lparr>sb_ids = remdups (map opKey batch), sb_at = now\<rparr>"])
    show "set batch \<subseteq> set l" "list_all (own_op (ids i)) batch"
      using l sub by (auto simp: have_log_def list_all_iff)
    show "set (sentBatches t) \<subseteq> insert (nextSeq s, \<lparr>sb_ids = remdups (map opKey batch), sb_at = now\<rparr>) (set (sentBatches s))"
      using alist_put_sub [of "nextSeq s" "\<lparr>sb_ids = remdups (map opKey batch), sb_at = now\<rparr>" "sentBatches s"]
      by (simp add: t_def subset_insertI)
  qed simp
  then have "in_step base v0 g ids a H i t l k"
    using st l by (intro in_step_change [OF st]) (simp_all add: t_def posted_def in_step_def)
  then show ?thesis using in_step_core [OF f] by simp
qed

section \<open>Messages about the log\<close>

lemma generation_fields:
  assumes "of_generation g v m"
  shows "hasGeneration m" "messageGeneration m = g" "messageExists m" "or_zero (m_version m) = v" "m_exists m \<noteq> Some False"
  using assms by (simp_all add: of_generation_def hasGeneration_def messageGeneration_def messageExists_def)

text \<open>The acknowledgement of entry \<open>j\<close>.\<close>

definition ack_frame :: "nat \<Rightarrow> nat \<Rightarrow> entry list \<Rightarrow> nat \<Rightarrow> msg \<Rightarrow> bool" where
  [js_eval]: "ack_frame v0 g a j m \<longleftrightarrow> j < length a \<and> m_type m = js ''ack'' \<and> of_generation g (v0 + j + 1) m \<and>
     m_seq m = Some (fst (snd (a ! j))) \<and> or_empty (m_error m) = []"

text \<open>A snapshot of the room as it is: it describes the document of the whole log.\<close>

definition snapshot_frame :: "crdt_op list \<Rightarrow> nat \<Rightarrow> nat \<Rightarrow> entry list \<Rightarrow> jsstring \<Rightarrow> msg \<Rightarrow> bool" where
  "snapshot_frame base v0 g a cid m \<longleftrightarrow> (m_type m = js ''state'' \<or> m_type m = js ''update'') \<and>
     of_generation g (v0 + length a) m \<and> \<not> m_passwordRequired m \<and> canonical_doc (snapshot_doc cid m) \<and>
     get_item (snapshot_doc cid m) = log_item (log_of base a)"

text \<open>Dropping pending operations that have the key of an accepted one of the client's.\<close>

lemma acked_in_batch:
  assumes l: "have_log base ids a i p l k" and e: "set ops \<subseteq> set l" "list_all (own_op (ids i)) ops"
    and keys: "set ks \<subseteq> opKey ` set ops" and x: "x \<in> set p" "opKey x \<in> set ks"
  shows "x \<in> set ops"
proof -
  have kinds: "is_ins x \<or> is_del x" if "x \<in> set l" for x
    using delivered_kinds [of "[]" l x] that l by (simp add: have_log_def)
  obtain y where y: "y \<in> set ops" "opKey x = opKey y" using x(2) keys by auto
  have "x \<in> set l" "y \<in> set l" "own_op (ids i) x" "own_op (ids i) y"
    using l x(1) y(1) e by (auto simp: have_log_def list_all_iff)
  then have "x = y" using key_same [OF have_log_ok [OF l] _ _ _ _ y(2)] kinds by blast
  then show ?thesis using y(1) by simp
qed

lemma drop_acked_rest:
  assumes "have_log base ids a i p l k" "set ops \<subseteq> set l" "list_all (own_op (ids i)) ops"
    and "set ks \<subseteq> opKey ` set ops" "set ops \<subseteq> set (log_of base a)"
    and "behind base ids a H i p l k" "\<forall>h\<in>H. set ops \<subseteq> set (log_of base (take h a))"
  shows "set p \<subseteq> set (drop_acked ks p) \<union> set (log_of base a)" "have_log base ids a i (drop_acked ks p) l k"
    "behind base ids a H i (drop_acked ks p) l k"
proof -
  note gone = acked_in_batch [OF assms(1-4)]
  show "set p \<subseteq> set (drop_acked ks p) \<union> set (log_of base a)" using gone assms(5) by (auto simp: drop_acked_def)
  show "have_log base ids a i (drop_acked ks p) l k"
    unfolding drop_acked_def using gone assms(5) by (intro have_log_drop [OF assms(1)]) auto
  show "behind base ids a H i (drop_acked ks p) l k"
    unfolding drop_acked_def using gone assms(7) by (intro behind_drop [OF assms(6)]) blast
qed

text \<open>An entry is in every log of a later moment.\<close>

lemma entry_before: "\<lbrakk>k < length a; \<forall>h\<in>H. k < h\<rbrakk> \<Longrightarrow> \<forall>h\<in>H. set (entry_ops (a ! k)) \<subseteq> set (log_of base (take h a))"
proof
  fix h assume "k < length a" "\<forall>h\<in>H. k < h" "h \<in> H"
  then show "set (entry_ops (a ! k)) \<subseteq> set (log_of base (take h a))" using entry_in_log [of k "take h a" base] by simp
qed

lemma bump_queue [simp]:
  "compositionBaseText (bumpClockFromDoc s) = compositionBaseText s"
  "deferredContentMessages (bumpClockFromDoc s) = deferredContentMessages s"
  by (simp_all add: bumpClockFromDoc_def Let_def)

lemma note_version_fields [simp]:
  "the_doc (note_version m s) = the_doc s" "localClock (note_version m s) = localClock s"
  "undoStack (note_version m s) = undoStack s" "redoStack (note_version m s) = redoStack s"
  "CLIENT_ID (note_version m s) = CLIENT_ID s" "comp_of (note_version m s) = comp_of s"
  "pendingOps (note_version m s) = pendingOps s" "posted (note_version m s) = posted s"
  "nextSeq (note_version m s) = nextSeq s" "sentBatches (note_version m s) = sentBatches s"
  "knownVersion (note_version m s) = or_zero (m_version m)" "knownExists (note_version m s)"
  "knownGeneration (note_version m s) = (if hasGeneration m then messageGeneration m else knownGeneration s)"
  by (simp_all add: note_version_def Let_def)

lemma forget_sub: "\<forall>(q, b)\<in>set (sentBatches (forgetSentIds ks s)).
    \<exists>b'. (q, b') \<in> set (sentBatches s) \<and> set (sb_ids b) \<subseteq> set (sb_ids b')"
  by (force simp: forgetSentIds_def)

lemma echo_in_step:
  assumes st: "in_step base v0 g ids a H i s l k" and au: "authors ids a i" and m: "ops_frame v0 g ids a k m" and own: "fst (a ! k) = i"
    and later: "\<forall>h\<in>H. k < h"
  shows "in_step base v0 g ids a H i (handle_echo m s) l (Suc k) \<and> comp_of (handle_echo m s) = comp_of s \<and>
    set (pendingOps (handle_echo m s)) \<subseteq> set (pendingOps s) \<and>
    set (pendingOps s) \<subseteq> set (pendingOps (handle_echo m s)) \<union> set (log_of base a)"
proof -
  have k: "k < length a" and g: "of_generation g (v0 + k + 1) m" and ops: "m_ops m = Some (entry_ops (a ! k))"
    using m by (simp_all add: ops_frame_def)
  have l: "have_log base ids a i (pendingOps s) l k"
    and p: "have_sent ids a i (posted s) (nextSeq s) (sentBatches s) l" using st by (simp_all add: in_step_def)
  let ?ks = "keys_of (entry_ops (a ! k))"
  have e: "set (entry_ops (a ! k)) \<subseteq> set (log_of base a)" "set (entry_ops (a ! k)) \<subseteq> set l"
    "list_all (own_op (ids i)) (entry_ops (a ! k))" "set ?ks \<subseteq> opKey ` set (entry_ops (a ! k))"
    using entry_in_log [OF k] own_in_log [OF p nth_mem [OF k] own] au own nth_mem [OF k]
    by (auto simp: authors_def keys_of_def)
  have b: "behind base ids a H i (pendingOps s) l k" using st by (simp add: in_step_def)
  note rest = drop_acked_rest [OF have_log_own [OF l p k own] e(2-4,1) behind_own [OF b p k own] entry_before [OF k later]]
  note le = rest(2,3)
  let ?u = "(note_version m s)\<lparr>pendingOps := if ?ks \<noteq> [] then drop_acked ?ks (pendingOps s) else pendingOps s,
    sentBatches := if ?ks \<noteq> [] then sentBatches (forgetSentIds ?ks s) else sentBatches s,
    lastSyncedText := case m_content m of Some c \<Rightarrow> c | None \<Rightarrow> lastSyncedText s\<rparr>"
  have "drop_acked [] ops = ops" for ops by (induction ops) (simp_all add: drop_acked_def)
  then have le: "have_log base ids a i (pendingOps ?u) l (Suc k)" "behind base ids a H i (pendingOps ?u) l (Suc k)"
    using le by (cases "?ks = []"; simp)+
  then have "in_step base v0 g ids a H i ?u l (Suc k)"
    using le have_sent_fewer [OF p forget_sub] p generation_fields [OF g] st
    by (intro in_step_change [OF st]) (simp_all add: in_step_def)
  moreover have "core (handle_echo m s) = core ?u"
  proof -
    define s2 where "s2 = (case m_content m of Some c \<Rightarrow> (updateMeta m (note_version m s))\<lparr>lastSyncedText := c\<rparr>
      | None \<Rightarrow> updateMeta m (note_version m s))"
    define s3 where "s3 = (if ?ks \<noteq> [] then forgetSentIds ?ks (s2\<lparr>pendingOps := drop_acked ?ks (pendingOps s2)\<rparr>) else s2)"
    have "core (handle_echo m s) = core s3"
      unfolding handle_echo_def Let_def ops option.case s2_def [symmetric] s3_def [symmetric] by simp
    also have "core s3 = core ?u"
      by (cases "m_content m"; cases "?ks = []") (simp_all add: s3_def s2_def core_def forgetSentIds_def note_version_def Let_def)
    finally show ?thesis .
  qed
  moreover have "set (pendingOps ?u) \<subseteq> set (pendingOps s)" by (auto simp: drop_acked_def)
  moreover have "set (pendingOps s) \<subseteq> set (pendingOps ?u) \<union> set (log_of base a)" using rest(1) by simp
  moreover have "comp_of ?u = comp_of s" by simp
  ultimately show ?thesis
    using in_step_core [of "handle_echo m s" ?u] core_frame(4) [of "handle_echo m s" ?u] comp_core [of "handle_echo m s" ?u]
    by metis
qed

lemma foreign_in_step:
  assumes st: "in_step base v0 g ids a H i s l k" and au: "authors ids a i" and la: "delivered crdt_ready [] (log_of base a)"
    and m: "ops_frame v0 g ids a k m" and other: "fst (a ! k) \<noteq> i" and nc: "\<not> compositionIsActive s"
    and later: "\<forall>h\<in>H. k < h"
  shows "in_step base v0 g ids a H i (handleRemoteOps now m s) (l @ entry_ops (a ! k)) (Suc k) \<and>
    comp_of (handleRemoteOps now m s) = comp_of s \<and> pendingOps (handleRemoteOps now m s) = pendingOps s"
proof -
  let ?ops = "entry_ops (a ! k)"
  have k: "k < length a" and mg: "of_generation g (v0 + k + 1) m" and ops: "m_ops m = Some ?ops"
    and upd: "m_updatedBy m = Some (ids (fst (a ! k)))" using m by (simp_all add: ops_frame_def)
  note g = generation_fields [OF mg]
  have s: "knownVersion s = v0 + k" "knownGeneration s = g" "knownExists s" "CLIENT_ID s = ids i"
    "in_doc s l" and l: "have_log base ids a i (pendingOps s) l k" using st by (simp_all add: in_step_def)
  have self: "ids (fst (a ! k)) \<noteq> CLIENT_ID s" using au other s(4) nth_mem [OF k] by (auto simp: authors_def)
  have ne: "?ops \<noteq> []" using au nth_mem [OF k] by (simp add: authors_def)
  have hl: "have_log base ids a i (pendingOps s) (l @ ?ops) (Suc k)" by (rule have_log_foreign [OF au la l k other])
  then have d: "delivered crdt_ready [] l" "delivered crdt_ready l ?ops" by (simp_all add: have_log_def delivered_append)
  from applied_in_doc [OF s(5) d ne] obtain d' r where d': "applyBatch (the_doc s) ?ops = (d', BatchOk r)"
    "canonical_doc d'" "get_item d' = log_item (l @ ?ops)"
    "\<And>m. localClock s \<le> m \<Longrightarrow> \<forall>x\<in>set ?ops. id_clock (op_id x) \<le> m \<Longrightarrow> clocks_le d' m" by auto
  let ?w = "bumpClockFromOps ?ops (s\<lparr>the_doc := d'\<rparr>)"
  let ?u = "note_version m (case m_content m of Some c \<Rightarrow> ?w\<lparr>lastSyncedText := c\<rparr> | None \<Rightarrow> ?w)"
  have cl: "clocks_le d' (localClock ?w)"
    using bump_ops_clock [of "s\<lparr>the_doc := d'\<rparr>" ?ops] delivered_ids [OF d(2)] by (intro d'(4)) simp_all
  have "core (handleRemoteOps now m s) = core (updateMeta m ?u)"
    using s nc g self ops upd author_site [OF au] ne d'(1) by (simp add: handleRemoteOps_def Let_def batch_ok_def)
  then have c: "core (handleRemoteOps now m s) = core ?u" by simp
  have wu: "the_doc ?u = d'" "localClock ?u = localClock ?w" "undoStack ?u = undoStack s" "redoStack ?u = redoStack s"
    "CLIENT_ID ?u = CLIENT_ID s" "comp_of ?u = comp_of s" "pendingOps ?u = pendingOps s"
    "posted ?u = posted s" "nextSeq ?u = nextSeq s" "sentBatches ?u = sentBatches s"
    by (simp_all add: bump_core split: option.splits)
  have "in_step base v0 g ids a H i ?u (l @ ?ops) (Suc k)"
    using st hl d'(2,3) cl g wu behind_foreign [OF _ au la k other] have_sent_mono [of ids a i "posted s" "nextSeq s" "sentBatches s" l "l @ ?ops"]
      comp_ok_mono [of v0 g ids a H l "comp_of s" "l @ ?ops"]
    by (auto simp: in_step_def in_doc_def history_ops_def)
  then show ?thesis using in_step_core [OF c] core_frame(4) [OF c] comp_core [OF c] wu(6,7) by simp
qed

text \<open>Only the entry after the ones it knows changes the client; it never has more pending after a broadcast.\<close>

lemma remote_in_step:
  assumes st: "in_step base v0 g ids a H i s l k" and au: "authors ids a i" and la: "delivered crdt_ready [] (log_of base a)"
    and m: "ops_frame v0 g ids a j m" and nc: "\<not> compositionIsActive s" and later: "\<forall>h\<in>H. j < h"
  shows "\<exists>l' k'. in_step base v0 g ids a H i (handleRemoteOps now m s) l' k' \<and> (j = k \<longrightarrow> k' = Suc k) \<and>
    comp_of (handleRemoteOps now m s) = comp_of s \<and>
    set (pendingOps (handleRemoteOps now m s)) \<subseteq> set (pendingOps s) \<and>
    set (pendingOps s) \<subseteq> set (pendingOps (handleRemoteOps now m s)) \<union> set (log_of base a)"
proof (cases "j = k")
  case False
  have "of_generation g (v0 + j + 1) m" using m by (simp add: ops_frame_def)
  then have "core (handleRemoteOps now m s) = core s"
    using st nc False generation_fields [of g "v0 + j + 1" m] by (cases "j < k") (simp_all add: in_step_def handleRemoteOps_def Let_def)
  from in_step_core [OF this] core_frame(4) [OF this] comp_core [OF this] st False show ?thesis
    by (intro exI [of _ l] exI [of _ k]) simp
next
  case True
  then have m: "ops_frame v0 g ids a k m" and later: "\<forall>h\<in>H. k < h" using m later by simp_all
  show ?thesis
  proof (cases "fst (a ! k) = i")
    case own: True
    have "of_generation g (v0 + k + 1) m" "m_updatedBy m = Some (ids i)" using m own by (simp_all add: ops_frame_def)
    then have "handleRemoteOps now m s = handle_echo m s"
      using st nc generation_fields [of g "v0 + k + 1" m] author_site [OF au] by (simp add: in_step_def handleRemoteOps_def Let_def)
    then show ?thesis using echo_in_step [OF st au m own later] by (intro exI [of _ l] exI [of _ "Suc k"]) simp
  next
    case False
    from foreign_in_step [OF st au la m False nc later, of now] show ?thesis
      by (intro exI [of _ "l @ entry_ops (a ! k)"] exI [of _ "Suc k"]) simp
  qed
qed

text \<open>The pending operations once those of the entry \<open>e\<close>, an own one of the log, were acknowledged.\<close>

lemma have_log_ack:
  assumes l: "have_log base ids a i (pendingOps s) l k" and au: "authors ids a i"
    and p: "have_sent ids a i (posted s) (nextSeq s) (sentBatches s) l"
    and j: "j < length a" "fst (a ! j) = i" and b: "map_of (sentBatches s) (fst (snd (a ! j))) = Some b"
    and bh: "behind base ids a H i (pendingOps s) l k" and later: "\<forall>h\<in>H. j < h"
  shows "have_log base ids a i (drop_acked (sb_ids b) (pendingOps s)) l k \<and>
    behind base ids a H i (drop_acked (sb_ids b) (pendingOps s)) l k"
proof -
  let ?q = "fst (snd (a ! j))"
  have "(?q, b) \<in> set (sentBatches s)" using b by (rule map_of_SomeD)
  then obtain ops where ops: "(?q, ops) \<in> set (posted s)" "set (sb_ids b) \<subseteq> opKey ` set ops"
    using p unfolding have_sent_def by fastforce
  have "snd (a ! j) \<in> set (posted s)" using p j(2) nth_mem [OF j(1)] by (simp add: have_sent_def)
  then have e: "(?q, entry_ops (a ! j)) \<in> set (posted s)" by (simp add: entry_ops_def)
  have "distinct (map fst (posted s))" using p by (simp add: have_sent_def)
  then have "ops = entry_ops (a ! j)" using ops(1) e by (rule eq_key_imp_eq_value)
  then show ?thesis
    using ops(2) au j(2) nth_mem [OF j(1)] entry_in_log [OF j(1)] own_in_log [OF p nth_mem [OF j(1)] j(2)]
    by (intro conjI drop_acked_rest(2,3) [OF l _ _ _ _ bh entry_before [OF j(1) later]]) (auto simp: authors_def)
qed

lemma ack_in_step:
  assumes st: "in_step base v0 g ids a H i s l k" and au: "authors ids a i" and m: "ack_frame v0 g a j m" and own: "fst (a ! j) = i"
    and later: "\<forall>h\<in>H. j < h"
  shows "\<exists>k'. in_step base v0 g ids a H i (handleAck m s) l k' \<and> comp_of (handleAck m s) = comp_of s"
proof -
  have j: "j < length a" and g: "of_generation g (v0 + j + 1) m" and sq: "or_zero (m_seq m) = fst (snd (a ! j))"
    and er: "or_empty (m_error m) = []" using m by (simp_all add: ack_frame_def)
  note g = generation_fields [OF g]
  have s: "knownVersion s = v0 + k" "knownGeneration s = g" "knownExists s"
    and l: "have_log base ids a i (pendingOps s) l k"
    and p: "have_sent ids a i (posted s) (nextSeq s) (sentBatches s) l" using st by (simp_all add: in_step_def)
  let ?q = "fst (snd (a ! j))" and ?k = "if j = k then Suc k else k"
  define u where "u = (case map_of (sentBatches s) ?q of
      Some b \<Rightarrow> (ack_batch ?q s)\<lparr>pendingOps := drop_acked (sb_ids b) (pendingOps s)\<rparr> | None \<Rightarrow> s)"
  have bh: "behind base ids a H i (pendingOps s) l k" using st by (simp add: in_step_def)
  have hl: "have_log base ids a i (pendingOps s) l ?k" "behind base ids a H i (pendingOps s) l ?k"
    using l bh have_log_own [OF l p] behind_own [OF bh p] j own by auto
  have hlu: "have_log base ids a i (pendingOps u) l ?k" "behind base ids a H i (pendingOps u) l ?k"
    using hl have_log_ack [OF hl(1) au p j own _ hl(2) later] by (cases "map_of (sentBatches s) ?q"; simp add: u_def)+
  let ?t = "u\<lparr>knownGeneration := g, knownExists := True, knownVersion := v0 + ?k\<rparr>"
  have uf: "the_doc u = the_doc s" "localClock u = localClock s" "undoStack u = undoStack s" "redoStack u = redoStack s"
    "CLIENT_ID u = CLIENT_ID s" "comp_of u = comp_of s" "posted u = posted s" "nextSeq u = nextSeq s"
    "set (sentBatches u) \<subseteq> set (sentBatches s)" "knownVersion u = knownVersion s" "knownGeneration u = knownGeneration s"
    by (auto simp: u_def ack_batch_def split: option.splits)
  have "have_sent ids a i (posted u) (nextSeq u) (sentBatches u) l"
    using have_sent_fewer [OF p, of "sentBatches u"] uf by auto
  then have "in_step base v0 g ids a H i ?t l ?k"
    using hlu s(2) uf by (intro in_step_change [OF st]) simp_all
  moreover have "core (handleAck m s) = core ?t"
  proof -
    have "handleAck m s = ack_accepted m u"
      unfolding handleAck_def Let_def sq er u_def by (simp add: js_def)
    moreover have "core (ack_accepted m u) = core ?t"
      using g s uf by (auto simp: ack_accepted_def Let_def core_def)
    ultimately show ?thesis by simp
  qed
  ultimately show ?thesis using in_step_core [of "handleAck m s" ?t] comp_core [of "handleAck m s" ?t] uf(6) by auto
qed

text \<open>A batch refused for a password is only in flight no longer.\<close>

definition refused_frame :: "msg \<Rightarrow> bool" where
  [js_eval]: "refused_frame m \<longleftrightarrow> m_type m = js ''ack'' \<and> or_empty (m_error m) \<in>
     {js ''edit password required'', js ''view password required'', js ''invalid view password''}"

lemma refused_in_step:
  assumes st: "in_step base v0 g ids a H i s l k" and m: "refused_frame m"
  shows "in_step base v0 g ids a H i (handleAck m s) l k"
proof -
  have p: "have_sent ids a i (posted s) (nextSeq s) (sentBatches s) l" using st by (simp add: in_step_def)
  let ?u = "if map_of (sentBatches s) (or_zero (m_seq m)) \<noteq> None then ack_batch (or_zero (m_seq m)) s else s"
  have "core (handleAck m s) = core ?u"
    using m by (auto simp: handleAck_def refused_frame_def js_def Let_def)
  moreover have "set (filter (\<lambda>(q, b). q \<noteq> r) (sentBatches s)) \<subseteq> set (sentBatches s)" for r by auto
  then have "have_sent ids a i (posted s) (nextSeq s) (filter (\<lambda>(q, b). q \<noteq> or_zero (m_seq m)) (sentBatches s)) l"
    by (intro have_sent_fewer [OF p]) auto
  then have "in_step base v0 g ids a H i ?u l k"
    using st by (auto simp: ack_batch_def in_step_def in_doc_def history_ops_def)
  ultimately show ?thesis using in_step_core [of "handleAck m s" ?u] by simp
qed

text \<open>The pending operations replayed on a document that is the log.\<close>

lemma replayed_in_doc:
  assumes A: "in_doc A (log_of base a)" and la: "delivered crdt_ready [] (log_of base a)"
    and ps: "delivered crdt_ready (log_of base a) (pendingOps A)" and B: "B = snd (replay_pending A)"
  shows "in_doc B (log_of base a @ pendingOps A)" "B = A\<lparr>the_doc := the_doc B, localClock := localClock B\<rparr>"
    "core (merge_unsynced now v0 v1 (pendingOps A \<noteq> []) A) = core B"
proof -
  have "in_doc B (log_of base a @ pendingOps A) \<and> B = A\<lparr>the_doc := the_doc B, localClock := localClock B\<rparr> \<and>
    core (merge_unsynced now v0 v1 (pendingOps A \<noteq> []) A) = core B"
  proof (cases "pendingOps A = []")
    case True
    then have "B = A" by (simp add: B replay_pending_def)
    then show ?thesis using True A by (simp add: merge_unsynced_def replay_pending_def Let_def)
  next
    case False
    from applied_in_doc [OF A la ps False] obtain d' r where d': "applyBatch (the_doc A) (pendingOps A) = (d', BatchOk r)"
      "canonical_doc d'" "get_item d' = log_item (log_of base a @ pendingOps A)" by blast
    let ?B = "bumpClockFromDoc (A\<lparr>the_doc := d'\<rparr>)"
    have r: "replay_pending A = (True, ?B)" using False d'(1) by (simp add: replay_pending_def batch_ok_def Let_def)
    have "in_doc ?B (log_of base a @ pendingOps A)"
      using d'(2,3) bump_clocks [of "A\<lparr>the_doc := d'\<rparr>"] by (simp add: in_doc_def bump_core)
    moreover have "?B = A\<lparr>the_doc := the_doc ?B, localClock := localClock ?B\<rparr>" by (simp add: bumpClockFromDoc_def Let_def)
    ultimately show ?thesis using r by (simp add: B merge_unsynced_def Let_def)
  qed
  then show "in_doc B (log_of base a @ pendingOps A)" "B = A\<lparr>the_doc := the_doc B, localClock := localClock B\<rparr>"
    "core (merge_unsynced now v0 v1 (pendingOps A \<noteq> []) A) = core B" by blast+
qed

text \<open>A snapshot, sent when the log had its first \<open>h\<close> entries: it is stale if the client knows more, and the pending
  operations are replayed on it otherwise.\<close>

lemma snapshot_in_step:
  assumes st: "in_step base v0 g ids a H i s l k" and la: "delivered crdt_ready [] (log_of base a)"
    and m: "snapshot_frame base v0 g (take h a) (CLIENT_ID s) m" and init: "initialSnapshotApplied s"
    and nc: "\<not> compositionIsActive s" and h: "h \<le> length a" "k \<le> h \<longrightarrow> have_log base ids (take h a) i (pendingOps s) l k"
    and later: "\<forall>h'\<in>H. h \<le> h'"
  shows "\<exists>l' k'. in_step base v0 g ids a H i (handleState now m s) l' k'"
proof (cases "k \<le> h")
  case False
  have "of_generation g (v0 + h) m" using m h(1) by (simp add: snapshot_frame_def min_absorb2)
  from generation_fields [OF this] have "snapshotIsStale m s"
    using st False by (simp add: in_step_def snapshotIsStale_def Let_def)
  then show ?thesis using st nc by (auto simp: handleState_def)
next
  case kh: True
  let ?a = "take h a"
  have mg: "of_generation g (v0 + h) m" and pr: "\<not> m_passwordRequired m"
    and sd: "canonical_doc (snapshot_doc (CLIENT_ID s) m)" "get_item (snapshot_doc (CLIENT_ID s) m) = log_item (log_of base ?a)"
    using m h(1) by (simp_all add: snapshot_frame_def min_absorb2)
  note g = generation_fields [OF mg]
  have s: "knownVersion s = v0 + k" "knownGeneration s = g" "knownExists s" "CLIENT_ID s = ids i"
    and l: "have_log base ids a i (pendingOps s) l k" and bh: "behind base ids a H i (pendingOps s) l k"
    and p: "have_sent ids a i (posted s) (nextSeq s) (sentBatches s) l" using st by (simp_all add: in_step_def)
  have lh: "have_log base ids ?a i (pendingOps s) l k" and lah: "delivered crdt_ready [] (log_of base ?a)"
    using h(2) kh log_of_take [OF la] by simp_all
  have ns: "\<not> snapshotIsStale m s" using g s kh by (simp add: snapshotIsStale_def Let_def)
  let ?u = "unlock_editor (syncEditLockGate (noteEditPasswordSet m s))"
  define A where "A = adopt_snapshot m ?u"
  have A: "knownVersion A = v0 + h" "knownGeneration A = g" "knownExists A" "CLIENT_ID A = ids i"
    "the_doc A = snapshot_doc (ids i) m" "pendingOps A = pendingOps s" "sentBatches A = []"
    "undoStack A = undoStack s" "redoStack A = redoStack s"
    using g s(4) by (simp_all add: A_def adopt_fields)
  have "posted A = posted ?u \<and> nextSeq A = nextSeq ?u \<and> comp_of A = comp_of ?u \<and>
      localClock A = localClock (bumpClockFromDoc (?u\<lparr>the_doc := snapshot_doc (CLIENT_ID ?u) m, localClock := 0\<rparr>))"
    by (simp add: A_def adopt_snapshot_def take_snapshot_def clear_undo_if_newer_def clearUndoHistory_def Let_def
        bump_core comp_of_def)
  then have AB: "posted A = posted s" "nextSeq A = nextSeq s" "comp_of A = comp_of s"
    "clocks_le (the_doc A) (localClock A)"
    using bump_clocks [of "?u\<lparr>the_doc := snapshot_doc (CLIENT_ID ?u) m, localClock := 0\<rparr>"] sd s(4) A(5)
    by (simp_all add: bump_core comp_core [of ?u s])
  note hs = have_log_snapshot [OF la l lh h(1)]
  have bs: "behind base ids a H i (pendingOps s) (log_of base ?a @ pendingOps s) h"
    by (rule behind_snapshot [OF bh la lh later kh])
  have inA: "in_doc A (log_of base ?a)" using sd s(4) A(5) AB(4) by (simp add: in_doc_def)
  define B where "B = snd (replay_pending A)"
  have "core (handleState now m s) = core (merge_unsynced now (ed_value (content s)) (lastSyncedText s) (pendingOps A \<noteq> []) A)"
    using handleState_core [OF nc ns pr, of now] init by (simp add: A_def A(6) [unfolded A_def])
  moreover have "delivered crdt_ready (log_of base ?a) (pendingOps A)" using lh by (simp add: have_log_def A(6))
  ultimately have B: "core (handleState now m s) = core B" "in_doc B (log_of base ?a @ pendingOps s)"
    "B = A\<lparr>the_doc := the_doc B, localClock := localClock B\<rparr>"
    using replayed_in_doc [OF inA lah _ B_def] A(6) by simp_all
  have Bf: "posted B = posted s" "nextSeq B = nextSeq s" "sentBatches B = []" "pendingOps B = pendingOps s"
    "undoStack B = undoStack s" "redoStack B = redoStack s" "CLIENT_ID B = ids i" "knownVersion B = v0 + h"
    "knownGeneration B = g" "knownExists B" "comp_of B = comp_of s"
    by (subst B(3), simp add: A AB)+
  have "have_sent ids a i (posted s) (nextSeq s) [] (log_of base ?a @ pendingOps s)"
    using have_sent_mono [OF have_sent_fewer [OF p, of "[]"] hs(2)] by simp
  then have "in_step base v0 g ids a H i B (log_of base ?a @ pendingOps s) h"
    using st hs bs B(2) comp_ok_mono [OF _ hs(2), of v0 g ids a H "comp_of s"] by (auto simp: in_step_def history_ops_def Bf)
  then show ?thesis using in_step_core [OF B(1)] by blast
qed

section \<open>The connection\<close>

text \<open>A frame for the current socket reaches its handler with the same core.\<close>

lemma frame_in_step:
  assumes st: "in_step base v0 g ids a H i s l k"
    and h: "\<And>u. in_step base v0 g ids a H i u l k \<Longrightarrow> initialSnapshotApplied u = initialSnapshotApplied s \<Longrightarrow>
      compositionIsActive u = compositionIsActive s \<Longrightarrow> \<exists>l' k'. in_step base v0 g ids a H i (f u) l' k'"
    and f: "\<And>u. compositionIsActive u = compositionIsActive s \<Longrightarrow> is_current n s \<Longrightarrow>
      u = emit (PulseTraffic Down) (s\<lparr>lastMsgAt := now\<rparr>) \<Longrightarrow> ws_onmessage n now (Some m) s = f u"
  shows "\<exists>l' k'. in_step base v0 g ids a H i (ws_onmessage n now (Some m) s) l' k'"
proof (cases "is_current n s")
  case True
  let ?u = "emit (PulseTraffic Down) (s\<lparr>lastMsgAt := now\<rparr>)"
  have c: "core ?u = core s" by simp
  have u: "in_step base v0 g ids a H i ?u l k" "compositionIsActive ?u = compositionIsActive s"
    using st in_step_core [OF c] composing_comp [OF comp_core [OF c]] by simp_all
  have "ws_onmessage n now (Some m) s = f ?u" using True u(2) by (intro f) simp_all
  then show ?thesis using h [OF u(1) _ u(2)] by (simp add: emit_def)
next
  case False
  then have "ws_onmessage n now (Some m) s = s" by (simp add: ws_onmessage_def)
  then show ?thesis using st by auto
qed

text \<open>A broadcast that arrives during a composition is queued.\<close>

lemma defer_in_step:
  assumes st: "in_step base v0 g ids a H i s l k" and m: "ops_frame v0 g ids a j m" and c: "compositionIsActive s"
    and later: "\<forall>h\<in>H. j < h"
  shows "in_step base v0 g ids a H i (s\<lparr>deferredContentMessages := deferredContentMessages s @ [DMsg m]\<rparr>) l k"
proof -
  let ?t = "s\<lparr>deferredContentMessages := deferredContentMessages s @ [DMsg m]\<rparr>"
  have "comp_ok v0 g ids a H l (comp_of ?t)" using st m c later by (auto simp: in_step_def comp_of_def compositionIsActive_def)
  then show ?thesis using st by (simp add: in_step_def in_doc_def history_ops_def posted_def)
qed

lemma queue_in_step:
  assumes "in_step base v0 g ids a H i s l k" "authors ids a i" "delivered crdt_ready [] (log_of base a)"
    and "\<forall>q\<in>set queue. \<exists>j m. q = DMsg m \<and> ops_frame v0 g ids a j m \<and> (\<forall>h\<in>H. j < h)" "\<not> compositionIsActive s"
  shows "\<exists>l' k'. in_step base v0 g ids a H i (fold (handle_deferred now) queue s) l' k' \<and>
    comp_of (fold (handle_deferred now) queue s) = comp_of s \<and>
    set (pendingOps s) \<subseteq> set (pendingOps (fold (handle_deferred now) queue s)) \<union> set (log_of base a)"
  using assms(1,4,5)
proof (induction queue arbitrary: s l k)
  case (Cons q queue)
  obtain j m where q: "q = DMsg m" "ops_frame v0 g ids a j m" "\<forall>h\<in>H. j < h" using Cons.prems(2) by auto
  then have h: "handle_deferred now q s = handleRemoteOps now m s" by (simp add: handle_deferred_def ops_frame_def js_def)
  obtain l1 k1 where t: "in_step base v0 g ids a H i (handleRemoteOps now m s) l1 k1"
    "comp_of (handleRemoteOps now m s) = comp_of s"
    "set (pendingOps s) \<subseteq> set (pendingOps (handleRemoteOps now m s)) \<union> set (log_of base a)"
    using remote_in_step [OF Cons.prems(1) assms(2,3) q(2) Cons.prems(3) q(3), of now] by blast
  then show ?case using Cons.IH [OF t(1)] Cons.prems(2,3) composing_comp [OF t(2)] by (auto simp: h)
qed auto

text \<open>The commit: the text joins the log as an edit of the document of the start, then the queue is handled.\<close>

lemma commit_in_step:
  assumes st: "in_step base v0 g ids a H i s l k" and au: "authors ids a i" and la: "delivered crdt_ready [] (log_of base a)"
    and m: "compositionCommitPending s \<Longrightarrow> clock_after_bump s + length (codePoints (ed_value (content s))) \<le> max_exact"
  shows "\<exists>l' k'. in_step base v0 g ids a H i (commitComposition now s) l' k' \<and>
    set (pendingOps s) \<subseteq> set (pendingOps (commitComposition now s)) \<union> set (log_of base a) \<and>
    (compositionCommitPending s \<longrightarrow> \<not> compositionIsActive (commitComposition now s))"
proof (cases "compositionCommitPending s")
  case True
  let ?w = "ed_value (content s)" and ?s = "bumpClockFromDoc s"
  obtain d where d: "compositionBaseDoc s = Some d" "earlier_doc l d (compositionBaseText s)" "\<not> compositionActive s"
    "\<forall>q\<in>set (deferredContentMessages s). \<exists>j m. q = DMsg m \<and> ops_frame v0 g ids a j m \<and> (\<forall>h\<in>H. j < h)"
    using st True by (auto simp: in_step_def comp_of_def)
  define diff where "diff = diffToOps (codePoints (compositionBaseText s)) (visibleIds d) (codePoints ?w)
    (CLIENT_ID ?s) (localClock ?s)"
  obtain t where t: "commit_diff now diff ?s = (True, t)" "in_step base v0 g ids a H i t (l @ df_ops diff) k"
    "comp_of t = comp_of s" "pendingOps t = pendingOps s @ df_ops diff"
    using commit_diff_in_step [OF bump_in_step [OF st] au d(2) _ diff_def, of now] m [OF True]
    by (auto simp: bump_clock bump_core)
  define t3 where "t3 = t\<lparr>compositionBaseText := [], compositionBaseDoc := None, compositionInputPending := False,
    compositionCommitPending := False\<rparr>"
  define t4 where "t4 = (let nxt = materialize (the_doc t3);
      s5 = scheduleCursorSend (emit RenderCursors (onLocalTextChanged (materialize (the_doc s)) nxt
        (paint nxt (captureTextSelection ?w s) t3)))
      in if pendingOps s5 \<noteq> [] then scheduleFlush s5 else s5)"
  have c: "commitComposition now s = flushDeferredContentMessages now t4"
    using True d(1) t(1) by (simp add: commitComposition_def diff_def [symmetric] t3_def t4_def Let_def)
  let ?q = "deferredContentMessages s" and ?t = "t3\<lparr>deferredContentMessages := []\<rparr>"
  have c4: "core t4 = core t3" by (simp add: t4_def Let_def)
  have f: "compositionActive t = False" "deferredContentMessages t = ?q" using t(3) d(3) by (simp_all add: comp_of_def)
  have ti: "in_step base v0 g ids a H i ?t (l @ df_ops diff) k"
    using t(2) f by (simp add: in_step_def in_doc_def history_ops_def posted_def t3_def comp_of_def)
  have n: "\<not> compositionIsActive t4" "deferredContentMessages t4 = ?q" "comp_of ?t = (False, False, None, [], [])"
    using core_frame [OF c4] f by (simp_all add: compositionIsActive_def t3_def comp_of_def)
  have c5: "core (t4\<lparr>deferredContentMessages := []\<rparr>) = core ?t" using core_frame [OF c4] by (simp add: core_def posted_def)
  have fl: "flushDeferredContentMessages now t4 = (if ?q = [] then t4 else fold (handle_deferred now) ?q (t4\<lparr>deferredContentMessages := []\<rparr>))"
    using n(1,2) by (simp add: flushDeferredContentMessages_def)
  let ?u = "t4\<lparr>deferredContentMessages := []\<rparr>"
  have u: "in_step base v0 g ids a H i ?u (l @ df_ops diff) k" "comp_of ?u = (False, False, None, [], [])"
    "set (pendingOps s) \<subseteq> set (pendingOps ?u)"
    using ti in_step_core [OF c5] comp_core [OF c5] n(3) core_frame(4) [OF c5] t(4) by (simp_all add: t3_def)
  have nu: "\<not> compositionIsActive ?u" using u(2) by (simp add: comp_of_def compositionIsActive_def)
  obtain l' k' where r: "in_step base v0 g ids a H i (fold (handle_deferred now) ?q ?u) l' k'"
    "comp_of (fold (handle_deferred now) ?q ?u) = comp_of ?u"
    "set (pendingOps ?u) \<subseteq> set (pendingOps (fold (handle_deferred now) ?q ?u)) \<union> set (log_of base a)"
    using queue_in_step [OF u(1) au la d(4) nu, of now] by blast
  have "commitComposition now s = fold (handle_deferred now) ?q ?u"
    using n(2) by (cases "?q = []") (simp_all add: c fl)
  then show ?thesis using r u(3) nu composing_comp [OF r(2)] by (intro exI [of _ l'] exI [of _ k']) auto
next
  case False
  then show ?thesis using st by (auto simp: commitComposition_def)
qed

lemma closed_core:
  assumes "is_current n s"
  shows "core (ws_onclose n jitter s) = core (s\<lparr>sentBatches := []\<rparr>)"
proof -
  let ?u = "stopPresenceHeartbeat (s\<lparr>socket := None\<rparr>)"
  have "core ?u = core s" by simp
  then have "core (?u\<lparr>sentBatches := []\<rparr>) = core (s\<lparr>sentBatches := []\<rparr>)" using core_frame [of ?u s] by (simp add: core_def)
  then show ?thesis using assms by (simp add: ws_onclose_def Let_def)
qed

lemma close_in_step:
  assumes st: "in_step base v0 g ids a H i s l k"
  shows "in_step base v0 g ids a H i (ws_onclose n jitter s) l k"
proof (cases "is_current n s")
  case True
  have p: "have_sent ids a i (posted s) (nextSeq s) (sentBatches s) l" using st by (simp add: in_step_def)
  have "in_step base v0 g ids a H i (s\<lparr>sentBatches := []\<rparr>) l k"
    using have_sent_fewer [OF p, of "[]"] st by (intro in_step_change [OF st]) (simp_all add: in_step_def)
  then show ?thesis using in_step_core [OF closed_core [OF True]] by simp
next
  case False
  then show ?thesis using st by (simp add: ws_onclose_def)
qed

text \<open>Events that leave the core alone.\<close>

fun quiet :: "event \<Rightarrow> bool" where
  "quiet (SocketOpened n) = True"
| "quiet (ReconnectTimerFired created) = True"
| "quiet (HeartbeatFired hidden) = True"
| "quiet (VisibilityChanged shown) = True"
| "quiet PruneFired = True"
| "quiet (CaretMoved a b dir) = True"
| "quiet CursorTimerFired = True"
| "quiet (TtlChanged v u) = True"
| "quiet (GateAnswered r) = True"
| "quiet (UnlockEntered pw) = True"
| "quiet (UnlockAnswered pw r) = True"
| "quiet (LockSubmitted pw) = True"
| "quiet (LockAnswered pw r) = True"
| "quiet Unload = True"
| "quiet (Frame n None) = True"
| "quiet (Frame n (Some m)) = (m_type m \<notin> {js ''state'', js ''update'', js ''ops'', js ''ack''})"
| "quiet _ = False"

lemma quiet_core: "quiet e \<Longrightarrow> core (client_step now jitter e s) = core s"
  by (cases e rule: quiet.cases) (simp_all add: client_step_def ws_onmessage_def Let_def)

end
