(* ===== verification/Network.thy ===== *)
theory Network
  imports RoomMessages
begin

text \<open>
  Clients in one room. The server is its log: it accepts a batch a client posted when the batch can be delivered
  after the log. It tells a client of any entry, acknowledges its own, refuses a batch, or describes the room in a
  snapshot; what it sends reaches the client in order, but the log can grow meanwhile and any of it can be lost. A
  client acts by its own handlers (\<open>client_step\<close>): it types, composes, undoes and redoes, sends, loses its connection
  and gets a new one.
\<close>

section \<open>The room\<close>

text \<open>A message on its way to a client is kept with the length of the log when it was sent.\<close>

record network =
  clients :: "app list"
  accepted :: "entry list"
  wire :: "nat \<Rightarrow> (nat \<times> msg) list"

definition set_client :: "nat \<Rightarrow> app \<Rightarrow> network \<Rightarrow> network" where
  "set_client i s N = N\<lparr>clients := (clients N)[i := s]\<rparr>"

definition set_wire :: "nat \<Rightarrow> (nat \<times> msg) list \<Rightarrow> network \<Rightarrow> network" where
  "set_wire i w N = N\<lparr>wire := (wire N)(i := w)\<rparr>"

definition ids_of :: "network \<Rightarrow> nat \<Rightarrow> jsstring" where
  "ids_of N i = CLIENT_ID (clients N ! i)"

text \<open>An edit of client \<open>s\<close> that leads to \<open>t\<close>, with clocks that stay exact and a text cut as its atoms are. A composition
  begins where the editor shows the document; what is typed in it only counts at its commit.\<close>

definition exact_clock :: "app \<Rightarrow> editor \<Rightarrow> bool" where
  [js_eval]: "exact_clock s c \<longleftrightarrow> clock_after_bump s + length (codePoints (ed_value c)) \<le> max_exact"

definition exact_text :: "app \<Rightarrow> app \<Rightarrow> bool" where
  [js_eval]: "exact_text s t \<longleftrightarrow> compositionIsActive s \<or> aligned (the_doc s) \<and> exact_clock s (content t)"

fun exact_edit :: "event \<Rightarrow> app \<Rightarrow> app \<Rightarrow> bool" where
  "exact_edit (Typed v a b) s t \<longleftrightarrow> exact_text s t"
| "exact_edit (CompositionTyped v a b) s t \<longleftrightarrow> exact_text s t"
| "exact_edit Tab s t \<longleftrightarrow> exact_text s t"
| "exact_edit CompositionStart s t \<longleftrightarrow> aligned (the_doc s) \<and> ed_value (content s) = materialize (the_doc s)"
| "exact_edit CompositionEnd s t \<longleftrightarrow> True"
| "exact_edit CommitTimer s t \<longleftrightarrow> (compositionCommitPending s \<longrightarrow> exact_clock s (content s))"
| "exact_edit KeyUndo s t \<longleftrightarrow> (undoStack s \<noteq> [] \<longrightarrow> localClock s + length (ue_ops (last (undoStack s))) \<le> max_exact)"
| "exact_edit KeyRedo s t \<longleftrightarrow> (redoStack s \<noteq> [] \<longrightarrow> localClock s + length (ue_ops (last (redoStack s))) \<le> max_exact)"
| "exact_edit _ s t \<longleftrightarrow> False"

text \<open>What the server may tell client \<open>i\<close>.\<close>

definition told :: "crdt_op list \<Rightarrow> nat \<Rightarrow> nat \<Rightarrow> (nat \<Rightarrow> jsstring) \<Rightarrow> entry list \<Rightarrow> nat \<Rightarrow> msg \<Rightarrow> bool" where
  "told base v0 g ids a i m \<longleftrightarrow>
     (\<exists>j. ops_frame v0 g ids a j m) \<or> (\<exists>j. ack_frame v0 g a j m \<and> fst (a ! j) = i) \<or> refused_frame m \<or>
     snapshot_frame base v0 g a (ids i) m"

text \<open>Snapshots are left out before the first one was applied and during compositions.\<close>

definition takes :: "app \<Rightarrow> msg \<Rightarrow> bool" where
  [js_eval]: "takes s m \<longleftrightarrow> (m_type m = js ''state'' \<or> m_type m = js ''update'' \<longrightarrow>
     initialSnapshotApplied s \<and> \<not> compositionIsActive s)"

inductive network_step :: "crdt_op list \<Rightarrow> nat \<Rightarrow> nat \<Rightarrow> network \<Rightarrow> network \<Rightarrow> bool" for base v0 g where
  room_edits: "\<lbrakk>i < length (clients N); t = client_step now jitter e (clients N ! i); exact_edit e (clients N ! i) t\<rbrakk> \<Longrightarrow>
     network_step base v0 g N (set_client i t N)"
| room_moves: "\<lbrakk>i < length (clients N); e = FlushTimerFired \<or> (\<exists>n. e = SocketClosed n) \<or> quiet e\<rbrakk> \<Longrightarrow>
     network_step base v0 g N (set_client i (client_step now jitter e (clients N ! i)) N)"
| room_accepts: "\<lbrakk>i < length (clients N); (q, ops) \<in> set (posted (clients N ! i)); ops \<noteq> [];
      delivered crdt_ready (log_of base (accepted N)) ops\<rbrakk> \<Longrightarrow>
     network_step base v0 g N (N\<lparr>accepted := accepted N @ [(i, q, ops)]\<rparr>)"
| room_tells: "\<lbrakk>i < length (clients N); told base v0 g (ids_of N) (accepted N) i m\<rbrakk> \<Longrightarrow>
     network_step base v0 g N (set_wire i (wire N i @ [(length (accepted N), m)]) N)"
| room_delivers: "\<lbrakk>i < length (clients N); wire N i = (h, m) # w; takes (clients N ! i) m\<rbrakk> \<Longrightarrow>
     network_step base v0 g N (set_wire i w (set_client i (client_step now jitter (Frame n (Some m)) (clients N ! i)) N))"
| room_loses: "\<lbrakk>i < length (clients N); w \<in> set (subseqs (wire N i))\<rbrakk> \<Longrightarrow> network_step base v0 g N (set_wire i w N)"

text \<open>Where a room starts: every client has the document of the base log, at version \<open>v0\<close> of generation \<open>g\<close>.\<close>

definition fresh_client :: "crdt_op list \<Rightarrow> nat \<Rightarrow> nat \<Rightarrow> app \<Rightarrow> bool" where
  "fresh_client base v0 g s \<longleftrightarrow> in_doc s base \<and> knownVersion s = v0 \<and> knownGeneration s = g \<and> knownExists s \<and>
     pendingOps s = [] \<and> sentBatches s = [] \<and> posted s = [] \<and> undoStack s = [] \<and> redoStack s = [] \<and>
     \<not> compositionIsActive s \<and> deferredContentMessages s = [] \<and> valid_client_id (CLIENT_ID s)"

definition joined :: "crdt_op list \<Rightarrow> nat \<Rightarrow> nat \<Rightarrow> network \<Rightarrow> bool" where
  "joined base v0 g N \<longleftrightarrow> delivered crdt_ready [] base \<and> distinct (map CLIENT_ID (clients N)) \<and> accepted N = [] \<and>
     (\<forall>i. wire N i = []) \<and> list_all (fresh_client base v0 g) (clients N)"

text \<open>A client that knows every entry and has nothing left to send.\<close>

definition caught_up :: "nat \<Rightarrow> network \<Rightarrow> nat \<Rightarrow> bool" where
  "caught_up v0 N i \<longleftrightarrow> i < length (clients N) \<and> knownVersion (clients N ! i) = v0 + length (accepted N) \<and>
     pendingOps (clients N ! i) = []"

section \<open>The invariant\<close>

text \<open>The messages on their way to client \<open>i\<close> are in the order they were sent, each true of the log of its moment.\<close>

definition wire_ok :: "crdt_op list \<Rightarrow> nat \<Rightarrow> nat \<Rightarrow> (nat \<Rightarrow> jsstring) \<Rightarrow> entry list \<Rightarrow> nat \<Rightarrow> (nat \<times> msg) list \<Rightarrow> bool" where
  "wire_ok base v0 g ids a i w \<longleftrightarrow> sorted (map fst w) \<and>
     (\<forall>(h, m)\<in>set w. h \<le> length a \<and> told base v0 g ids (take h a) i m)"

abbreviation moments :: "(nat \<times> msg) list \<Rightarrow> nat set" where
  "moments w \<equiv> fst ` set w"

definition room_inv :: "crdt_op list \<Rightarrow> nat \<Rightarrow> nat \<Rightarrow> (nat \<Rightarrow> jsstring) \<Rightarrow> nat \<Rightarrow> network \<Rightarrow> bool" where
  "room_inv base v0 g ids n N \<longleftrightarrow> length (clients N) = n \<and> inj_on ids {..<n} \<and>
     delivered crdt_ready [] (log_of base (accepted N)) \<and> (\<forall>e\<in>set (accepted N). fst e < n) \<and>
     (\<forall>i<n. authors ids (accepted N) i \<and> wire_ok base v0 g ids (accepted N) i (wire N i) \<and>
        (\<exists>l k. in_step base v0 g ids (accepted N) (moments (wire N i)) i (clients N ! i) l k))"

lemma room_inv_client:
  assumes "room_inv base v0 g ids n N" "\<exists>l k. in_step base v0 g ids (accepted N) (moments (wire N i)) i t l k"
  shows "room_inv base v0 g ids n (set_client i t N)"
proof -
  have "\<exists>l k. in_step base v0 g ids (accepted N) (moments (wire N j)) j ((clients N)[i := t] ! j) l k" if "j < length (clients N)" for j
    using assms that by (cases "j = i") (auto simp: room_inv_def)
  then show ?thesis using assms(1) by (simp add: room_inv_def set_client_def)
qed

text \<open>Another wire, with its client as the invariant asks for it.\<close>

lemma room_inv_wire:
  assumes "room_inv base v0 g ids n N" "wire_ok base v0 g ids (accepted N) i w"
    and "\<exists>l k. in_step base v0 g ids (accepted N) (moments w) i t l k"
  shows "room_inv base v0 g ids n (set_wire i w (set_client i t N))"
proof -
  let ?w = "(wire N)(i := w)"
  have "wire_ok base v0 g ids (accepted N) j (?w j) \<and>
      (\<exists>l k. in_step base v0 g ids (accepted N) (moments (?w j)) j ((clients N)[i := t] ! j) l k)"
    if "j < length (clients N)" for j
    using assms that by (cases "j = i") (auto simp: room_inv_def)
  then show ?thesis using assms(1) by (simp add: room_inv_def set_client_def set_wire_def del: fun_upd_apply)
qed

lemma in_step_fewer:
  assumes "in_step base v0 g ids a H i s l k" "H' \<subseteq> H"
  shows "in_step base v0 g ids a H' i s l k"
proof -
  have "comp_ok v0 g ids a H l c \<Longrightarrow> comp_ok v0 g ids a H' l c" for c using assms(2) by (cases c) fastforce
  then show ?thesis using assms(1) behind_mono [OF _ assms(2)] by (simp add: in_step_def)
qed

lemma in_step_now:
  assumes "in_step base v0 g ids a H i s l k"
  shows "in_step base v0 g ids a (insert (length a) H) i s l k"
proof -
  have "comp_ok v0 g ids a H l c \<Longrightarrow> comp_ok v0 g ids a (insert (length a) H) l c" for c
    by (cases c) (fastforce simp: ops_frame_def)
  then show ?thesis using assms behind_now by (simp add: in_step_def)
qed

lemma in_step_accept:
  assumes st: "in_step base v0 g ids a H i s l k" and au: "authors ids (a @ [e]) i" and p: "fst e = i \<Longrightarrow> snd e \<in> set (posted s)"
  shows "in_step base v0 g ids (a @ [e]) H i s l k"
proof -
  have l: "have_log base ids a i (pendingOps s) l k"
    and q: "have_sent ids a i (posted s) (nextSeq s) (sentBatches s) l" using st by (simp_all add: in_step_def)
  note q' = have_sent_accept [OF q p]
  show ?thesis using st q' have_log_accept [OF au l q'] comp_ok_later behind_accept by (simp add: in_step_def)
qed

lemma edit_value [simp]: "ed_value (content (onInput now s)) = ed_value (content s)"
  using applyLocalText_frame [of now "ed_value (content s)" s]
  by (simp add: onInput_def Let_def scheduleCursorSend_def onLocalTextChanged_def emit_def)

lemma input_in_step:
  assumes st: "in_step base v0 g ids a H i s l k" and au: "authors ids a i" and u: "core u = core s"
    and ex: "exact_text s (onInput now u)"
  shows "\<exists>l' k'. in_step base v0 g ids a H i (onInput now u) l' k'"
proof -
  have "in_step base v0 g ids a H i u l k" using st in_step_core [OF u] by simp
  moreover have "compositionIsActive u \<or> aligned (the_doc u) \<and>
      clock_after_bump u + length (codePoints (ed_value (content u))) \<le> max_exact"
    using ex core_frame(2,3) [OF u] composing_comp [OF comp_core [OF u]]
    by (simp add: exact_text_def exact_clock_def clock_after_bump_def)
  ultimately show ?thesis using onInput_in_step [OF _ au] by blast
qed

text \<open>Typing, in a composition or outside one: a change of the editor and its input event.\<close>

lemma typed_in_step:
  assumes st: "in_step base v0 g ids a H i s l k" and au: "authors ids a i" and ex: "exact_text s t"
    and t: "t = (if ed_readOnly (content s) then s else onInput now (type_into v x y s))"
  shows "\<exists>l' k'. in_step base v0 g ids a H i t l' k'"
proof (cases "ed_readOnly (content s)")
  case True
  then show ?thesis using st t by auto
next
  case False
  then show ?thesis using input_in_step [OF st au, of "type_into v x y s" now] ex t by (auto simp: type_into_def)
qed

lemma edit_in_step:
  assumes st: "in_step base v0 g ids a H i s l k" and au: "authors ids a i" and la: "delivered crdt_ready [] (log_of base a)"
    and ex: "exact_edit e s (client_step now jitter e s)"
  shows "\<exists>l' k'. in_step base v0 g ids a H i (client_step now jitter e s) l' k'"
proof (cases e)
  case (Typed v x y)
  then show ?thesis using typed_in_step [OF st au] ex by (simp add: client_step_def)
next
  case (CompositionTyped v x y)
  then show ?thesis using typed_in_step [OF st au] ex by (simp add: client_step_def)
next
  case Tab
  have "\<exists>c. onTab now s = onInput now (s\<lparr>content := c\<rparr>)"
  proof -
    have "\<exists>c. (if b then f x else f y) = f c" for b :: bool and f :: "editor \<Rightarrow> app" and x y by (cases b) auto
    then show ?thesis unfolding onTab_def Let_def .
  qed
  then obtain c where "client_step now jitter e s = onInput now (s\<lparr>content := c\<rparr>)" by (auto simp: client_step_def Tab)
  then show ?thesis using input_in_step [OF st au, of "s\<lparr>content := c\<rparr>" now] ex by (auto simp: Tab)
next
  case KeyUndo
  then show ?thesis using undo_in_step [OF st au, of now] ex by (auto simp: client_step_def)
next
  case KeyRedo
  then show ?thesis using redo_in_step [OF st au, of now] ex by (auto simp: client_step_def)
next
  case CompositionStart
  then show ?thesis using start_in_step [OF st] st ex by (auto simp: client_step_def)
next
  case CompositionEnd
  then show ?thesis using end_in_step [OF st] by (auto simp: client_step_def)
next
  case CommitTimer
  then show ?thesis using commit_in_step [OF st au la, of now] ex by (auto simp: client_step_def exact_clock_def)
qed (use ex in simp_all)

lemma move_in_step:
  assumes st: "in_step base v0 g ids a H i s l k" and e: "e = FlushTimerFired \<or> (\<exists>n. e = SocketClosed n) \<or> quiet e"
  shows "\<exists>l' k'. in_step base v0 g ids a H i (client_step now jitter e s) l' k'"
proof -
  consider "e = FlushTimerFired" | n where "e = SocketClosed n" | "quiet e" using e by blast
  then show ?thesis
  proof cases
    case 1
    have "in_step base v0 g ids a H i (s\<lparr>flushTimer := False\<rparr>) l k" using st in_step_core [of "s\<lparr>flushTimer := False\<rparr>" s] by simp
    from flush_in_step [OF this] show ?thesis by (auto simp: 1 client_step_def flushTimer_fired_def)
  next
    case 2
    then show ?thesis using close_in_step [OF st] by (auto simp: client_step_def)
  next
    case 3
    then show ?thesis using st in_step_core [OF quiet_core [OF 3]] by blast
  qed
qed

lemma told_in_step:
  assumes st: "in_step base v0 g ids a (insert h H) i s l k" and au: "authors ids a i" and la: "delivered crdt_ready [] (log_of base a)"
    and h: "h \<le> length a" "\<forall>h'\<in>H. h \<le> h'" and m: "told base v0 g ids (take h a) i m" and tk: "takes s m"
  shows "\<exists>l' k'. in_step base v0 g ids a H i (client_step now jitter (Frame n (Some m)) s) l' k'"
proof -
  have cs: "client_step now jitter (Frame n (Some m)) s = ws_onmessage n now (Some m) s" by (simp add: client_step_def)
  have sh: "in_step base v0 g ids a H i s l k" by (rule in_step_fewer [OF st]) auto
  have bh: "k \<le> h \<longrightarrow> have_log base ids (take h a) i (pendingOps s) l k" using st by (simp add: in_step_def behind_def)
  from m consider j where "ops_frame v0 g ids (take h a) j m" "compositionIsActive s"
    | j where "ops_frame v0 g ids (take h a) j m" "\<not> compositionIsActive s"
    | j where "ack_frame v0 g (take h a) j m" "fst (take h a ! j) = i" | "refused_frame m"
    | "snapshot_frame base v0 g (take h a) (ids i) m" unfolding told_def by blast
  then show ?thesis
  proof cases
    case (1 j)
    then have j: "ops_frame v0 g ids a j m" "\<forall>h'\<in>H. j < h'" using h by (auto simp: ops_frame_def)
    show ?thesis unfolding cs
    proof (rule frame_in_step [OF sh, of "\<lambda>u. u\<lparr>deferredContentMessages := deferredContentMessages u @ [DMsg m]\<rparr>"])
      show "\<exists>l' k'. in_step base v0 g ids a H i (u\<lparr>deferredContentMessages := deferredContentMessages u @ [DMsg m]\<rparr>) l' k'"
        if "in_step base v0 g ids a H i u l k" "compositionIsActive u = compositionIsActive s" for u
        using defer_in_step [OF that(1) j(1) _ j(2)] that(2) 1(2) by blast
    qed (use 1 in \<open>simp add: ws_onmessage_def Let_def ops_frame_def js_def\<close>)
  next
    case (2 j)
    then have j: "ops_frame v0 g ids a j m" "\<forall>h'\<in>H. j < h'" using h by (auto simp: ops_frame_def)
    show ?thesis unfolding cs
    proof (rule frame_in_step [OF sh, of "handleRemoteOps now m"])
      show "\<exists>l' k'. in_step base v0 g ids a H i (handleRemoteOps now m u) l' k'"
        if "in_step base v0 g ids a H i u l k" "compositionIsActive u = compositionIsActive s" for u
      proof -
        have "\<not> compositionIsActive u" using that(2) 2(2) by simp
        from remote_in_step [OF that(1) au la j(1) this j(2), of now] show ?thesis by blast
      qed
    qed (use 2 in \<open>simp add: ws_onmessage_def Let_def ops_frame_def js_def\<close>)
  next
    case (3 j)
    then have j: "ack_frame v0 g a j m" "fst (a ! j) = i" "\<forall>h'\<in>H. j < h'" using h by (auto simp: ack_frame_def)
    show ?thesis unfolding cs
    proof (rule frame_in_step [OF sh, of "handleAck m"])
      show "\<exists>l' k'. in_step base v0 g ids a H i (handleAck m u) l' k'" if "in_step base v0 g ids a H i u l k" for u
        using ack_in_step [OF that au j] by blast
    qed (use 3 in \<open>simp add: ws_onmessage_def Let_def ack_frame_def js_def\<close>)
  next
    case 4
    show ?thesis unfolding cs
    proof (rule frame_in_step [OF sh, of "handleAck m"])
      show "\<exists>l' k'. in_step base v0 g ids a H i (handleAck m u) l' k'" if "in_step base v0 g ids a H i u l k" for u
        using refused_in_step [OF that 4] by blast
    qed (use 4 in \<open>simp add: ws_onmessage_def Let_def refused_frame_def js_def\<close>)
  next
    case 5
    then have r: "initialSnapshotApplied s" "\<not> compositionIsActive s" using tk by (auto simp: takes_def snapshot_frame_def)
    have st': "in_step base v0 g ids a (insert h H) i s l k" by (rule st)
    have "\<exists>l' k'. in_step base v0 g ids a (insert h H) i (ws_onmessage n now (Some m) s) l' k'"
    proof (rule frame_in_step [OF st', of "handleState now m"])
      show "\<exists>l' k'. in_step base v0 g ids a (insert h H) i (handleState now m u) l' k'"
        if u: "in_step base v0 g ids a (insert h H) i u l k" "initialSnapshotApplied u = initialSnapshotApplied s"
          "compositionIsActive u = compositionIsActive s" for u
        by (rule snapshot_in_step [OF u(1) la, of h]) (use 5 u r h in \<open>auto simp: in_step_def behind_def\<close>)
    qed (use 5 r in \<open>auto simp: ws_onmessage_def Let_def snapshot_frame_def js_def\<close>)
    then show ?thesis unfolding cs using in_step_fewer [of base v0 g ids a "insert h H"] by blast
  qed
qed

lemma room_inv_at:
  assumes "room_inv base v0 g ids n N" "i < length (clients N)"
  shows "i < n" "authors ids (accepted N) i" "delivered crdt_ready [] (log_of base (accepted N))"
    "\<exists>l k. in_step base v0 g ids (accepted N) (moments (wire N i)) i (clients N ! i) l k"
    "wire_ok base v0 g ids (accepted N) i (wire N i)"
  using assms by (auto simp: room_inv_def)

lemma room_inv_accept:
  assumes inv: "room_inv base v0 g ids n N" and i: "i < length (clients N)" and q: "(q, ops) \<in> set (posted (clients N ! i))" "ops \<noteq> []"
    and d: "delivered crdt_ready (log_of base (accepted N)) ops"
  shows "room_inv base v0 g ids n (N\<lparr>accepted := accepted N @ [(i, q, ops)]\<rparr>)"
proof -
  let ?a = "accepted N" and ?e = "(i, q, ops)"
  note at = room_inv_at [OF inv i]
  obtain l k where st: "in_step base v0 g ids ?a (moments (wire N i)) i (clients N ! i) l k" using at(4) by blast
  then have own: "list_all (own_op (ids i)) ops" using q(1) by (auto simp: in_step_def have_sent_def)
  have au: "authors ids (?a @ [?e]) j" if j: "j < n" for j
  proof -
    have "authors ids ?a j" using inv j by (simp add: room_inv_def)
    moreover have "valid_client_id (ids i)" using at(2) by (simp add: authors_def)
    moreover have "ids i = ids j \<longrightarrow> i = j" using inv j at(1) by (auto simp: room_inv_def inj_on_def)
    ultimately show ?thesis using own q(2) by (simp add: authors_def entry_ops_def)
  qed
  have "\<exists>l k. in_step base v0 g ids (?a @ [?e]) (moments (wire N j)) j (clients N ! j) l k" if j: "j < n" for j
  proof -
    obtain l k where "in_step base v0 g ids ?a (moments (wire N j)) j (clients N ! j) l k" using inv j by (auto simp: room_inv_def)
    then have "in_step base v0 g ids (?a @ [?e]) (moments (wire N j)) j (clients N ! j) l k"
      using q(1) by (intro in_step_accept [OF _ au [OF j]]) simp_all
    then show ?thesis by blast
  qed
  moreover have "wire_ok base v0 g ids (?a @ [?e]) j (wire N j)" if "j < n" for j
    using inv that by (fastforce simp: room_inv_def wire_ok_def)
  ultimately show ?thesis using inv au at(1) d by (simp add: room_inv_def delivered_append entry_ops_def)
qed

lemma ids_agree:
  assumes "room_inv base v0 g ids n N" "j < n"
  shows "ids_of N j = ids j"
proof -
  obtain l k where "in_step base v0 g ids (accepted N) (moments (wire N j)) j (clients N ! j) l k"
    using assms by (auto simp: room_inv_def)
  then show ?thesis by (simp add: ids_of_def in_step_def)
qed

lemma told_ids:
  assumes inv: "room_inv base v0 g ids n N" and i: "i < length (clients N)" and m: "told base v0 g (ids_of N) (accepted N) i m"
  shows "told base v0 g ids (accepted N) i m"
proof -
  note ids = ids_agree [OF inv]
  have "ops_frame v0 g ids (accepted N) j m" if j: "ops_frame v0 g (ids_of N) (accepted N) j m" for j
  proof -
    have "fst (accepted N ! j) < n" using inv j by (simp add: room_inv_def ops_frame_def)
    then show ?thesis using j ids by (simp add: ops_frame_def)
  qed
  then show ?thesis using m ids [OF room_inv_at(1) [OF inv i]] unfolding told_def by metis
qed

lemma wire_ok_tail:
  assumes "wire_ok base v0 g ids a i ((h, m) # w)"
  shows "h \<le> length a" "\<forall>h'\<in>moments w. h \<le> h'" "told base v0 g ids (take h a) i m" "wire_ok base v0 g ids a i w"
  using assms by (auto simp: wire_ok_def)

lemma subseqs_sub: "xs \<in> set (subseqs ys) \<Longrightarrow> set xs \<subseteq> set ys"
  by (induction ys arbitrary: xs) (fastforce simp: Let_def)+

lemma subseqs_sorted: "\<lbrakk>xs \<in> set (subseqs ys); sorted (map f ys)\<rbrakk> \<Longrightarrow> sorted (map f xs)" for f :: "'a \<Rightarrow> nat"
proof (induction ys arbitrary: xs)
  case (Cons y ys)
  consider "xs \<in> set (subseqs ys)" | zs where "xs = y # zs" "zs \<in> set (subseqs ys)" using Cons.prems(1) by (auto simp: Let_def)
  then show ?case
  proof cases
    case 1
    then show ?thesis using Cons by simp
  next
    case 2
    then show ?thesis using Cons subseqs_sub [OF 2(2)] by auto
  qed
qed simp

lemma wire_ok_sub:
  assumes "wire_ok base v0 g ids a i w" "w' \<in> set (subseqs w)"
  shows "wire_ok base v0 g ids a i w'" "moments w' \<subseteq> moments w"
  using assms(1) subseqs_sub [OF assms(2)] subseqs_sorted [OF assms(2)] by (auto simp: wire_ok_def)

lemma wire_ok_snoc:
  "\<lbrakk>wire_ok base v0 g ids a i w; told base v0 g ids a i m\<rbrakk> \<Longrightarrow> wire_ok base v0 g ids a i (w @ [(length a, m)])"
  by (auto simp: wire_ok_def sorted_append)

lemma set_wire_same: "i < length (clients N) \<Longrightarrow> set_wire i w N = set_wire i w (set_client i (clients N ! i) N)"
  by (simp add: set_client_def)

lemma network_step_inv: "\<lbrakk>network_step base v0 g N N'; room_inv base v0 g ids n N\<rbrakk> \<Longrightarrow> room_inv base v0 g ids n N'"
proof (induction rule: network_step.induct)
  case (room_edits i N t now jitter e)
  note at = room_inv_at [OF room_edits(4,1)]
  obtain l k where st: "in_step base v0 g ids (accepted N) (moments (wire N i)) i (clients N ! i) l k" using at(4) by blast
  show ?case using edit_in_step [OF st at(2,3)] room_edits(2,3) by (intro room_inv_client [OF room_edits(4)]) auto
next
  case (room_moves i N e now jitter)
  note at = room_inv_at [OF room_moves(3,1)]
  obtain l k where st: "in_step base v0 g ids (accepted N) (moments (wire N i)) i (clients N ! i) l k" using at(4) by blast
  show ?case by (rule room_inv_client [OF room_moves(3) move_in_step [OF st room_moves(2)]])
next
  case (room_accepts i N q ops)
  then show ?case by (intro room_inv_accept)
next
  case (room_tells i N m)
  note at = room_inv_at [OF room_tells(3,1)]
  have w: "moments (wire N i @ [(length (accepted N), m)]) = insert (length (accepted N)) (moments (wire N i))" by auto
  show ?case unfolding set_wire_same [OF room_tells(1)]
    by (rule room_inv_wire [OF room_tells(3) wire_ok_snoc [OF at(5) told_ids [OF room_tells(3,1,2)]]])
       (unfold w, use at(4) in_step_now in blast)
next
  case (room_delivers i N h m w now jitter n')
  note at = room_inv_at [OF room_delivers(4,1)]
  note w = wire_ok_tail [OF at(5) [unfolded room_delivers(2)]]
  obtain l k where st: "in_step base v0 g ids (accepted N) (insert h (moments w)) i (clients N ! i) l k"
    using at(4) by (auto simp: room_delivers(2))
  from told_in_step [OF st at(2,3) w(1-3) room_delivers(3)] show ?case by (rule room_inv_wire [OF room_delivers(4) w(4)])
next
  case (room_loses i N w)
  note at = room_inv_at [OF room_loses(3,1)]
  note w = wire_ok_sub [OF at(5) room_loses(2)]
  obtain l k where "in_step base v0 g ids (accepted N) (moments (wire N i)) i (clients N ! i) l k" using at(4) by blast
  from in_step_fewer [OF this w(2)] have "\<exists>l k. in_step base v0 g ids (accepted N) (moments w) i (clients N ! i) l k" by blast
  then show ?case unfolding set_wire_same [OF room_loses(1)] by (rule room_inv_wire [OF room_loses(3) w(1)])
qed

lemma joined_inv: "joined base v0 g N \<Longrightarrow> room_inv base v0 g (ids_of N) (length (clients N)) N"
proof -
  assume j: "joined base v0 g N"
  have "inj_on (ids_of N) {..<length (clients N)}"
    using j by (auto simp: joined_def inj_on_def ids_of_def distinct_conv_nth)
  moreover have "authors (ids_of N) [] i \<and> in_step base v0 g (ids_of N) [] {} i (clients N ! i) base 0" if "i < length (clients N)" for i
  proof -
    have "fresh_client base v0 g (clients N ! i)" using j that by (simp add: joined_def list_all_length)
    then show ?thesis using j
      by (simp add: fresh_client_def joined_def authors_def ids_of_def in_step_def have_log_def have_sent_def history_ops_def log_of_def
          comp_of_def compositionIsActive_def behind_def)
  qed
  moreover have "wire N i = []" for i using j by (simp add: joined_def)
  ultimately show ?thesis using j by (auto simp: room_inv_def joined_def log_of_def wire_ok_def)
qed

lemma reached_inv:
  assumes "joined base v0 g N0" "(network_step base v0 g)\<^sup>*\<^sup>* N0 N"
  shows "room_inv base v0 g (ids_of N0) (length (clients N0)) N"
  using assms(2)
proof (induction rule: rtranclp_induct)
  case base
  show ?case by (rule joined_inv [OF assms(1)])
next
  case (step N N')
  then show ?case using network_step_inv by blast
qed

section \<open>What a caught-up client shows\<close>

text \<open>The log replayed from an empty document.\<close>

definition log_doc :: "crdt_op list \<Rightarrow> entry list \<Rightarrow> doc" where
  [js_eval]: "log_doc base a = foldl (\<lambda>d b. fst (applyBatch d b)) newDoc (base # map entry_ops a)"

lemma log_doc_view:
  assumes "delivered crdt_ready [] (log_of base a)"
  shows "canonical_doc (log_doc base a) \<and> get_item (log_doc base a) = log_item (log_of base a)"
proof -
  have new: "canonical_doc newDoc" "get_item newDoc = log_item []" by (auto simp: canonical_newDoc log_item_def)
  have d: "delivered crdt_ready [] ([] @ concat (base # map entry_ops a))" using assms by (simp add: log_of_def)
  show ?thesis using batches_foldl [OF new d] doc_replica.run_view [OF new d] by (simp add: log_doc_def log_of_def)
qed

lemma caught_up_view:
  assumes "in_step base v0 g ids a H i s l k" "delivered crdt_ready [] (log_of base a)" "knownVersion s = v0 + length a" "pendingOps s = []"
  shows "same_doc (log_doc base a) (the_doc s) \<and> wf_doc (log_doc base a) \<and> wf_doc (the_doc s)"
proof -
  note v = log_doc_view [OF assms(2)]
  have c: "canonical_doc (the_doc s)" "get_item (the_doc s) = log_item l" and l: "have_log base ids a i [] l (length a)"
    using assms(1,3,4) by (auto simp: in_step_def in_doc_def)
  have "set l = set (log_of base a)" using l by (auto simp: have_log_def)
  then have "log_item l = log_item (log_of base a)" by (rule log_item_set [OF have_log_ok [OF l]])
  then show ?thesis using v c canonical_same [of "log_doc base a" "the_doc s"] canonical_wf by simp
qed

end
