(* ===== verification/Settling.thy ===== *)
theory Settling
  imports Network
begin

text \<open>
  A room can always settle. From every state of a room there are steps after which every operation that was pending
  is accepted and every client is caught up: a client ends its composition, reconnects, sends its pending operations
  in batches the server accepts, and is told the entries it does not know.
\<close>

section \<open>A fresh connection\<close>

abbreviation steps :: "crdt_op list \<Rightarrow> nat \<Rightarrow> nat \<Rightarrow> network \<Rightarrow> network \<Rightarrow> bool" where
  "steps base v0 g \<equiv> (network_step base v0 g)\<^sup>*\<^sup>*"

text \<open>What a client does to its part of the network.\<close>

inductive acts :: "app \<Rightarrow> app \<Rightarrow> bool" where
  acts_done: "acts s s"
| acts_move: "\<lbrakk>acts s t; e = FlushTimerFired \<or> (\<exists>n. e = SocketClosed n) \<or> quiet e\<rbrakk> \<Longrightarrow> acts s (client_step now jitter e t)"

lemma set_client_again [simp]: "set_client i t (set_client i u N) = set_client i t N"
  by (simp add: set_client_def)

lemma set_client_same: "i < length (clients N) \<Longrightarrow> set_client i (clients N ! i) N = N"
  by (simp add: set_client_def)

lemma set_client_simps [simp]:
  "accepted (set_client i t N) = accepted N" "length (clients (set_client i t N)) = length (clients N)"
  "i < length (clients N) \<Longrightarrow> clients (set_client i t N) ! i = t"
  "j \<noteq> i \<Longrightarrow> clients (set_client i t N) ! j = clients N ! j" "wire (set_client i t N) = wire N"
  by (simp_all add: set_client_def)

text \<open>On a silent wire the server tells a client something at once.\<close>

lemma told_steps:
  assumes i: "i < length (clients N)" and m: "told base v0 g (ids_of N) (accepted N) i m" "takes (clients N ! i) m"
    and w: "wire N i = []"
  shows "steps base v0 g N (set_client i (client_step now jitter (Frame n (Some m)) (clients N ! i)) N)"
proof -
  let ?N = "set_wire i [(length (accepted N), m)] N" and ?t = "client_step now jitter (Frame n (Some m)) (clients N ! i)"
  have "network_step base v0 g N ?N" using room_tells [OF i m(1)] w by simp
  moreover have n: "clients ?N = clients N" "wire ?N i = [(length (accepted N), m)]" by (simp_all add: set_wire_def)
  then have "network_step base v0 g ?N (set_wire i [] (set_client i ?t ?N))"
    using room_delivers [of i ?N "length (accepted N)" m "[]" base v0 g now jitter n] i m(2) by simp
  moreover have "set_wire i [] (set_client i ?t ?N) = set_client i ?t N"
    using fun_upd_idem [of "wire N" i "[]"] w by (simp add: set_wire_def set_client_def)
  ultimately show ?thesis by (metis converse_rtranclp_into_rtranclp r_into_rtranclp)
qed

text \<open>All that is on its way can be lost.\<close>

lemma silent_sub: "[] \<in> set (subseqs xs)"
  by (induction xs) (simp_all add: Let_def)

lemma clear_all:
  "m \<le> length (clients N) \<Longrightarrow> \<exists>N'. steps base v0 g N N' \<and> clients N' = clients N \<and> accepted N' = accepted N \<and>
    (\<forall>i<m. wire N' i = [])"
proof (induction m)
  case 0
  show ?case by (intro exI [of _ N]) simp
next
  case (Suc m)
  then obtain M where M: "steps base v0 g N M" "clients M = clients N" "accepted M = accepted N" "\<forall>i<m. wire M i = []" by auto
  have "network_step base v0 g M (set_wire m [] M)" using Suc.prems M(2) by (intro room_loses) (simp_all add: silent_sub)
  then have "steps base v0 g N (set_wire m [] M)" using M(1) by simp
  then show ?case using M by (intro exI [of _ "set_wire m [] M"]) (simp add: set_wire_def less_Suc_eq)
qed

lemma acts_steps: "\<lbrakk>acts s t; s = clients N ! i; i < length (clients N)\<rbrakk> \<Longrightarrow> steps base v0 g N (set_client i t N)"
proof (induction rule: acts.induct)
  case (acts_done s)
  then show ?case by (simp add: set_client_same)
next
  case (acts_move s t e now jitter)
  have "network_step base v0 g (set_client i t N) (set_client i (client_step now jitter e (clients (set_client i t N) ! i)) (set_client i t N))"
    using acts_move.prems(2) acts_move.hyps(2) by (intro room_moves) simp_all
  then have "network_step base v0 g (set_client i t N) (set_client i (client_step now jitter e t) N)"
    using acts_move.prems(2) by simp
  then show ?case using acts_move.IH [OF acts_move.prems] by (rule rtranclp.rtrancl_into_rtrancl [rotated])
qed

lemma socket_count [simp]:
  "socketCount (setConnected b s) = socketCount s" "socketCount (setStatus k s) = socketCount s"
  "socketCount (emit x s) = socketCount s" "socket (emit x s) = socket s"
  by (simp_all add: setConnected_def setStatus_def emit_def)

lemma connected_socket: "socket (connectWS True jitter s) = Some (socketCount s, Connecting)"
proof -
  define u where "u = setConnected False (s\<lparr>reconnectTimer := False, intentionalClose := False\<rparr>)"
  define v where "v = setStatus (if initialSnapshotApplied u then Syncing else Pending) u"
  define w where "w = (case socket v of None \<Rightarrow> v | Some (n, r) \<Rightarrow> emit (CloseSocket n) (v\<lparr>socket := None\<rparr>))"
  have "connectWS True jitter s = emit (NewSocket (socketCount w))
      (w\<lparr>socket := Some (socketCount w, Connecting), socketCount := socketCount w + 1\<rparr>)"
    unfolding connectWS_def Let_def u_def [symmetric] v_def [symmetric] w_def [symmetric] by simp
  moreover have "socketCount w = socketCount v" by (simp add: w_def split: option.splits)
  ultimately show ?thesis by (simp add: v_def u_def)
qed

lemma opened_line: "is_current n s \<Longrightarrow> socket (ws_onopen n now s) = Some (n, Open) \<and> ws_connected (ws_onopen n now s)"
  by (simp add: ws_onopen_def stopRestPoll_def setConnected_def setIdleStatus_def setStatus_def scheduleCursorSend_def
      startPresenceHeartbeat_def stopPresenceHeartbeat_def emit_def Let_def)

lemma settings_line:
  "socket (onSettingsChange s) = socket s \<and> ws_connected (onSettingsChange s) = ws_connected s \<and>
   ttlValue (onSettingsChange s) = ttlValue s \<and> ttlUnit (onSettingsChange s) = ttlUnit s"
  by (simp add: onSettingsChange_def checkTTL_def scheduleFlush_def setStatus_def emit_def Let_def)

text \<open>A client can be on an open line with nothing in flight.\<close>

lemma fresh_line: "\<exists>t. acts s t \<and> line_open t \<and> core t = core (s\<lparr>sentBatches := []\<rparr>)"
proof -
  define a where "a = client_step 0 0 (ReconnectTimerFired True) s"
  define b where "b = client_step 0 0 (SocketClosed (socketCount s)) a"
  define c where "c = client_step 0 0 (ReconnectTimerFired True) b"
  define d where "d = client_step 0 0 (SocketOpened (socketCount b)) c"
  define e where "e = client_step 0 0 (TtlChanged (ttlValue (setTTLControls 3600 d)) (ttlUnit (setTTLControls 3600 d))) d"
  have "acts s a" unfolding a_def by (rule acts_move [OF acts_done]) simp
  then have "acts s b" unfolding b_def by (rule acts_move) simp
  then have "acts s c" unfolding c_def by (rule acts_move) simp
  then have "acts s d" unfolding d_def by (rule acts_move) simp
  then have "acts s e" unfolding e_def by (rule acts_move) simp
  moreover have "line_open e"
  proof -
    have "is_current (socketCount b) c" by (simp add: c_def client_step_def connected_socket is_current_def)
    then have d: "socket d = Some (socketCount b, Open)" "ws_connected d" by (simp_all add: d_def client_step_def opened_line)
    have "readTTLSeconds e = readTTLSeconds (setTTLControls 3600 d)"
      by (simp add: e_def client_step_def readTTLSeconds_def settings_line)
    then show ?thesis using ttl_read_set [of 3600 d] d
      by (simp add: line_open_def socket_open_def e_def client_step_def settings_line max_safe_def)
  qed
  moreover have "core e = core (s\<lparr>sentBatches := []\<rparr>)"
  proof -
    have a: "core a = core s" "is_current (socketCount s) a"
      by (simp_all add: a_def client_step_def connected_socket is_current_def)
    have "core b = core (a\<lparr>sentBatches := []\<rparr>)" using closed_core [OF a(2)] by (simp add: b_def client_step_def)
    also have "\<dots> = core (s\<lparr>sentBatches := []\<rparr>)" using core_frame [OF a(1)] by (simp add: core_def)
    finally show ?thesis by (simp add: e_def d_def c_def client_step_def)
  qed
  ultimately show ?thesis by blast
qed

section \<open>Sending what is pending\<close>

lemma flush_posts:
  assumes "line_open s" "sentBatches s = []" "list_all (\<lambda>x. op_id x \<noteq> []) (pendingOps s)" "pendingOps s \<noteq> []"
  shows "(nextSeq s, take 1000 (pendingOps s)) \<in> set (posted (flushTimer_fired now s))"
proof -
  let ?s = "s\<lparr>flushTimer := False\<rparr>"
  have u: "unsent ?s = pendingOps s" using assms(2,3) by (simp add: unsent_def outstanding_def list_all_iff)
  have l: "readTTLSeconds ?s \<noteq> 0" "ws_connected ?s \<and> socket_open ?s"
    using assms(1) line_open_cong [of ?s s] by (simp_all add: line_open_def)
  have b: "(if maxOpsPerSend < length (pendingOps s) then take maxOpsPerSend (pendingOps s) else pendingOps s) = take 1000 (pendingOps s)"
    by (simp add: maxOpsPerSend_def)
  show ?thesis
    unfolding flushTimer_fired_def flushPending_def Let_def u b using l assms(4) by simp
qed

lemma ack_pending:
  assumes "is_current n u" "map_of (sentBatches u) q = Some b"
    and "m_type m = js ''ack''" "m_seq m = Some q" "or_empty (m_error m) = []"
  shows "pendingOps (ws_onmessage n now (Some m) u) = drop_acked (sb_ids b) (pendingOps u)"
proof -
  have "ws_onmessage n now (Some m) u = handleAck m (emit (PulseTraffic Down) (u\<lparr>lastMsgAt := now\<rparr>))"
    using assms(1,3) by (simp add: ws_onmessage_def Let_def js_def)
  then show ?thesis using assms(2,4,5) by (simp add: handleAck_def Let_def js_def)
qed

text \<open>The acknowledgement of entry \<open>j\<close>, and its broadcast, as messages.\<close>

definition ack_msg :: "nat \<Rightarrow> nat \<Rightarrow> entry list \<Rightarrow> nat \<Rightarrow> msg" where
  [js_eval]: "ack_msg v0 g a j = demo_msg\<lparr>m_type := js ''ack'', m_version := Some (v0 + j + 1),
     m_generation := Some (Fin (of_nat g)), m_seq := Some (fst (snd (a ! j)))\<rparr>"

definition ops_msg :: "nat \<Rightarrow> nat \<Rightarrow> (nat \<Rightarrow> jsstring) \<Rightarrow> entry list \<Rightarrow> nat \<Rightarrow> msg" where
  [js_eval]: "ops_msg v0 g ids a j = demo_msg\<lparr>m_type := js ''ops'', m_version := Some (v0 + j + 1),
     m_generation := Some (Fin (of_nat g)), m_ops := Some (entry_ops (a ! j)), m_updatedBy := Some (ids (fst (a ! j)))\<rparr>"

lemma ack_msg_frame: "j < length a \<Longrightarrow> ack_frame v0 g a j (ack_msg v0 g a j)"
  by (simp add: ack_frame_def of_generation_def ack_msg_def demo_msg_def)

lemma ops_msg_frame: "j < length a \<Longrightarrow> ops_frame v0 g ids a j (ops_msg v0 g ids a j)"
  by (simp add: ops_frame_def of_generation_def ops_msg_def demo_msg_def)

text \<open>What a stretch of steps for client \<open>i\<close> leaves alone; it begins and ends no composition.\<close>

definition composes :: "network \<Rightarrow> nat \<Rightarrow> bool" where
  "composes N i \<longleftrightarrow> compositionIsActive (clients N ! i)"

definition only_client :: "nat \<Rightarrow> network \<Rightarrow> network \<Rightarrow> bool" where
  "only_client i N N' \<longleftrightarrow> length (clients N') = length (clients N) \<and> (\<forall>j. j \<noteq> i \<longrightarrow> clients N' ! j = clients N ! j) \<and>
     composes N' i = composes N i \<and> wire N' = wire N \<and> (\<exists>b. accepted N' = accepted N @ b)"

lemma only_client_trans: "\<lbrakk>only_client i N N'; only_client i N' N''\<rbrakk> \<Longrightarrow> only_client i N N''"
  by (auto simp: only_client_def)

lemma drop_sent:
  assumes "have_log base ids a i p l k" "x \<in> set p"
  shows "x \<in> set (drop_acked (remdups (map opKey (take m p))) p) \<or> x \<in> set (take m p)"
proof (rule disjCI)
  assume "x \<notin> set (take m p)"
  have "opKey x \<noteq> opKey y" if y: "y \<in> set (take m p)" for y
  proof
    assume k: "opKey x = opKey y"
    have p: "x \<in> set l" "y \<in> set l" "own_op (ids i) x" "own_op (ids i) y"
      using assms y by (auto simp: have_log_def list_all_iff dest: in_set_takeD)
    have "is_ins z \<or> is_del z" if "z \<in> set l" for z using delivered_kinds [of "[]" l z] that assms(1) by (simp add: have_log_def)
    then have "x = y" using key_same [OF have_log_ok [OF assms(1)] p k] p(1,2) by blast
    then show False using y \<open>x \<notin> set (take m p)\<close> by simp
  qed
  then show "x \<in> set (drop_acked (remdups (map opKey (take m p))) p)" using assms(2) by (auto simp: drop_acked_def)
qed

lemma drop_fewer: "\<lbrakk>x \<in> set p; op_id x \<noteq> []; opKey x \<in> set ks\<rbrakk> \<Longrightarrow> length (drop_acked ks p) < length p"
  unfolding drop_acked_def by (rule length_filter_less) simp_all

text \<open>Neither a flush nor an acknowledgement touches the composition.\<close>

lemma flushed_comp: "comp_of (flushTimer_fired now s) = comp_of s"
  by (simp add: flushTimer_fired_def flushPending_def Let_def comp_of_def)

lemmas comp_frame = core_rules [THEN comp_core]

lemma acked_comp: "comp_of (handleAck m s) = comp_of s"
proof -
  have b: "comp_of (ack_batch q s) = comp_of s" for q s by (simp add: ack_batch_def)
  have "comp_of (ack_accepted m s) = comp_of s" for s
    unfolding ack_accepted_def Let_def by (simp add: comp_frame)
  then show ?thesis unfolding handleAck_def Let_def by (simp add: comp_frame b split: option.split)
qed

lemma drain_step:
  assumes inv: "room_inv base v0 g ids n N" and i: "i < length (clients N)" and p: "pendingOps (clients N ! i) \<noteq> []"
    and w: "wire N i = []"
  shows "\<exists>N'. steps base v0 g N N' \<and> only_client i N N' \<and>
    length (pendingOps (clients N' ! i)) < length (pendingOps (clients N ! i)) \<and>
    set (pendingOps (clients N ! i)) \<subseteq> set (log_of base (accepted N')) \<union> set (pendingOps (clients N' ! i))"
proof -
  let ?p = "pendingOps (clients N ! i)" and ?a = "accepted N"
  obtain t where t: "acts (clients N ! i) t" "line_open t" "core t = core ((clients N ! i)\<lparr>sentBatches := []\<rparr>)"
    using fresh_line by blast
  have f: "pendingOps t = ?p" "sentBatches t = []" using core_frame [OF t(3)] by simp_all
  let ?N1 = "set_client i t N"
  have s1: "steps base v0 g N ?N1" by (rule acts_steps [OF t(1) refl i])
  obtain l k where st: "in_step base v0 g ids ?a (moments (wire N i)) i (clients N ! i) l k" using room_inv_at(4) [OF inv i] by blast
  then have hl: "have_log base ids ?a i ?p l k" by (simp add: in_step_def)
  then have dl: "delivered crdt_ready (log_of base ?a) ?p" by (simp add: have_log_def)
  have ne: "list_all (\<lambda>x. op_id x \<noteq> []) ?p"
    using delivered_ids [OF dl] canonical_nonempty by (auto simp: list_all_iff)
  define u where "u = flushTimer_fired 0 t"
  have u: "pendingOps u = ?p" "sentBatches u = [(nextSeq t, \<lparr>sb_ids = remdups (map opKey (take 1000 ?p)), sb_at = 0\<rparr>)]"
    "line u = line t" "(nextSeq t, take 1000 ?p) \<in> set (posted u)"
    using flush_idle_line [OF t(2), of 0] flush_posts [OF t(2), of 0] f ne p by (simp_all add: u_def)
  let ?N2 = "set_client i u N" and ?e = "(i, nextSeq t, take 1000 ?p)"
  let ?N3 = "?N2\<lparr>accepted := ?a @ [?e]\<rparr>" and ?m = "ack_msg v0 g (?a @ [?e]) (length ?a)"
  have s2: "network_step base v0 g ?N1 ?N2"
    using room_moves [of i ?N1 FlushTimerFired base v0 g 0 0] i by (simp add: client_step_def u_def)
  have "delivered crdt_ready (log_of base ?a) (take 1000 ?p @ drop 1000 ?p)" using dl by simp
  then have "delivered crdt_ready (log_of base ?a) (take 1000 ?p)" unfolding delivered_append by blast
  then have s3: "network_step base v0 g ?N2 ?N3"
    using room_accepts [of i ?N2 "nextSeq t" "take 1000 ?p" base v0 g] u(4) i p by simp
  obtain c where c: "is_current c u"
    using t(2) u(3) by (auto simp: line_open_def line_def socket_open_def is_current_def split: option.splits)
  let ?v = "client_step 0 0 (Frame c (Some ?m)) u" let ?N4 = "set_client i ?v ?N3"
  have "told base v0 g (ids_of ?N3) (accepted ?N3) i ?m"
    using ack_msg_frame [of "length ?a" "?a @ [?e]" v0 g] by (auto simp: told_def)
  moreover have "takes u ?m" by (simp add: takes_def ack_msg_def demo_msg_def js_def)
  ultimately have s4: "steps base v0 g ?N3 ?N4" using told_steps [of i ?N3 base v0 g ?m 0 0 c] i w by simp
  have v: "pendingOps ?v = drop_acked (remdups (map opKey (take 1000 ?p))) ?p"
    using ack_pending [OF c, of "nextSeq t" _ ?m 0] u(1,2) by (simp add: client_step_def ack_msg_def demo_msg_def)
  have "hd ?p \<in> set (take 1000 ?p)" using p by (cases ?p) simp_all
  then have "length (pendingOps ?v) < length ?p"
    unfolding v using ne p by (intro drop_fewer [of "hd ?p"]) (auto simp: list_all_iff)
  moreover have "set ?p \<subseteq> set (log_of base (accepted ?N4)) \<union> set (pendingOps ?v)"
    unfolding v using drop_sent [OF hl] by (auto simp: entry_ops_def)
  moreover have "steps base v0 g N ?N4" using s1 s2 s3 s4 by (meson rtranclp.rtrancl_into_rtrancl rtranclp_trans)
  moreover have "compositionIsActive ?v = compositionIsActive (clients N ! i)"
  proof -
    have "comp_of t = comp_of (clients N ! i)" using comp_core [OF t(3)] by simp
    then have "comp_of u = comp_of (clients N ! i)" by (simp add: u_def flushed_comp)
    moreover have "comp_of ?v = comp_of u"
      using c by (simp add: client_step_def ws_onmessage_def acked_comp comp_frame ack_msg_def demo_msg_def Let_def js_def)
    ultimately show ?thesis using composing_comp [of ?v "clients N ! i"] by simp
  qed
  then have "only_client i N ?N4" using i by (simp add: only_client_def composes_def)
  ultimately show ?thesis using i by (intro exI [of _ ?N4]) simp
qed

lemma steps_inv: "\<lbrakk>steps base v0 g N N'; room_inv base v0 g ids n N\<rbrakk> \<Longrightarrow> room_inv base v0 g ids n N'"
  by (induction rule: rtranclp_induct) (auto intro: network_step_inv)

lemma log_of_grows: "only_client i N N' \<Longrightarrow> set (log_of base (accepted N)) \<subseteq> set (log_of base (accepted N'))"
  by (auto simp: only_client_def log_of_def)

lemma drain_client:
  assumes "room_inv base v0 g ids n N" "i < length (clients N)" "wire N i = []"
  shows "\<exists>N'. steps base v0 g N N' \<and> only_client i N N' \<and> pendingOps (clients N' ! i) = [] \<and>
    set (pendingOps (clients N ! i)) \<subseteq> set (log_of base (accepted N'))"
  using assms
proof (induction "length (pendingOps (clients N ! i))" arbitrary: N rule: less_induct)
  case less
  show ?case
  proof (cases "pendingOps (clients N ! i) = []")
    case True
    then show ?thesis by (intro exI [of _ N]) (simp add: only_client_def)
  next
    case False
    obtain M where M: "steps base v0 g N M" "only_client i N M"
      "length (pendingOps (clients M ! i)) < length (pendingOps (clients N ! i))"
      "set (pendingOps (clients N ! i)) \<subseteq> set (log_of base (accepted M)) \<union> set (pendingOps (clients M ! i))"
      using drain_step [OF less.prems(1,2) False less.prems(3)] by blast
    have "i < length (clients M)" "wire M i = []" using M(2) less.prems(2,3) by (simp_all add: only_client_def)
    then obtain N' where N': "steps base v0 g M N'" "only_client i M N'" "pendingOps (clients N' ! i) = []"
      "set (pendingOps (clients M ! i)) \<subseteq> set (log_of base (accepted N'))"
      using less.hyps [OF M(3) steps_inv [OF M(1) less.prems(1)]] by blast
    have "steps base v0 g N N'" using M(1) N'(1) by simp
    moreover have "set (pendingOps (clients N ! i)) \<subseteq> set (log_of base (accepted N'))"
      using M(4) N'(4) log_of_grows [OF N'(2)] by blast
    ultimately show ?thesis using only_client_trans [OF M(2) N'(2)] N'(3) by blast
  qed
qed

text \<open>One client after the other.\<close>

definition grows :: "network \<Rightarrow> network \<Rightarrow> bool" where
  "grows N N' \<longleftrightarrow> length (clients N') = length (clients N) \<and> (\<forall>i<length (clients N). composes N' i = composes N i) \<and>
     wire N' = wire N \<and> (\<exists>b. accepted N' = accepted N @ b)"

lemma drain_all:
  assumes inv: "room_inv base v0 g ids n N" and w: "\<forall>i<length (clients N). wire N i = []"
  shows "m \<le> length (clients N) \<Longrightarrow> \<exists>N'. steps base v0 g N N' \<and> grows N N' \<and>
    (\<forall>i<m. pendingOps (clients N' ! i) = [] \<and> set (pendingOps (clients N ! i)) \<subseteq> set (log_of base (accepted N'))) \<and>
    (\<forall>i\<ge>m. clients N' ! i = clients N ! i)"
proof (induction m)
  case 0
  show ?case by (intro exI [of _ N]) (simp add: grows_def)
next
  case (Suc m)
  then obtain M where M: "steps base v0 g N M" "grows N M"
    "\<forall>i<m. pendingOps (clients M ! i) = [] \<and> set (pendingOps (clients N ! i)) \<subseteq> set (log_of base (accepted M))"
    "\<forall>i\<ge>m. clients M ! i = clients N ! i" by auto
  have "m < length (clients M)" "wire M m = []" using Suc.prems M(2) w by (simp_all add: grows_def)
  then obtain N' where N': "steps base v0 g M N'" "only_client m M N'" "pendingOps (clients N' ! m) = []"
    "set (pendingOps (clients M ! m)) \<subseteq> set (log_of base (accepted N'))"
    using drain_client [OF steps_inv [OF M(1) inv]] by blast
  have "steps base v0 g N N'" using M(1) N'(1) by simp
  moreover have "composes N' i = composes M i" for i
    using N'(2) by (cases "i = m") (auto simp: only_client_def composes_def)
  then have "grows N N'" using M(2) N'(2) by (auto simp: grows_def only_client_def)
  moreover have "pendingOps (clients N' ! i) = [] \<and> set (pendingOps (clients N ! i)) \<subseteq> set (log_of base (accepted N'))"
    if "i < Suc m" for i
  proof (cases "i = m")
    case False
    then have i: "i < m" "clients N' ! i = clients M ! i" using that N'(2) by (auto simp: only_client_def)
    then show ?thesis using M(3) log_of_grows [OF N'(2), of base] by auto
  qed (use N'(3,4) M(4) in simp)
  moreover have "clients N' ! i = clients N ! i" if "Suc m \<le> i" for i
    using that M(4) N'(2) by (simp add: only_client_def)
  ultimately show ?case by blast
qed

section \<open>Telling what is not known\<close>

lemma tell_step:
  assumes inv: "room_inv base v0 g ids n N" and i: "i < length (clients N)" and p: "pendingOps (clients N ! i) = []"
    and v: "knownVersion (clients N ! i) < v0 + length (accepted N)" and nc: "\<not> composes N i"
    and w: "wire N i = []"
  shows "\<exists>t. steps base v0 g N (set_client i t N) \<and> pendingOps t = [] \<and> \<not> compositionIsActive t \<and>
    knownVersion t = Suc (knownVersion (clients N ! i))"
proof -
  let ?a = "accepted N"
  note at = room_inv_at [OF inv i]
  obtain l k where st: "in_step base v0 g ids ?a (moments (wire N i)) i (clients N ! i) l k" using at(4) by blast
  have k: "knownVersion (clients N ! i) = v0 + k" "k < length ?a" using st v by (simp_all add: in_step_def)
  obtain t where t: "acts (clients N ! i) t" "line_open t" "core t = core ((clients N ! i)\<lparr>sentBatches := []\<rparr>)"
    using fresh_line by blast
  have "in_step base v0 g ids ?a (moments (wire N i)) i ((clients N ! i)\<lparr>sentBatches := []\<rparr>) l k"
    using have_sent_fewer [of ids ?a i _ _ _ l "[]"] st by (intro in_step_change [OF st]) (auto simp: in_step_def)
  then have tin: "in_step base v0 g ids ?a (moments (wire N i)) i t l k" using in_step_core [OF t(3)] by simp
  obtain c where c: "is_current c t"
    using t(2) by (auto simp: line_open_def socket_open_def is_current_def split: option.splits)
  let ?m = "ops_msg v0 g ids ?a k" and ?N1 = "set_client i t N" and ?u = "emit (PulseTraffic Down) (t\<lparr>lastMsgAt := 0\<rparr>)"
  define u where "u = handleRemoteOps 0 ?m ?u"
  have uin: "in_step base v0 g ids ?a (moments (wire N i)) i ?u l k" using tin in_step_core [of ?u t] by simp
  have "comp_of t = comp_of (clients N ! i)" using comp_core [OF t(3)] by simp
  then have nu: "\<not> compositionIsActive t" "\<not> compositionIsActive ?u"
    using nc composing_comp [of t "clients N ! i"] composing_comp [OF comp_core, of ?u t] by (simp_all add: composes_def)
  have "client_step 0 0 (Frame c (Some ?m)) t = u"
    using c nu by (simp add: client_step_def ws_onmessage_def u_def ops_msg_def Let_def js_def)
  moreover have s1: "steps base v0 g N ?N1" by (rule acts_steps [OF t(1) refl i])
  have "ids_of ?N1 (fst (?a ! k)) = ids (fst (?a ! k))"
    using ids_agree [OF steps_inv [OF s1 inv]] inv nth_mem [OF k(2)] by (simp add: room_inv_def)
  then have "ops_frame v0 g (ids_of ?N1) (accepted ?N1) k ?m"
    using ops_msg_frame [OF k(2), of v0 g ids] by (simp add: ops_frame_def)
  then have "told base v0 g (ids_of ?N1) (accepted ?N1) i ?m" unfolding told_def by blast
  moreover have "takes t ?m" by (simp add: takes_def ops_msg_def js_def)
  ultimately have "steps base v0 g ?N1 (set_client i u N)"
    using told_steps [of i ?N1 base v0 g ?m 0 0 c] i w by simp
  then have "steps base v0 g N (set_client i u N)" using s1 by (rule rtranclp_trans [rotated])
  moreover obtain l' where "in_step base v0 g ids ?a (moments (wire N i)) i u l' (Suc k)" "set (pendingOps u) \<subseteq> set (pendingOps ?u)"
    "comp_of u = comp_of ?u"
    using remote_in_step [OF uin at(2,3) ops_msg_frame [OF k(2)] nu(2), of 0] w by (auto simp: u_def)
  moreover from this(3) have "\<not> compositionIsActive u" using composing_comp nu(2) by metis
  moreover have "pendingOps ?u = []" using core_frame(4) [OF t(3)] p by simp
  ultimately show ?thesis using k(1) by (intro exI [of _ u]) (simp add: in_step_def)
qed

lemma catch_up_client:
  assumes "room_inv base v0 g ids n N" "i < length (clients N)" "pendingOps (clients N ! i) = []" "\<not> composes N i" "wire N i = []"
  shows "\<exists>t. steps base v0 g N (set_client i t N) \<and> caught_up v0 (set_client i t N) i"
  using assms
proof (induction "v0 + length (accepted N) - knownVersion (clients N ! i)" arbitrary: N rule: less_induct)
  case less
  obtain l k where st: "in_step base v0 g ids (accepted N) (moments (wire N i)) i (clients N ! i) l k" using room_inv_at(4) [OF less.prems(1,2)] by blast
  then have le: "knownVersion (clients N ! i) \<le> v0 + length (accepted N)" by (simp add: in_step_def have_log_def)
  show ?case
  proof (cases "knownVersion (clients N ! i) = v0 + length (accepted N)")
    case True
    then show ?thesis using less.prems by (intro exI [of _ "clients N ! i"]) (simp add: set_client_same caught_up_def)
  next
    case False
    then obtain t where t: "steps base v0 g N (set_client i t N)" "pendingOps t = []" "\<not> compositionIsActive t"
      "knownVersion t = Suc (knownVersion (clients N ! i))" using tell_step [OF less.prems(1-3) _ less.prems(4,5)] le by auto
    have "\<exists>u. steps base v0 g (set_client i t N) (set_client i u (set_client i t N)) \<and>
        caught_up v0 (set_client i u (set_client i t N)) i"
      using less.prems t le False by (intro less.hyps steps_inv [OF t(1)]) (simp_all add: composes_def)
    then show ?thesis using t(1) by (metis rtranclp_trans set_client_again)
  qed
qed

lemma catch_up_all:
  assumes inv: "room_inv base v0 g ids n N" 
    and p: "\<forall>i<length (clients N). pendingOps (clients N ! i) = [] \<and> \<not> composes N i \<and> wire N i = []"
  shows "m \<le> length (clients N) \<Longrightarrow> \<exists>N'. steps base v0 g N N' \<and> accepted N' = accepted N \<and> wire N' = wire N \<and>
    length (clients N') = length (clients N) \<and> (\<forall>i<m. caught_up v0 N' i) \<and> (\<forall>i\<ge>m. clients N' ! i = clients N ! i)"
proof (induction m)
  case 0
  show ?case by (intro exI [of _ N]) simp
next
  case (Suc m)
  then obtain M where M: "steps base v0 g N M" "accepted M = accepted N" "length (clients M) = length (clients N)"
    "\<forall>i<m. caught_up v0 M i" "\<forall>i\<ge>m. clients M ! i = clients N ! i" "wire M = wire N" by auto
  obtain t where t: "steps base v0 g M (set_client m t M)" "caught_up v0 (set_client m t M) m"
    using catch_up_client [OF steps_inv [OF M(1) inv], of m] Suc.prems p M(3,5,6) by (auto simp: composes_def)
  have "caught_up v0 (set_client m t M) i" if "i < Suc m" for i
  proof (cases "i = m")
    case False
    then show ?thesis using that M(4) by (simp add: caught_up_def)
  qed (use t(2) in simp)
  moreover have "steps base v0 g N (set_client m t M)" using M(1) t(1) by simp
  ultimately show ?case using M by (intro exI [of _ "set_client m t M"]) simp
qed

section \<open>Ending the compositions\<close>

text \<open>A client whose clock has room ends its composition and commits it; what was pending still is, or is in the log.\<close>

lemma finish_client:
  assumes inv: "room_inv base v0 g ids n N" and i: "i < length (clients N)"
    and m: "composes N i \<Longrightarrow> exact_clock (clients N ! i) (content (clients N ! i))"
  shows "\<exists>t. steps base v0 g N (set_client i t N) \<and> \<not> compositionIsActive t \<and>
    set (pendingOps (clients N ! i)) \<subseteq> set (pendingOps t) \<union> set (log_of base (accepted N))"
proof (cases "composes N i")
  case True
  let ?s = "clients N ! i"
  define t where "t = client_step 0 0 CompositionEnd ?s"
  define u where "u = client_step 0 0 CommitTimer t"
  have "network_step base v0 g N (set_client i t N)"
    unfolding t_def by (rule room_edits [OF i refl]) simp
  moreover from this have inv1: "room_inv base v0 g ids n (set_client i t N)" using network_step_inv inv by blast
  have t: "the_doc t = the_doc ?s" "localClock t = localClock ?s" "content t = content ?s" "pendingOps t = pendingOps ?s"
    "compositionCommitPending t"
    using True by (auto simp: t_def client_step_def onCompositionEnd_def composes_def compositionIsActive_def emit_def)
  have ex: "exact_clock t (content t)" using m [OF True] t(1-3) by (simp add: exact_clock_def clock_after_bump_def)
  then have "network_step base v0 g (set_client i t N) (set_client i u (set_client i t N))"
    using i by (intro room_edits [where e = CommitTimer and now = 0 and jitter = 0]) (simp_all add: u_def)
  moreover have "\<exists>l' k'. in_step base v0 g ids (accepted N) (moments (wire N i)) i (commitComposition 0 t) l' k' \<and>
      set (pendingOps t) \<subseteq> set (pendingOps (commitComposition 0 t)) \<union> set (log_of base (accepted N)) \<and>
      (compositionCommitPending t \<longrightarrow> \<not> compositionIsActive (commitComposition 0 t))"
  proof -
    obtain l k where "in_step base v0 g ids (accepted N) (moments (wire N i)) i t l k" using room_inv_at(4) [OF inv1, of i] i by auto
    then show ?thesis using room_inv_at(2,3) [OF inv i] ex by (intro commit_in_step) (simp_all add: exact_clock_def)
  qed
  then have "\<not> compositionIsActive u" "set (pendingOps t) \<subseteq> set (pendingOps u) \<union> set (log_of base (accepted N))"
    using t(5) by (auto simp: u_def client_step_def)
  ultimately show ?thesis using t(4) by (intro exI [of _ u]) auto
next
  case False
  then show ?thesis using i by (intro exI [of _ "clients N ! i"]) (simp add: set_client_same composes_def)
qed

lemma finish_all:
  assumes inv: "room_inv base v0 g ids n N"
    and c: "\<forall>i<length (clients N). composes N i \<longrightarrow> exact_clock (clients N ! i) (content (clients N ! i))"
  shows "m \<le> length (clients N) \<Longrightarrow> \<exists>N'. steps base v0 g N N' \<and> accepted N' = accepted N \<and>
    length (clients N') = length (clients N) \<and>
    (\<forall>i<m. \<not> composes N' i \<and>
       set (pendingOps (clients N ! i)) \<subseteq> set (pendingOps (clients N' ! i)) \<union> set (log_of base (accepted N))) \<and>
    (\<forall>i\<ge>m. clients N' ! i = clients N ! i)"
proof (induction m)
  case 0
  show ?case by (intro exI [of _ N]) simp
next
  case (Suc m)
  then obtain M where M: "steps base v0 g N M" "accepted M = accepted N" "length (clients M) = length (clients N)"
    "\<forall>i<m. \<not> composes M i \<and>
       set (pendingOps (clients N ! i)) \<subseteq> set (pendingOps (clients M ! i)) \<union> set (log_of base (accepted N))"
    "\<forall>i\<ge>m. clients M ! i = clients N ! i" by auto
  obtain t where t: "steps base v0 g M (set_client m t M)" "\<not> compositionIsActive t"
    "set (pendingOps (clients M ! m)) \<subseteq> set (pendingOps t) \<union> set (log_of base (accepted M))"
    using finish_client [OF steps_inv [OF M(1) inv], of m] Suc.prems M(3,5) c by (auto simp: composes_def)
  have "\<not> composes (set_client m t M) i \<and> set (pendingOps (clients N ! i)) \<subseteq>
      set (pendingOps (clients (set_client m t M) ! i)) \<union> set (log_of base (accepted N))" if "i < Suc m" for i
  proof (cases "i = m")
    case True
    then show ?thesis using t(2,3) M(2,3,5) Suc.prems by (simp add: composes_def)
  next
    case False
    then show ?thesis using that M(4) by (simp add: composes_def)
  qed
  moreover have "steps base v0 g N (set_client m t M)" using M(1) t(1) by simp
  ultimately show ?case using M by (intro exI [of _ "set_client m t M"]) simp
qed

end
