(* ===== verification/NetworkProps.thy ===== *)
theory NetworkProps
  imports Settling
begin

text \<open>
  The properties of clients in one room, with a run of two clients that reaches the end: one types, its batch is
  accepted, and both are told.
\<close>

section \<open>A run\<close>


definition demo_ids :: "jsstring list" where
  [js_eval]: "demo_ids = [js ''00000000000000aa'', js ''00000000000000bb'']"

















section \<open>Properties\<close>









end
