(* ===== verification/CompositionProps.thy ===== *)
theory CompositionProps
  imports Settling
begin

text \<open>
  What compositions lose. Two ways in which a text the user typed leaves the room: a composition that begins before
  the last one was committed, and a snapshot that waits behind a composition while the acknowledgement after it does
  not. And what a refusal that is not about a password does to the operations it refuses.
\<close>

section \<open>A commit that changes nothing\<close>

lemma paint_shows:
  "normalize_newlines v = v \<Longrightarrow> ed_value (content (paint v sel s)) = v"
  by (simp add: paint_def setContentValue_def restoreSelection_def setSelectionRange_def set_value_def emit_def Let_def)

lemma show_value [simp]:
  "ed_value (content (scheduleCursorSend s)) = ed_value (content s)" "ed_value (content (emit e s)) = ed_value (content s)"
  "ed_value (content (onLocalTextChanged a b s)) = ed_value (content s)" "ed_value (content (scheduleFlush s)) = ed_value (content s)"
  by (simp_all add: scheduleCursorSend_def emit_def onLocalTextChanged_def shiftRemoteCursorsByText_def
      scheduleFlush_def setStatus_def Let_def)

lemma loaded_frame [simp]:
  "initialSnapshotApplied (emit e s) = initialSnapshotApplied s" "initialSnapshotApplied (setStatus k s) = initialSnapshotApplied s"
  "initialSnapshotApplied (scheduleFlush s) = initialSnapshotApplied s"
  "initialSnapshotApplied (setIdleStatus s) = initialSnapshotApplied s"
  "initialSnapshotApplied (updateMeta m s) = initialSnapshotApplied s"
  "initialSnapshotApplied (scheduleCursorSend s) = initialSnapshotApplied s"
  "initialSnapshotApplied (onLocalTextChanged a b s) = initialSnapshotApplied s"
  "initialSnapshotApplied (paint v sel s) = initialSnapshotApplied s"
  "initialSnapshotApplied (bumpClockFromDoc s) = initialSnapshotApplied s"
  "initialSnapshotApplied (ack_accepted m s) = initialSnapshotApplied s"
  by (simp_all add: emit_def setStatus_def scheduleFlush_def setIdleStatus_def updateMeta_def announceFirstSave_def
      scheduleCursorSend_def onLocalTextChanged_def shiftRemoteCursorsByText_def paint_def setContentValue_def restoreSelection_def
      bumpClockFromDoc_def ack_accepted_def Let_def)

text \<open>The editor has the text it had when the composition began: no operation is made, and the editor is painted.\<close>

lemma idle_commit:
  assumes "compositionCommitPending s" "compositionBaseDoc s = Some d" "ed_value (content s) = compositionBaseText s"
  shows "\<exists>u. commitComposition now s = flushDeferredContentMessages now u \<and>
    core u = core ((bumpClockFromDoc s)\<lparr>compositionBaseText := [], compositionBaseDoc := None, compositionCommitPending := False\<rparr>) \<and>
    initialSnapshotApplied u = initialSnapshotApplied s \<and>
    (normalize_newlines (materialize (the_doc s)) = materialize (the_doc s) \<longrightarrow> ed_value (content u) = materialize (the_doc s))"
proof -
  let ?b = "bumpClockFromDoc s"
  let ?t = "?b\<lparr>compositionBaseText := [], compositionBaseDoc := None, compositionInputPending := False,
    compositionCommitPending := False\<rparr>"
  let ?nxt = "materialize (the_doc s)"
  let ?p = "scheduleCursorSend (emit RenderCursors (onLocalTextChanged ?nxt ?nxt
    (paint ?nxt (captureTextSelection (ed_value (content s)) s) ?t)))"
  define u where "u = (if pendingOps ?p \<noteq> [] then scheduleFlush ?p else ?p)"
  have "commitComposition now s = flushDeferredContentMessages now u"
    using assms by (simp add: commitComposition_def commit_diff_def diff_same bump_core u_def Let_def)
  moreover have "core u = core (?b\<lparr>compositionBaseText := [], compositionBaseDoc := None, compositionCommitPending := False\<rparr>)"
    by (simp add: u_def) (simp add: core_def posted_def)
  moreover have "normalize_newlines ?nxt = ?nxt \<longrightarrow> ed_value (content u) = ?nxt"
    using paint_shows [of ?nxt] by (simp add: u_def)
  moreover have "initialSnapshotApplied u = initialSnapshotApplied s" by (simp add: u_def)
  ultimately show ?thesis by blast
qed



section \<open>A snapshot behind a composition\<close>

lemma drop_all: "\<forall>x\<in>set ops. op_id x \<noteq> [] \<and> opKey x \<in> set ks \<Longrightarrow> drop_acked ks ops = []"
  by (simp add: drop_acked_def)

lemma editor_frame [simp]:
  "content (emit e s) = content s" "content (setStatus k s) = content s" "content (scheduleFlush s) = content s"
  "content (setIdleStatus s) = content s" "content (updateMeta m s) = content s"
  by (simp_all add: emit_def setStatus_def scheduleFlush_def setIdleStatus_def updateMeta_def announceFirstSave_def Let_def)

text \<open>A content message that arrives during a composition joins the queue; an acknowledgement is handled at once.\<close>

lemma frame_queued:
  assumes "is_current n s" "compositionIsActive s" "m_type m = js ''state''"
  shows "client_step now jitter (Frame n (Some m)) s =
    (emit (PulseTraffic Down) (s\<lparr>lastMsgAt := now\<rparr>))\<lparr>deferredContentMessages := deferredContentMessages s @ [DMsg m]\<rparr>"
proof -
  let ?u = "emit (PulseTraffic Down) (s\<lparr>lastMsgAt := now\<rparr>)"
  have "core ?u = core s" by simp
  then have "compositionIsActive ?u" using composing_comp [OF comp_core] assms(2) by blast
  then show ?thesis using assms(1,3) by (simp add: client_step_def ws_onmessage_def Let_def js_def)
qed

lemma ack_accepted_frame [simp]:
  "initialSnapshotApplied (ack_accepted m s) = initialSnapshotApplied s" "content (ack_accepted m s) = content s"
  by (simp_all add: ack_accepted_def Let_def)

lemma frame_acked:
  assumes "is_current n s" "m_type m = js ''ack''" "m_seq m = Some q" "or_empty (m_error m) = []"
    and "map_of (sentBatches s) q = Some b" "\<forall>x\<in>set (pendingOps s). op_id x \<noteq> [] \<and> opKey x \<in> set (sb_ids b)"
    and "of_generation (knownGeneration s) (Suc ver) m" "knownVersion s < ver"
    and t: "t = client_step now jitter (Frame n (Some m)) s"
  shows "the_doc t = the_doc s" "pendingOps t = []" "knownVersion t = knownVersion s" "knownGeneration t = knownGeneration s"
    "knownExists t" "CLIENT_ID t = CLIENT_ID s" "comp_of t = comp_of s" "initialSnapshotApplied t = initialSnapshotApplied s"
    "content t = content s"
proof -
  let ?u = "emit (PulseTraffic Down) (s\<lparr>lastMsgAt := now\<rparr>)"
  let ?v = "(ack_batch q ?u)\<lparr>pendingOps := []\<rparr>"
  note g = generation_fields [OF assms(7)]
  have h: "t = handleAck m ?u" using assms(1,2) t by (simp add: client_step_def ws_onmessage_def Let_def js_def)
  then have a: "t = ack_accepted m ?v"
    using assms(3-6) by (simp add: handleAck_def drop_all js_def Let_def)
  let ?w = "?v\<lparr>knownGeneration := knownGeneration s, knownExists := True\<rparr>"
  have "core t = core ?w" using g assms(8) unfolding a ack_accepted_def Let_def by (simp add: ack_batch_def)
  note c = core_frame [OF this]
  show "the_doc t = the_doc s" "pendingOps t = []" "knownVersion t = knownVersion s" "knownGeneration t = knownGeneration s"
    "knownExists t" "CLIENT_ID t = CLIENT_ID s"
    using c by (simp_all add: ack_batch_def)
  show "comp_of t = comp_of s" using h acked_comp [of m ?u] comp_core [of ?u s] by simp
  show "initialSnapshotApplied t = initialSnapshotApplied s" "content t = content s" by (simp_all add: a ack_batch_def)
qed

text \<open>C38: An acknowledgement that overtakes a snapshot loses what it acknowledges. All pending operations are in one
  batch in flight; while the user composes, a newer snapshot arrives, then the acknowledgement of the batch at the
  version after it. The snapshot waits for the commit, the acknowledgement does not, and the operations are pending
  no longer when the snapshot replaces the document: the client shows the snapshot, without them, and the echo of
  its batch brings it to the version of the server without applying them.\<close>

theorem snapshot_behind_ack_loses_batch:
  assumes s: "\<not> compositionIsActive s" "\<not> ed_readOnly (content s)" "\<not> applyingRemote s" "deferredContentMessages s = []"
      "initialSnapshotApplied s" "knownExists s" "is_current n s"
    and b: "map_of (sentBatches s) q = Some b" "\<forall>x\<in>set (pendingOps s). op_id x \<noteq> [] \<and> opKey x \<in> set (sb_ids b)"
    and snap: "m_type snap = js ''state''" "\<not> m_passwordRequired snap" "of_generation (knownGeneration s) ver snap" "knownVersion s < ver"
    and ack: "m_type ack = js ''ack''" "m_seq ack = Some q" "or_empty (m_error ack) = []" "of_generation (knownGeneration s) (Suc ver) ack"
    and echo: "m_updatedBy echo = Some (CLIENT_ID s)" "CLIENT_ID s \<noteq> []" "of_generation (knownGeneration s) (Suc ver) echo"
    and t: "t = fold (client_step now jitter) [CompositionStart, Frame n (Some snap), Frame n (Some ack), CompositionEnd,
      CommitTimer] s" "u = handleRemoteOps now echo t"
  shows "the_doc t = snapshot_doc (CLIENT_ID s) snap \<and> pendingOps t = [] \<and> knownVersion t = ver \<and>
    the_doc u = the_doc t \<and> pendingOps u = [] \<and> knownVersion u = Suc ver"
proof -
  define s1 where "s1 = client_step now jitter CompositionStart s"
  define s2 where "s2 = client_step now jitter (Frame n (Some snap)) s1"
  define s3 where "s3 = client_step now jitter (Frame n (Some ack)) s2"
  define s4 where "s4 = client_step now jitter CompositionEnd s3"
  have s1: "s1 = s\<lparr>cursorTimer := False, compositionActive := True, compositionCommitPending := False, compositionInputPending := False,
      compositionBaseText := ed_value (content s), compositionBaseDoc := Some (clone (the_doc s))\<rparr>"
    using s(1-3) by (simp add: s1_def client_step_def onCompositionStart_def compositionIsActive_def)
  have "is_current n s1" "compositionIsActive s1" using s(7) by (simp_all add: s1 is_current_def compositionIsActive_def)
  then have s2: "s2 = (emit (PulseTraffic Down) (s1\<lparr>lastMsgAt := now\<rparr>))\<lparr>deferredContentMessages := [DMsg snap]\<rparr>"
    using frame_queued [OF _ _ snap(1)] s(4) by (simp add: s2_def s1)
  have p2: "is_current n s2" "sentBatches s2 = sentBatches s" "pendingOps s2 = pendingOps s" "knownGeneration s2 = knownGeneration s"
    "knownVersion s2 = knownVersion s" "CLIENT_ID s2 = CLIENT_ID s" "initialSnapshotApplied s2" "content s2 = content s"
    "comp_of s2 = (True, False, Some (clone (the_doc s)), ed_value (content s), [DMsg snap])"
    using s(5,7) by (simp_all add: s2 s1 is_current_def comp_of_def emit_def)
  note p3 = frame_acked [OF p2(1) ack(1-3) _ _ _ _ s3_def, of b ver, unfolded p2, OF b ack(4) snap(4)]
  have c3: "compositionActive s3" "compositionBaseDoc s3 = Some (clone (the_doc s))" "compositionBaseText s3 = ed_value (content s)"
    "deferredContentMessages s3 = [DMsg snap]" using p3(7) by (simp_all add: comp_of_def)
  have s4: "s4 = emit (Arm CompositionCommit 0) (s3\<lparr>compositionActive := False, compositionCommitPending := True\<rparr>)"
    using c3(1) by (simp add: s4_def client_step_def onCompositionEnd_def)
  have t5: "t = commitComposition now s4" by (simp add: t(1) s4_def s3_def s2_def s1_def client_step_def)
  have "compositionCommitPending s4" "compositionBaseDoc s4 = Some (clone (the_doc s))"
    "ed_value (content s4) = compositionBaseText s4" using c3 p3(9) by (simp_all add: s4)
  from idle_commit [OF this, of now] obtain w where w: "t = flushDeferredContentMessages now w"
    "core w = core ((bumpClockFromDoc s4)\<lparr>compositionBaseText := [], compositionBaseDoc := None, compositionCommitPending := False\<rparr>)"
    "initialSnapshotApplied w" using p3(8) p2(7) by (auto simp: t5 s4)
  let ?w = "w\<lparr>deferredContentMessages := []\<rparr>"
  have f: "\<not> compositionIsActive w" "deferredContentMessages w = [DMsg snap]" "pendingOps w = []" "CLIENT_ID w = CLIENT_ID s"
    "knownVersion w = knownVersion s" "knownGeneration w = knownGeneration s" "knownExists w"
    using core_frame [OF w(2)] c3 p3 by (simp_all add: s4 compositionIsActive_def bump_core)
  have n: "\<not> compositionIsActive ?w" using f(1) by (simp add: compositionIsActive_def)
  note g = generation_fields [OF snap(3)]
  have th: "t = handleState now snap ?w"
    using f(1,2) snap(1) by (simp add: w(1) flushDeferredContentMessages_def handle_deferred_def)
  have ns: "\<not> snapshotIsStale snap ?w" using g snap(4) f(5-7) by (simp add: snapshotIsStale_def Let_def)
  let ?a = "adopt_snapshot snap (unlock_editor (syncEditLockGate (noteEditPasswordSet snap ?w)))"
  have "core t = core (merge_unsynced now (ed_value (content ?w)) (lastSyncedText ?w) False ?a)"
    using handleState_core [OF n ns snap(2), of now] f(3) w(3) by (simp add: th)
  also have "\<dots> = core ?a" using f(3) by (simp add: merge_unsynced_def replay_pending_def adopt_fields Let_def)
  finally have a: "core t = core ?a" .
  have tf: "the_doc t = snapshot_doc (CLIENT_ID s) snap" "pendingOps t = []" "knownVersion t = ver"
    "knownGeneration t = knownGeneration s" "knownExists t" "CLIENT_ID t = CLIENT_ID s"
    using core_frame [OF a] g f by (simp_all add: adopt_fields)
  have "comp_of (adopt_snapshot snap v) = comp_of v" for v
    by (simp add: adopt_snapshot_def take_snapshot_def clear_undo_if_newer_def clearUndoHistory_def Let_def
        bump_core comp_of_def)
  then have "comp_of t = comp_of ?w" using comp_core [OF a] by (simp add: comp_frame)
  then have nt: "\<not> compositionIsActive t" using composing_comp n by blast
  note e = generation_fields [OF echo(3)]
  have "u = handle_echo echo t"
    using tf e nt echo(1,2) by (simp add: t(2) handleRemoteOps_def Let_def)
  moreover have "the_doc (handle_echo echo t) = the_doc t" "pendingOps (handle_echo echo t) = []"
    "knownVersion (handle_echo echo t) = Suc ver"
    using tf(2) e(4) by (simp_all add: handle_echo_def forgetSentIds_def drop_acked_def Let_def split: option.split)
  ultimately show ?thesis using tf by simp
qed

definition lone_op :: crdt_op where
  [js_eval]: "lone_op = ins_op (js ''00000000000000aa:1'') [] (js ''x'')"

definition lone_client :: app where
  [js_eval]: "lone_client = (initial_app (js ''00000000000000aa''))\<lparr>knownExists := True, knownGeneration := 1,
     socket := Some (0, Open), initialSnapshotApplied := True, the_doc := fst (applyBatch newDoc [lone_op]),
     pendingOps := [lone_op], sentBatches := [(1, \<lparr>sb_ids = [opKey lone_op], sb_at = 0\<rparr>)]\<rparr>"

lemma snapshot_behind_ack_loses_batch_witness:
  "materialize (the_doc lone_client) = js ''x'' \<and>
   materialize (the_doc (handleRemoteOps 9
     (demo_msg\<lparr>m_type := js ''ops'', m_version := Some 2, m_updatedBy := Some (js ''00000000000000aa'')\<rparr>)
     (fold (client_step 9 0) [CompositionStart, Frame 0 (Some (demo_msg\<lparr>m_type := js ''state''\<rparr>)),
       Frame 0 (Some (demo_msg\<lparr>m_type := js ''ack'', m_seq := Some 1, m_version := Some 2\<rparr>)), CompositionEnd, CommitTimer]
       lone_client))) = []"
proof -
  let ?snap = "demo_msg\<lparr>m_type := js ''state''\<rparr>"
  let ?ack = "demo_msg\<lparr>m_type := js ''ack'', m_seq := Some 1, m_version := Some 2\<rparr>"
  let ?echo = "demo_msg\<lparr>m_type := js ''ops'', m_version := Some 2, m_updatedBy := Some (js ''00000000000000aa'')\<rparr>"
  have s: "\<not> compositionIsActive lone_client" "\<not> ed_readOnly (content lone_client)" "\<not> applyingRemote lone_client"
    "deferredContentMessages lone_client = []" "initialSnapshotApplied lone_client" "knownExists lone_client"
    "is_current 0 lone_client" "CLIENT_ID lone_client = js ''00000000000000aa''" "knownVersion lone_client = 0"
    "knownGeneration lone_client = 1" "sentBatches lone_client = [(1, \<lparr>sb_ids = [opKey lone_op], sb_at = 0\<rparr>)]"
    "pendingOps lone_client = [lone_op]"
    by (simp_all add: lone_client_def initial_app_def compositionIsActive_def is_current_def)
  have m: "of_generation (knownGeneration lone_client) 1 ?snap" "of_generation (knownGeneration lone_client) (Suc 1) ?ack"
    "of_generation (knownGeneration lone_client) (Suc 1) ?echo" "\<not> m_passwordRequired ?snap" "or_empty (m_error ?ack) = []"
    "m_type ?snap = js ''state''" "m_type ?ack = js ''ack''" "m_seq ?ack = Some 1" "knownVersion lone_client < 1"
    using s by (simp_all add: of_generation_def demo_msg_def)
  have b: "map_of (sentBatches lone_client) 1 = Some \<lparr>sb_ids = [opKey lone_op], sb_at = 0\<rparr>"
    "\<forall>x\<in>set (pendingOps lone_client). op_id x \<noteq> [] \<and> opKey x \<in> set (sb_ids \<lparr>sb_ids = [opKey lone_op], sb_at = 0\<rparr>)"
    "m_updatedBy ?echo = Some (CLIENT_ID lone_client)" "CLIENT_ID lone_client \<noteq> []"
    using s by (simp_all add: lone_op_def js_def)
  have "materialize (snapshot_doc (js ''00000000000000aa'') ?snap) = []" by (simp add: js_eval demo_msg_def)
  moreover have "materialize (the_doc lone_client) = js ''x''" by (simp add: js_eval)
  ultimately show ?thesis
    using snapshot_behind_ack_loses_batch [OF s(1-7) b(1,2) m(6,4,1,9,7,8,5,2) b(3,4) m(3) refl refl, of 9 0] s(8) by simp
qed

text \<open>A refusal that is not about a password, such as that of a server that has seen too many attempts, drops the
  refused operations from what is pending and leaves them in the document.\<close>

lemma refused_batch_stays_in_document:
  assumes "is_current n s" "m_type m = js ''ack''" "m_seq m = Some q" "m_error m = Some (js ''too many password attempts'')"
    and "map_of (sentBatches s) q = Some b" "t = client_step now jitter (Frame n (Some m)) s"
  shows "the_doc t = the_doc s \<and> pendingOps t = drop_acked (sb_ids b) (pendingOps s) \<and>
    map_of (sentBatches t) q = None \<and> knownVersion t = knownVersion s"
proof -
  let ?u = "emit (PulseTraffic Down) (s\<lparr>lastMsgAt := now\<rparr>)"
  have "t = handleAck m ?u"
    using assms(1,2,6) by (simp add: client_step_def ws_onmessage_def Let_def js_def)
  then have "t = setStatus ErrorStatus ((ack_batch q ?u)\<lparr>pendingOps := drop_acked (sb_ids b) (pendingOps s)\<rparr>)"
    using assms(3-5) by (simp add: handleAck_def Let_def js_def)
  moreover have "map_of (filter (\<lambda>(r, b). r \<noteq> q) bs) q = None" for bs :: "(nat \<times> sent_batch) list" by (induction bs) auto
  ultimately show ?thesis by (simp add: ack_batch_def)
qed

end
