(* ===== verification/Timers.thy ===== *)
theory Timers
  imports View
begin

text \<open>
  The parts of the page that live by a timer which every use starts anew (\<open>clearTimeout\<close>, \<open>setTimeout\<close>): the dots of
  the traffic, the refresh of the preview, the three clicks on the title of the room, the hint of a slow load; and the
  polling that focuses the editor once the first snapshot is shown. Times are milliseconds. A timer is the time it is
  due, \<open>None\<close> when it is cleared or has fired; before every event the timers due by then have fired.
\<close>

section \<open>Runs\<close>

definition timed_run :: "(nat \<Rightarrow> 'e \<Rightarrow> 's \<Rightarrow> 's) \<Rightarrow> (nat \<Rightarrow> 's \<Rightarrow> 's) \<Rightarrow> (nat \<times> 'e) list \<Rightarrow> 's \<Rightarrow> 's" where
  [js_eval]: "timed_run step tick es s = fold (\<lambda>(now, e) s. step now e (tick now s)) es s"

lemma timed_run_simps [simp]:
  "timed_run step tick [] s = s"
  "timed_run step tick ((now, e) # es) s = timed_run step tick es (step now e (tick now s))"
  "timed_run step tick (es @ fs) s = timed_run step tick fs (timed_run step tick es s)"
  by (simp_all add: timed_run_def)

definition expired :: "nat \<Rightarrow> nat option \<Rightarrow> bool" where
  [js_eval]: "expired now due = (case due of Some d \<Rightarrow> d \<le> now | None \<Rightarrow> False)"

text \<open>What a timer of this kind does for its client: something is lit by a press and goes out \<open>delay\<close> after the last.\<close>

locale debounced =
  fixes step :: "nat \<Rightarrow> 'e \<Rightarrow> 's \<Rightarrow> 's" and tick :: "nat \<Rightarrow> 's \<Rightarrow> 's"
    and presses :: "'e \<Rightarrow> bool" and lit :: "'s \<Rightarrow> bool" and due :: "'s \<Rightarrow> nat option" and delay :: nat
  assumes press_lit: "presses e \<Longrightarrow> lit (step now e s)"
    and press_due: "presses e \<Longrightarrow> due (step now e s) = Some (now + delay)"
    and other_lit: "\<not> presses e \<Longrightarrow> lit (step now e s) = lit s"
    and other_due: "\<not> presses e \<Longrightarrow> due (step now e s) = due s"
    and tick_lit: "lit (tick now s) = (lit s \<and> \<not> expired now (due s))"
    and tick_due: "due (tick now s) = (if expired now (due s) then None else due s)"
begin

lemma lit_after:
  assumes "sorted (map fst es)" "\<forall>n \<in> fst ` set es. n \<le> T" "\<not> lit s"
  shows "lit (tick T (timed_run step tick es s)) \<longleftrightarrow> (\<exists>(n, e) \<in> set es. presses e \<and> T < n + delay)"
  using assms
proof (induction es arbitrary: T rule: rev_induct)
  case (snoc x es)
  obtain n e where x: "x = (n, e)" by (cases x)
  let ?s = "timed_run step tick es s"
  have le: "n \<le> T" "\<forall>m \<in> fst ` set es. m \<le> n" and sorted: "sorted (map fst es)"
    using snoc.prems x by (auto simp: sorted_append)
  show ?case
  proof (cases "presses e")
    case True
    have "T < n + delay" if "(m, f) \<in> set es" "T < m + delay" for m f
    proof -
      have "m \<le> n" using le(2) that(1) by force
      then show ?thesis using that(2) by simp
    qed
    then show ?thesis using True x by (auto simp: tick_lit press_lit press_due expired_def)
  next
    case False
    have "lit (tick T (step n e (tick n ?s))) = lit (tick T ?s)"
      using False le(1) by (auto simp: tick_lit tick_due other_lit other_due expired_def split: option.splits)
    then show ?thesis using False x snoc.IH [OF sorted] snoc.prems by auto
  qed
qed (simp add: tick_lit)

end

section \<open>Traffic dots\<close>

record dots =
  up_active :: bool
  down_active :: bool
  trafficUpTimer :: "nat option"
  trafficDownTimer :: "nat option"

definition pulseTraffic :: "nat \<Rightarrow> bool \<Rightarrow> dots \<Rightarrow> dots" where
  [js_eval]: "pulseTraffic now up s =
     (if up then s\<lparr>up_active := True, trafficUpTimer := Some (now + 480)\<rparr>
      else s\<lparr>down_active := True, trafficDownTimer := Some (now + 480)\<rparr>)"

definition dots_tick :: "nat \<Rightarrow> dots \<Rightarrow> dots" where
  [js_eval]: "dots_tick now s =
     (let s1 = (if expired now (trafficUpTimer s) then s\<lparr>up_active := False, trafficUpTimer := None\<rparr> else s)
      in if expired now (trafficDownTimer s1) then s1\<lparr>down_active := False, trafficDownTimer := None\<rparr> else s1)"

definition idle_dots :: dots where
  [js_eval]: "idle_dots = \<lparr>up_active = False, down_active = False, trafficUpTimer = None, trafficDownTimer = None\<rparr>"

interpretation up_dot: debounced pulseTraffic dots_tick "\<lambda>up. up" up_active trafficUpTimer 480
  by unfold_locales (auto simp: pulseTraffic_def dots_tick_def Let_def)

interpretation down_dot: debounced pulseTraffic dots_tick "\<lambda>up. \<not> up" down_active trafficDownTimer 480
  by unfold_locales (auto simp: pulseTraffic_def dots_tick_def Let_def)

section \<open>Refresh of the preview\<close>

definition schedulePreviewRefresh :: "nat \<Rightarrow> bool \<Rightarrow> nat option \<Rightarrow> nat option" where
  [js_eval]: "schedulePreviewRefresh now shown previewTimer =
     (if \<not> shown then previewTimer else Some (now + 250))"

definition preview_tick :: "nat \<Rightarrow> nat option \<Rightarrow> nat option" where
  [js_eval]: "preview_tick now previewTimer = (if expired now previewTimer then None else previewTimer)"

interpretation preview_timer: debounced schedulePreviewRefresh preview_tick "\<lambda>shown. shown"
    "\<lambda>previewTimer. previewTimer \<noteq> None" "\<lambda>previewTimer. previewTimer" 250
  by unfold_locales (auto simp: schedulePreviewRefresh_def preview_tick_def expired_def split: option.splits)

lemma preview_refresh_pending:
  assumes "sorted (map fst es)" "\<forall>n \<in> fst ` set es. n \<le> T"
  shows "preview_tick T (timed_run schedulePreviewRefresh preview_tick es None) \<noteq> None \<longleftrightarrow>
    (\<exists>(n, shown) \<in> set es. shown \<and> T < n + 250)"
  using preview_timer.lit_after [of es T None] assms by simp

section \<open>Slow load\<close>

definition armLoadingSlowHint :: "nat \<Rightarrow> nat option" where
  [js_eval]: "armLoadingSlowHint now = Some (now + 8000)"

text \<open>The callback: the text the chip of the load shows.\<close>

definition loading_slow :: "(jsstring \<Rightarrow> jsstring) \<Rightarrow> bool \<Rightarrow> jsstring \<Rightarrow> jsstring" where
  [js_eval]: "loading_slow translate applied loadingText =
     (if applied then loadingText else translate [21152, 36733, 36229, 26102, 65292, 27491, 22312, 37325, 35797, 8230])"

section \<open>Clicks on the title\<close>

record room_title =
  roomTitleClickCount :: nat
  roomTitleClickTimer :: "nat option"
  title_toggles :: nat

definition title_click :: "nat \<Rightarrow> unit \<Rightarrow> room_title \<Rightarrow> room_title" where
  [js_eval]: "title_click now u s =
     (let s1 = s\<lparr>roomTitleClickCount := roomTitleClickCount s + 1, roomTitleClickTimer := Some (now + 550)\<rparr>
      in if roomTitleClickCount s1 < 3 then s1
         else s1\<lparr>roomTitleClickCount := 0, roomTitleClickTimer := None, title_toggles := title_toggles s1 + 1\<rparr>)"

definition title_tick :: "nat \<Rightarrow> room_title \<Rightarrow> room_title" where
  [js_eval]: "title_tick now s =
     (if expired now (roomTitleClickTimer s) then s\<lparr>roomTitleClickCount := 0, roomTitleClickTimer := None\<rparr> else s)"

definition fresh_title :: room_title where
  [js_eval]: "fresh_title = \<lparr>roomTitleClickCount = 0, roomTitleClickTimer = None, title_toggles = 0\<rparr>"

definition clicks :: "nat list \<Rightarrow> room_title \<Rightarrow> room_title" where
  [js_eval]: "clicks ns s = timed_run title_click title_tick (map (\<lambda>n. (n, ())) ns) s"

text \<open>Clicks belong together while each follows the one before in less than 550 ms.\<close>

fun bursts :: "nat list \<Rightarrow> nat list list" where
  "bursts [] = []"
| "bursts [n] = [[n]]"
| "bursts (n # m # ns) =
     (if m < n + 550 then (n # hd (bursts (m # ns))) # tl (bursts (m # ns)) else [n] # bursts (m # ns))"

definition triples :: "nat list list \<Rightarrow> nat" where
  [js_eval]: "triples bs = sum_list (map (\<lambda>b. length b div 3) bs)"

lemma bursts_Cons: "\<exists>b bs. bursts (n # ns) = (n # b) # bs"
  by (cases ns) auto

lemma clicks_from:
  assumes "roomTitleClickCount s = k" "k < 3" "roomTitleClickTimer s = (if k = 0 then None else Some (n + 550))"
    and "bursts (n # ns) = (n # b) # bs"
  shows "title_toggles (clicks ns s) = title_toggles s + (k + length b) div 3 + triples bs"
  using assms
proof (induction ns arbitrary: n k s b bs)
  case Nil
  then show ?case by (simp add: clicks_def triples_def)
next
  case (Cons m ns)
  obtain c cs where c: "bursts (m # ns) = (m # c) # cs" using bursts_Cons by blast
  let ?s = "title_click m () (title_tick m s)"
  have run: "clicks (m # ns) s = clicks ns ?s" by (simp add: clicks_def)
  show ?case
  proof (cases "m < n + 550")
    case True
    then have b: "b = m # c" "bs = cs" using Cons.prems(4) c by auto
    have t: "title_tick m s = s" using True Cons.prems by (simp add: title_tick_def expired_def)
    show ?thesis
    proof (cases "k = 2")
      case True
      have "title_toggles (clicks ns ?s) = title_toggles ?s + (0 + length c) div 3 + triples cs"
        using True Cons.prems t by (intro Cons.IH [of _ _ m] c) (simp_all add: title_click_def)
      then show ?thesis using True Cons.prems t b run by (simp add: title_click_def)
    next
      case False
      have "title_toggles (clicks ns ?s) = title_toggles ?s + (Suc k + length c) div 3 + triples cs"
        using False Cons.prems t by (intro Cons.IH [of _ _ m] c) (simp_all add: title_click_def)
      then show ?thesis using False Cons.prems t b run by (simp add: title_click_def)
    qed
  next
    case False
    then have b: "b = []" "bs = (m # c) # cs" using Cons.prems(4) c by auto
    have t: "title_tick m s = s\<lparr>roomTitleClickCount := 0, roomTitleClickTimer := None\<rparr>"
      using False Cons.prems by (simp add: title_tick_def expired_def)
    have "title_toggles (clicks ns ?s) = title_toggles ?s + (1 + length c) div 3 + triples cs"
      using t by (intro Cons.IH [of _ _ m] c) (simp_all add: title_click_def)
    then show ?thesis using Cons.prems(2) t b run by (simp add: title_click_def triples_def)
  qed
qed

section \<open>Focus after loading\<close>

text \<open>
  What one poll finds: whether another control has the focus, whether the first snapshot is shown, whether the preview
  is. The result is whether the editor is focused, its caret at the end.
\<close>

fun focus_polls :: "(bool \<times> bool \<times> bool) list \<Rightarrow> bool" where
  "focus_polls [] = False"
| "focus_polls ((busy, applied, preview) # polls) =
     (if busy then False else if \<not> applied then focus_polls polls else \<not> preview)"

text \<open>A poll every 120 ms until 8000 ms have passed.\<close>

definition focusEditorOnOpen :: "bool \<Rightarrow> (bool \<times> bool \<times> bool) list \<Rightarrow> bool" where
  [js_eval]: "focusEditorOnOpen touchFirst polls = (if touchFirst then False else focus_polls (take (8000 div 120) polls))"

lemma focus_polls_first:
  "focus_polls polls =
     (case dropWhile (\<lambda>(busy, applied, preview). \<not> busy \<and> \<not> applied) polls of
        [] \<Rightarrow> False | (busy, applied, preview) # rest \<Rightarrow> \<not> busy \<and> \<not> preview)"
  by (induction polls rule: focus_polls.induct) auto

section \<open>Properties\<close>

text \<open>The dots of the traffic. Whatever was sent and received before, each dot is lit exactly when a frame went its
  way less than 480 ms ago.\<close>

lemma traffic_dots:
  assumes "sorted (map fst es)" "\<forall>n \<in> fst ` set es. n \<le> T"
  shows "up_active (dots_tick T (timed_run pulseTraffic dots_tick es idle_dots)) =
           (\<exists>(n, up) \<in> set es. up \<and> T < n + 480) \<and>
         down_active (dots_tick T (timed_run pulseTraffic dots_tick es idle_dots)) =
           (\<exists>(n, up) \<in> set es. \<not> up \<and> T < n + 480)"
  using up_dot.lit_after [OF assms, of idle_dots] down_dot.lit_after [OF assms, of idle_dots]
  by (simp add: idle_dots_def)

text \<open>Clicks on the title. The setting of the uploads is toggled once for every three clicks of a burst, in which each
  click follows the one before in less than 550 ms; what is left of a burst counts for nothing.\<close>

lemma title_toggles_per_burst: "title_toggles (clicks ns fresh_title) = triples (bursts ns)"
proof (cases ns)
  case (Cons n ms)
  obtain b bs where b: "bursts (n # ms) = (n # b) # bs" using bursts_Cons by blast
  have "clicks ns fresh_title = clicks ms (title_click n () fresh_title)"
    by (simp add: Cons clicks_def title_tick_def fresh_title_def expired_def)
  moreover have "title_toggles (clicks ms (title_click n () fresh_title)) =
      title_toggles (title_click n () fresh_title) + (1 + length b) div 3 + triples bs"
    by (intro clicks_from [of _ _ n] b) (simp_all add: title_click_def fresh_title_def)
  ultimately show ?thesis by (simp add: Cons b triples_def title_click_def fresh_title_def)
qed (simp add: clicks_def fresh_title_def triples_def)

end
