(* ===== verification/Translations.thy ===== *)
theory Translations
  imports View
begin

text \<open>
  The texts of the page in its two languages (\<open>static/app.js\<close>): the table \<open>EN\<close> entry by entry, \<open>t\<close> and \<open>tf\<close>,
  and the parts of the page whose texts are made with them: the language and theme buttons, the titles with keyboard
  shortcuts, the title of the room and the share dialog. The source texts are Chinese and are written as lists of
  UTF-16 code units. \<open>EN\<close> is an object literal: of two entries with one key the later counts.
\<close>

section \<open>The table\<close>

definition EN_room :: "(jsstring \<times> jsstring) list" where
  [js_eval]: "EN_room = [
     ([24050, 20445, 23384], js ''Saved''),
     ([23578, 26410, 20445, 23384], js ''Not saved yet''),
     ([24050, 20445, 23384, 65292, 22797, 21046, 38142, 25509, 23601, 33021, 20998, 20139, 32473, 20854, 20182,
      20154], js ''Saved '' @ [8212] @ js '' copy the link to share it''),
     ([26377, 25928, 26399, 38656, 20026, 22823, 20110, 32, 48, 32, 30340, 25972, 25968],
      js ''TTL must be a whole number greater than 0''),
     ([24050, 36807, 26399, 32, 183, 32], js ''Expired '' @ [183] @ js '' ''),
     ([36807, 26399, 32], js ''Expires ''),
     ([21097, 20313, 32, 123, 48, 125, 32, 183, 32, 123, 49, 125, 32, 36807, 26399], js ''{0} left '' @ [183] @
      js '' expires {1}''),
     ([24050, 36807, 26399], js ''Expired''),
     ([65288, 21097, 20313, 32], js '' (''),
     ([65289], js '')''),
     ([31186], js ''s''),
     ([26377, 25928, 26399], js ''TTL''),
     ([30452, 25509, 31896, 36148, 25110, 36755, 20837, 20869, 23481], js ''Paste or type here''),
     ([20869, 23481, 23454, 26102, 21516, 27493, 32473, 25171, 24320, 21516, 19968, 38142, 25509, 30340, 20154,
      65292, 21040, 26399, 33258, 21160, 38144, 27585],
      js ''Everyone with this link sees your edits live. The room self-destructs when it expires.''),
     ([20174, 21098, 36148, 26495, 31896, 36148], js ''Paste from clipboard''),
     ([27983, 35272, 22120, 26410, 25480, 26435, 35835, 21462, 21098, 36148, 26495, 65292, 35831, 25353, 32, 67,
      116, 114, 108, 47, 8984, 43, 86, 32, 31896, 36148], js ''Clipboard access was blocked '' @ [8212] @
      js '' press Ctrl/'' @ [8984] @ js ''+V to paste''),
     ([35831, 25353, 32, 67, 116, 114, 108, 47, 8984, 43, 86, 32, 31896, 36148], js ''Press Ctrl/'' @ [8984] @
      js ''+V to paste''),
     ([33258, 24049, 32, 183, 32], js ''me '' @ [183] @ js '' ''),
     ([21327, 20316, 32773, 32, 183, 32], js ''peer '' @ [183] @ js '' ''),
     ([25151, 38388, 32], js ''room ''),
     ([32, 183, 32, 25991, 20214, 19978, 20256, 24050, 24320, 21551, 65288, 19977, 20987, 20999, 25442, 65289],
      js '' '' @ [183] @ js '' file upload ON (triple-click to toggle)''),
     ([32, 183, 32, 25991, 20214, 19978, 20256, 24050, 20851, 38381, 65288, 19977, 20987, 31649, 29702, 21592,
      24320, 20851, 65289], js '' '' @ [183] @ js '' file upload OFF (triple-click, admin)''),
     ([24320, 21551], js ''Enable''),
     ([20851, 38381], js ''Disable''),
     ([24320, 21551, 26412, 31354, 38388, 25991, 20214, 19978, 20256], js ''Enable file uploads in this room''),
     ([20851, 38381, 26412, 31354, 38388, 25991, 20214, 19978, 20256], js ''Disable file uploads in this room''),
     ([39564, 35777, 31649, 29702, 21592, 23494, 30721, 21518, 65292, 20801, 35768, 22312, 27492, 31354, 38388,
      19978, 20256, 25991, 20214], js ''Verify the admin password to allow file uploads in this room''),
     ([39564, 35777, 31649, 29702, 21592, 23494, 30721, 21518, 65292, 31105, 27490, 22312, 27492, 31354, 38388,
      19978, 20256, 26032, 25991, 20214, 65288, 24050, 26377, 25991, 20214, 20173, 21487, 19979, 36733, 47, 21024,
      38500, 65289], js ''Verify the admin password to stop new uploads (existing files stay downloadable)''),
     ([27491, 22312, 24320, 21551, 25991, 20214, 19978, 20256, 8230], js ''Enabling file upload'' @ [8230]),
     ([27491, 22312, 20851, 38381, 25991, 20214, 19978, 20256, 8230], js ''Disabling file upload'' @ [8230]),
     ([31649, 29702, 21592, 23494, 30721, 38169, 35823], js ''Wrong admin password''),
     ([31649, 29702, 21592, 23494, 30721, 38169, 35823, 65292, 35831, 37325, 35797],
      js ''Wrong admin password, please retry''),
     ([25991, 20214, 21151, 33021, 26410, 21551, 29992], js ''File features not enabled''),
     ([26412, 31354, 38388, 24050, 24320, 21551, 25991, 20214, 19978, 20256], js ''File uploads enabled''),
     ([26412, 31354, 38388, 24050, 20851, 38381, 25991, 20214, 19978, 20256], js ''File uploads disabled''),
     ([35774, 32622, 22833, 36133], js ''Update failed''),
     ([25991, 20214, 21015, 34920, 21152, 36733, 22833, 36133], js ''Failed to load file list''),
     ([19979, 36733], js ''Download''),
     ([21024, 38500], js ''Delete''),
     ([32, 183, 32, 36807, 26399, 32], js '' '' @ [183] @ js '' expires ''),
     ([36755, 20837, 31649, 29702, 21592, 23494, 30721], js ''Admin password required''),
     ([36755, 20837, 25991, 20214, 23494, 30721], js ''File password required''),
     ([31649, 29702, 21592, 23494, 30721], js ''Admin password''),
     ([25991, 20214, 23494, 30721], js ''File password''),
     ([25991, 20214, 23494, 30721, 65288, 19979, 36733, 29992, 65289], js ''File password (for downloads)''),
     ([30830, 35748], js ''Confirm''),
     ([21462, 28040], js ''Cancel''),
     ([35831, 36755, 20837, 23494, 30721], js ''Enter a password'')]"

definition EN_panels :: "(jsstring \<times> jsstring) list" where
  [js_eval]: "EN_panels = [
     ([26410, 21629, 21517, 25991, 20214], js ''Unnamed file''),
     ([19978, 20256, 25991, 20214, 32, 183, 32, 31649, 29702, 21592, 23494, 30721], js ''Upload files '' @ [183]
      @ js '' admin password''),
     ([26412, 31354, 38388, 26410, 24320, 25918, 19978, 20256, 65292, 38656, 31649, 29702, 21592, 23494, 30721,
      65288, 20849, 32], js ''Uploads are closed in this room '' @ [8212] @ js '' admin password required (''),
     ([32, 20010, 25991, 20214, 65289], js '' file(s))''),
     ([19979, 19968, 27493], js ''Next''),
     ([19978, 20256, 25991, 20214, 32, 183, 32, 25991, 20214, 23494, 30721], js ''Upload files '' @ [183] @
      js '' file password''),
     ([35774, 32622, 25991, 20214, 23494, 30721, 65307, 19979, 36733, 26102, 38656, 35201, 27492, 23494, 30721,
      65288, 26412, 25209, 20849, 32], js ''Set a file password; it is required to download (''),
     ([32, 20010, 65292, 20849, 29992, 65289], js '' file(s), shared)''),
     ([19978, 20256], js ''Upload''),
     ([27491, 22312, 19978, 20256, 32], js ''Uploading ''),
     ([32, 20010, 25991, 20214, 8230], js '' file(s)'' @ [8230]),
     ([24050, 19978, 20256, 32], js ''Uploaded ''),
     ([32, 20010, 25991, 20214], js '' file(s)''),
     ([25104, 21151, 32], js ''OK ''),
     ([32, 183, 32, 22833, 36133, 32], js '' '' @ [183] @ js '' failed ''),
     ([19978, 20256, 22833, 36133], js ''Upload failed''),
     ([19978, 20256, 26410, 21551, 29992], js ''Uploads not enabled''),
     ([25991, 20214, 36807, 22823], js ''File too large''),
     ([19979, 36733, 25991, 20214], js ''Download file''),
     ([19979, 36733, 38656, 35201, 25991, 20214, 23494, 30721, 65288, 19978, 20256, 26102, 35774, 32622, 65289],
      js ''Enter the file password set at upload time''),
     ([27491, 22312, 19979, 36733, 8230], js ''Downloading'' @ [8230]),
     ([25991, 20214, 23494, 30721, 38169, 35823], js ''Wrong file password''),
     ([25991, 20214, 23494, 30721, 38169, 35823, 65292, 35831, 37325, 35797],
      js ''Wrong file password, please retry''),
     ([25991, 20214, 35775, 38382, 26410, 21551, 29992], js ''File access not enabled''),
     ([25991, 20214, 19981, 23384, 22312], js ''File not found''),
     ([24050, 24320, 22987, 19979, 36733], js ''Download started''),
     ([19979, 36733, 22833, 36133], js ''Download failed''),
     ([21024, 38500, 25991, 20214], js ''Delete file''),
     ([21024, 38500, 38656, 35201, 31649, 29702, 21592, 23494, 30721], js ''Admin password required to delete''),
     ([27491, 22312, 21024, 38500, 8230], js ''Deleting'' @ [8230]),
     ([24050, 21024, 38500], js ''Deleted''),
     ([21024, 38500, 22833, 36133], js ''Delete failed''),
     ([31163, 32447], js ''offline''),
     ([25764, 38144], js ''Undo''),
     ([37325, 20570], js ''Redo''),
     ([77, 97, 114, 107, 100, 111, 119, 110, 32, 39044, 35272], js ''Markdown preview''),
     ([25171, 24320, 26041, 24335], js ''Open as''),
     ([32431, 25991, 26412], js ''Plain text''),
     ([32534, 36753, 23494, 30721], js ''Edit password''),
     ([25151, 38388, 23494, 30721], js ''Room password''),
     ([35774, 32622, 25151, 38388, 23494, 30721], js ''Set room password''),
     ([20462, 25913, 25151, 38388, 23494, 30721], js ''Change room password''),
     ([36755, 20837, 25151, 38388, 23494, 30721], js ''Enter room password''),
     ([20165, 32534, 36753, 38656, 35201, 23494, 30721], js ''Edit '' @ [8212] @ js '' password only for editing''),
     ([26597, 30475, 21644, 32534, 36753, 37117, 38656, 35201, 23494, 30721], js ''View '' @ [8212] @
      js '' password for viewing and editing''),
     ([27492, 25151, 38388, 24050, 21152, 23494, 65292, 38656, 35201, 23494, 30721, 25165, 33021, 26597, 30475],
      js ''This room is password-protected '' @ [8212] @ js '' enter the password to view''),
     ([25151, 38388, 23494, 30721, 38169, 35823, 65292, 35831, 37325, 35797],
      js ''Wrong room password, please retry''),
     ([35299, 38500, 38145, 23450, 22833, 36133], js ''Failed to unlock'')]"

definition EN_files :: "(jsstring \<times> jsstring) list" where
  [js_eval]: "EN_files = [
     ([23494, 30721, 21487, 25163, 21160, 36755, 20837, 25110, 37325, 26032, 29983, 25104, 65292, 33539, 22260,
      20915, 23450, 39564, 35777, 30340, 26159, 26597, 30475, 36824, 26159, 32534, 36753],
      js ''Type a password (or regenerate) and pick its scope: view or edit''),
     ([24050, 38145, 23450, 65306, 26597, 30475, 21644, 32534, 36753, 37117, 38656, 35201, 36755, 20837, 23494,
      30721], js ''Locked: viewing and editing both require the password''),
     ([35774, 32622], js ''Set''),
     ([20462, 25913], js ''Change''),
     ([26597, 30475], js ''View''),
     ([26410, 35774, 32622], js ''Not set''),
     ([24050, 35774, 32622], js ''Set''),
     ([29983, 25104], js ''Generate''),
     ([37325, 26032, 29983, 25104], js ''Regenerate''),
     ([35299, 38500, 38145, 23450], js ''Unlock''),
     ([36755, 20837, 32534, 36753, 23494, 30721], js ''Enter edit password''),
     ([27492, 25151, 38388, 24050, 38145, 23450, 65292, 32534, 36753, 38656, 35201, 23494, 30721],
      js ''This room is locked; editing requires the password''),
     ([26410, 38145, 23450, 65306, 20219, 20309, 25343, 21040, 38142, 25509, 30340, 20154, 37117, 33021, 26597,
      30475, 21644, 32534, 36753, 65292, 20063, 21487, 35774, 32622, 23494, 30721, 38145, 23450, 25151, 38388,
      12290, 24314, 35758, 20808, 35774, 23494, 30721, 20877, 20998, 20139],
      js ''Open: anyone with the link can view, edit, or set a password and lock the room. Set a password before sharing.''),
     ([24050, 38145, 23450, 65306, 32534, 36753, 38656, 35201, 36755, 20837, 23494, 30721],
      js ''Locked: editing requires the password.''),
     ([29256, 26412, 21382, 21490], js ''Version history''),
     ([28857, 20987, 26465, 30446, 39044, 35272, 65292, 30830, 35748, 21518, 20877, 24674, 22797],
      js ''Click a snapshot to preview, then restore if it looks right''),
     ([27880, 24847, 65306, 21382, 21490, 20250, 20445, 30041, 24050, 21024, 38500, 47, 35206, 30422, 30340,
      20869, 23481, 65292, 20998, 20139, 38142, 25509, 21069, 35831, 20808, 28165, 31354, 25110, 35774, 23494,
      30721], js ''Note: history keeps deleted/overwritten text. Clear it or set a password before sharing.''),
     ([29256, 26412, 39044, 35272], js ''Snapshot preview''),
     ([24674, 22797, 27492, 29256, 26412], js ''Restore this version''),
     ([23383, 31526], js ''chars''),
     ([25163, 21160], js ''manual''),
     ([21152, 36733, 20013, 8230], js ''Loading'' @ [8230]),
     ([24050, 38145, 23450], js ''Locked''),
     ([21482, 35835, 32, 183, 32, 35299, 38145, 32534, 36753], js ''Read-only '' @ [183] @ js '' unlock to edit''),
     ([35299, 38145, 32534, 36753], js ''Unlock editing''),
     ([27492, 25151, 38388, 30340, 26597, 30475, 19981, 21463, 38480, 21046, 65292, 36755, 20837, 23494, 30721,
      21518, 21363, 21487, 32534, 36753], js ''Anyone can read this room; enter the password to edit''),
     ([27492, 25151, 38388, 24050, 21152, 23494], js ''This room is locked''),
     ([27492, 25151, 38388, 24050, 38145, 23450], js ''This room is locked''),
     ([26597, 30475, 21644, 32534, 36753, 37117, 38656, 35201, 25151, 38388, 23494, 30721],
      js ''Viewing and editing both need the room password''),
     ([26597, 30475, 26080, 38656, 23494, 30721, 65292, 32534, 36753, 38656, 35201, 25151, 38388, 23494, 30721],
      js ''Anyone can view; editing needs the room password''),
     ([35299, 38145], js ''Unlock''),
     ([39564, 35777, 20013, 8230], js ''Checking'' @ [8230]),
     ([23494, 30721, 38169, 35823, 65292, 35831, 37325, 35797], js ''Wrong password, try again''),
     ([39564, 35777, 22833, 36133, 65292, 35831, 26816, 26597, 32593, 32476, 21518, 37325, 35797],
      js ''Could not verify '' @ [8212] @ js '' check your connection and retry''),
     ([25151, 38388, 24050, 38145, 23450, 32, 183, 32, 36755, 20837, 23494, 30721, 21518, 25165, 33021, 26597,
      30475, 21644, 32534, 36753], js ''Room locked '' @ [183] @ js '' enter the password to view and edit''),
     ([24050, 21516, 27493], js ''Synced''),
     ([24050, 26029, 24320], js ''Offline''),
     ([36830, 25509, 20013, 8230], js ''Connecting'' @ [8230]),
     ([20445, 23384, 20013, 8230], js ''Saving'' @ [8230]),
     ([27491, 22312, 20445, 23384, 20462, 25913], js ''Saving your changes''),
     ([25105], js ''me''),
     ([24050, 36830, 25509, 32, 183, 32, 20462, 25913, 20250, 23454, 26102, 21516, 27493, 32473, 25152, 26377,
      25171, 24320, 27492, 25151, 38388, 30340, 20154], js ''Connected '' @ [183] @
      js '' edits sync live to everyone in this room''),
     ([36830, 25509, 24050, 26029, 24320, 32, 183, 32, 27491, 22312, 37325, 35797, 65292, 20462, 25913, 20250,
      20808, 20445, 23384, 22312, 26412, 22320], js ''Disconnected '' @ [183] @
      js '' retrying, edits are kept locally''),
     ([27491, 22312, 21152, 36733, 21098, 36148, 26495, 8230], js ''Loading clipboard'' @ [8230]),
     ([21152, 36733, 36229, 26102, 65292, 27491, 22312, 37325, 35797, 8230], js ''Still loading '' @ [8212] @
      js '' retrying'' @ [8230]),
     ([21152, 36733, 21382, 21490, 22833, 36133], js ''Failed to load history''),
     ([26597, 30475, 21382, 21490, 38656, 35201, 25151, 38388, 23494, 30721],
      js ''Room password required to view history''),
     ([24050, 23384, 26723, 24403, 21069, 29256, 26412], js ''Snapshot saved'')]"

definition EN_access :: "(jsstring \<times> jsstring) list" where
  [js_eval]: "EN_access = [
     ([20869, 23481, 26410, 21464, 21270, 65292, 26410, 26032, 22686, 24555, 29031], js ''No changes '' @ [8212]
      @ js '' no new snapshot''),
     ([23384, 26723, 22833, 36133], js ''Failed to save snapshot''),
     ([26242, 26080, 21487, 23384, 26723, 20869, 23481], js ''Nothing to archive yet''),
     ([28165, 31354, 21382, 21490], js ''Clear history''),
     ([30830, 23450, 28165, 31354, 20840, 37096, 29256, 26412, 21382, 21490, 65311, 27492, 25805, 20316, 19981,
      21487, 25764, 38144], js ''Clear all version history? This cannot be undone.''),
     ([24050, 28165, 31354, 21382, 21490], js ''History cleared''),
     ([28165, 31354, 21382, 21490, 22833, 36133], js ''Failed to clear history''),
     ([20998, 20139, 38142, 25509], js ''Share''),
     ([20999, 25442, 20027, 39064], js ''Toggle theme''),
     ([20998, 20139, 38142, 25509, 32, 183, 32, 25163, 26426, 25195, 30721, 25110, 22797, 21046, 38142, 25509],
      js ''Share '' @ [8212] @ js '' scan the QR code or copy a link''),
     ([25151, 38388, 38142, 25509], js ''Room link''),
     ([20108, 32500, 30721, 20026, 25151, 38388, 38142, 25509, 65292, 25195, 30721, 21363, 21487, 25171, 24320],
      js ''The QR code encodes the room link '' @ [8212] @ js '' scan to open''),
     ([22797, 21046], js ''Copy''),
     ([24050, 22797, 21046], js ''Copied''),
     ([22797, 21046, 25151, 38388, 38142, 25509], js ''Copy room link''),
     ([26032, 24314, 25151, 38388], js ''New room''),
     ([20851, 38381], js ''Close''),
     ([23384, 26723, 24403, 21069, 29256, 26412], js ''Save snapshot''),
     ([24674, 22797], js ''Restore''),
     ([26242, 26080, 21382, 21490, 29256, 26412, 65292, 32534, 36753, 21518, 33258, 21160, 35760, 24405],
      js ''No snapshots yet '' @ [8212] @ js '' they are captured automatically as you edit''),
     ([26242, 26080, 21382, 21490, 29256, 26412], js ''No snapshots yet''),
     ([32534, 36753, 21518, 33258, 21160, 35760, 24405, 65292, 20063, 21487, 25163, 21160, 23384, 26723],
      js ''Captured automatically as you edit, or save one manually''),
     ([24050, 24674, 22797, 21040, 35813, 29256, 26412], js ''Restored''),
     ([24674, 22797, 22833, 36133], js ''Restore failed''),
     ([65288, 24403, 21069, 65289], js '' (current)''),
     ([24403, 21069], js ''Current''),
     ([39044, 35272], js ''Preview''),
     ([32534, 36753], js ''Edit''),
     ([33258, 21160], js ''Auto''),
     ([28145, 33394], js ''Dark''),
     ([27973, 33394], js ''Light''),
     ([20027, 39064, 65306], js ''Theme: ''),
     ([35821, 35328], js ''Language''),
     ([20999, 25442, 21040], js ''Switch to ''),
     ([84, 84, 76, 32, 25968, 20540], js ''TTL value''),
     ([84, 84, 76, 32, 21333, 20301], js ''TTL unit''),
     ([20998, 38047], js ''min''),
     ([23567, 26102], js ''h''),
     ([22825], js ''d''),
     ([31896, 36148, 25110, 36755, 20837, 25991, 26412, 65292, 20869, 23481, 20250, 33258, 21160, 20445, 23384,
      32, 183, 32, 24320, 21551, 19978, 20256, 21518, 21487, 31896, 36148, 47, 25302, 20837, 25991, 20214],
      js ''Paste or type '' @ [8212] @ js '' content saves automatically '' @ [183] @
      js '' paste/drag files once uploads are on''),
     ([25991, 20214], js ''Files''),
     ([22312, 32447, 29992, 25143], js ''Peers''),
     ([36755, 20837, 23494, 30721], js ''Enter password''),
     ([23494, 30721], js ''Password''),
     ([21457, 36865], js ''Send''),
     ([25509, 25910], js ''Receive'')]"

definition EN :: "(jsstring \<times> jsstring) list" where
  [js_eval]: "EN = EN_room @ EN_panels @ EN_files @ EN_access"

definition t :: "jsstring \<Rightarrow> jsstring \<Rightarrow> jsstring" where
  [js_eval]: "t lang s =
     (if lang = js ''en'' then (case map_of (rev EN) s of Some v \<Rightarrow> v | None \<Rightarrow> s) else s)"

text \<open>\<open>out.split(p).join(r)\<close> for a pattern that is not empty: every occurrence, from the left.\<close>

function replace_all :: "jsstring \<Rightarrow> jsstring \<Rightarrow> jsstring \<Rightarrow> jsstring" where
  "replace_all p r [] = []"
| "replace_all p r (u # us) =
     (if take (length p) (u # us) = p then r @ replace_all p r (drop (length p - 1) us)
      else u # replace_all p r us)"
  by pat_completeness auto
termination by (relation "measure (\<lambda>(p, r, us). length us)") (auto simp: less_Suc_eq_le)

definition placeholder :: "nat \<Rightarrow> jsstring" where
  [js_eval]: "placeholder i = [123] @ dec_str i @ [125]"

fun fill :: "nat \<Rightarrow> jsstring list \<Rightarrow> jsstring \<Rightarrow> jsstring" where
  "fill i [] text = text"
| "fill i (a # as) text = fill (Suc i) as (replace_all (placeholder i) a text)"

definition tf :: "jsstring \<Rightarrow> jsstring \<Rightarrow> jsstring list \<Rightarrow> jsstring" where
  [js_eval]: "tf lang s args = fill 0 args (t lang s)"

section \<open>Language and theme buttons\<close>

record lang_view =
  lv_root :: jsstring
  lv_lang :: jsstring
  lv_next :: jsstring
  lv_mono :: jsstring
  lv_title :: jsstring
  lv_label :: jsstring

definition applyLang :: "jsstring \<Rightarrow> lang_view" where
  [js_eval]: "applyLang lang =
     (let nxt = (if lang = js ''en'' then js ''zh'' else js ''en'');
          mono = (if nxt = js ''en'' then js ''EN'' else [20013])
      in \<lparr>lv_root = (if lang = js ''en'' then js ''en'' else js ''zh-CN''),
          lv_lang = (if lang = js ''en'' then js ''en'' else js ''zh''), lv_next = nxt, lv_mono = mono,
          lv_title = t lang [35821, 35328] @ [32, 183, 32] @
            (if lang = js ''en'' then js ''English '' @ [8594, 32, 20013, 25991] else [20013, 25991, 32, 8594, 32] @ js ''English''),
          lv_label = t lang [20999, 25442, 21040] @ mono\<rparr>)"

text \<open>The nodes with \<open>data-i18n\<close>, \<open>data-i18n-placeholder\<close> or \<open>data-i18n-aria\<close>, given by the value of the attribute.\<close>

definition translate_nodes :: "jsstring \<Rightarrow> jsstring list \<Rightarrow> jsstring list" where
  [js_eval]: "translate_nodes lang attrs = map (t lang) attrs"

definition shortcut_hints :: "jsstring \<Rightarrow> jsstring \<Rightarrow> (jsstring \<times> jsstring \<times> jsstring) list" where
  [js_eval]: "shortcut_hints lang modkey = [
     (js ''undoBtn'', t lang [25764, 38144], modkey @ js ''Z''),
     (js ''redoBtn'', t lang [37325, 20570], modkey @ [8679, 90]),
     (js ''previewBtn'', t lang [77, 97, 114, 107, 100, 111, 119, 110, 32, 39044, 35272], []),
     (js ''historyBtn'', t lang [29256, 26412, 21382, 21490], []),
     (js ''shareBtn'', t lang [20998, 20139, 38142, 25509], []),
     (js ''newRoomBtn'', t lang [26032, 24314, 25151, 38388], [])]"

definition applyShortcutTitles :: "jsstring \<Rightarrow> bool \<Rightarrow> (jsstring \<times> jsstring) list" where
  [js_eval]: "applyShortcutTitles lang mac =
     map (\<lambda>(i, label, key). (i, if key \<noteq> [] then label @ js '' ('' @ key @ js '')'' else label))
       (shortcut_hints lang (if mac then [8984] else js ''Ctrl+''))"

definition currentThemePreference :: "jsstring option \<Rightarrow> jsstring" where
  [js_eval]: "currentThemePreference stored = or_empty stored"

text \<open>The icon, by its key in \<open>THEME_ICONS\<close>, and the title.\<close>

definition theme_button :: "jsstring \<Rightarrow> jsstring \<Rightarrow> jsstring \<times> jsstring" where
  [js_eval]: "theme_button lang pref =
     (if pref = js ''dark'' then js ''dark'' else if pref = js ''light'' then js ''light'' else js ''auto'',
      tf lang ([20027, 39064, 65306, 123, 48, 125])
        [t lang (if pref = js ''dark'' then [28145, 33394] else if pref = js ''light'' then [27973, 33394] else [33258, 21160])])"

definition hljs_href :: "jsstring \<Rightarrow> bool \<Rightarrow> jsstring" where
  [js_eval]: "hljs_href pref systemDark =
     (if hljs_dark pref systemDark then js ''/static/vendor/highlight.github-dark.css''
      else js ''/static/vendor/highlight.github.css'')"

text \<open>The link to the style sheet: \<open>None\<close> before the first use, afterwards its address.\<close>

definition applyHljsThemeHref :: "jsstring \<Rightarrow> bool \<Rightarrow> jsstring option \<Rightarrow> jsstring option" where
  [js_eval]: "applyHljsThemeHref pref systemDark link = map_option (\<lambda>_. hljs_href pref systemDark) link"

definition ensureHljsTheme :: "jsstring \<Rightarrow> bool \<Rightarrow> jsstring option \<Rightarrow> jsstring option" where
  [js_eval]: "ensureHljsTheme pref systemDark link =
     (case link of Some h \<Rightarrow> Some h | None \<Rightarrow> applyHljsThemeHref pref systemDark (Some []))"

section \<open>Room title and share dialog\<close>

definition updateRoomTitleChrome :: "jsstring \<Rightarrow> jsstring \<Rightarrow> bool \<Rightarrow> jsstring \<times> jsstring \<times> bool" where
  [js_eval]: "updateRoomTitleChrome lang key enabled =
     (js ''/'' @ key,
      t lang [25151, 38388, 32] @ key @ t lang (if enabled then [32, 183, 32, 25991, 20214, 19978, 20256, 24050, 24320, 21551, 65288, 19977, 20987, 20999, 25442, 65289]
                                      else [32, 183, 32, 25991, 20214, 19978, 20256, 24050, 20851, 38381, 65288, 19977, 20987, 31649, 29702, 21592, 24320, 20851, 65289]),
      enabled)"

record share_view =
  sv_url :: jsstring
  sv_pass :: jsstring
  sv_copy :: jsstring
  sv_reset_hidden :: bool
  sv_unlock_hidden :: bool
  sv_hint :: jsstring
  sv_note :: jsstring
  sv_qr :: jsstring

text \<open>
  \<open>qrcode\<close> is \<open>None\<close> before its script arrived; making the code may throw, and then, as before the script arrived,
  the address stands in its place. The result is \<open>None\<close> when \<open>encodeURIComponent\<close> throws.
\<close>

definition renderShareUrls :: "(jsstring \<Rightarrow> jsstring option) option \<Rightarrow> jsstring \<Rightarrow> jsstring \<Rightarrow> jsstring \<Rightarrow>
    app \<Rightarrow> share_view option" where
  [js_eval]: "renderShareUrls qrcode lang shareMode roomEditUrl a =
     (case shareUrlWithMode shareMode roomEditUrl of
        None \<Rightarrow> None
      | Some url \<Rightarrow>
          (let locked = editPasswordSet a
           in Some \<lparr>sv_url = url,
                sv_pass = (if locked then t lang [24050, 35774, 32622] @ [32, 183, 32] @
                             t lang (if passwordScope a = js ''view'' then [26597, 30475] else [32534, 36753])
                           else t lang [26410, 35774, 32622]),
                sv_copy = t lang (if locked then [22797, 21046] else [35774, 32622]),
                sv_reset_hidden = (\<not> locked), sv_unlock_hidden = (\<not> locked),
                sv_hint = (if \<not> locked then t lang [26410, 38145, 23450, 65306, 20219, 20309, 25343, 21040, 38142, 25509, 30340, 20154, 37117, 33021, 26597, 30475, 21644, 32534, 36753, 12290, 24314, 35758, 20808, 35774, 32622, 23494, 30721, 20877, 20998, 20139]
                           else if passwordScope a = js ''view'' then t lang [24050, 38145, 23450, 65306, 26597, 30475, 21644, 32534, 36753, 37117, 38656, 35201, 36755, 20837, 23494, 30721]
                           else t lang [24050, 38145, 23450, 65306, 32534, 36753, 38656, 35201, 36755, 20837, 23494, 30721]),
                sv_note = t lang [20108, 32500, 30721, 20026, 25151, 38388, 38142, 25509, 65292, 25195, 30721, 21363, 21487, 25171, 24320],
                sv_qr = (case qrcode of
                           Some draw \<Rightarrow> (case draw url of Some svg \<Rightarrow> svg | None \<Rightarrow> url)
                         | None \<Rightarrow> url)\<rparr>))"

section \<open>Peers\<close>

text \<open>The labels the style sheet shows, and whether the panel is marked as loading.\<close>

definition peers_panel :: "jsstring \<Rightarrow> app \<Rightarrow> jsstring \<times> jsstring \<times> bool" where
  [js_eval]: "peers_panel lang a =
     (t lang [31163, 32447], t lang [36830, 25509, 20013, 8230], \<not> (ws_connected a \<or> initialSnapshotApplied a))"

text \<open>The title of a tab, and the label of the own one.\<close>

definition peer_tab_texts :: "jsstring \<Rightarrow> jsstring \<Rightarrow> bool \<Rightarrow> jsstring \<times> jsstring option" where
  [js_eval]: "peer_tab_texts lang i isSelf =
     ((if isSelf then t lang [33258, 24049, 32, 183, 32] else t lang [21327, 20316, 32773, 32, 183, 32]) @ i, if isSelf then Some (t lang [25105]) else None)"

section \<open>Facts\<close>

text \<open>Code units from the CJK radicals up: no English text has one.\<close>

definition chinese :: "jsstring \<Rightarrow> bool" where
  [js_eval]: "chinese s \<longleftrightarrow> list_ex (\<lambda>u. 0x2E80 \<le> u) s"

lemma chinese_simps [simp]:
  "chinese [] = False" "chinese (u # us) = (0x2E80 \<le> u \<or> chinese us)" "chinese (xs @ ys) = (chinese xs \<or> chinese ys)"
  by (simp_all add: chinese_def)

lemma of_char_unit: "(of_char c :: codeunit) < 0x2E80"
proof -
  have "(of_char c :: nat) < 256" by (metis of_char_mod_256 mod_less_divisor zero_less_numeral)
  then have "unat (of_nat (of_char c) :: codeunit) < 256"
    by (simp only: unat_of_nat le_less_trans [OF mod_less_eq_dividend])
  then show ?thesis by (simp add: word_less_nat_alt of_nat_of_char)
qed

lemma chinese_js [simp]: "\<not> chinese (js s)"
  using of_char_unit by (auto simp: chinese_def js_def list_ex_iff not_le)

lemma js_empty [simp]: "js s = [] \<longleftrightarrow> s = []"
  by (simp add: js_def)

lemma EN_not_chinese: "list_all (\<lambda>(k, v). \<not> chinese v) EN"
  by (simp add: EN_def EN_room_def EN_panels_def EN_files_def EN_access_def)

text \<open>A text the table knows loses its Chinese in English, any other is shown as it stands.\<close>

lemma t_english: "chinese (t (js ''en'') s) = (s \<notin> fst ` set EN \<and> chinese s)"
proof (cases "map_of (rev EN) s")
  case None
  then have "s \<notin> fst ` set EN" by (simp add: map_of_eq_None_iff)
  then show ?thesis using None by (simp add: t_def)
next
  case (Some v)
  then have "(s, v) \<in> set EN" by (auto dest: map_of_SomeD)
  then show ?thesis using Some EN_not_chinese by (force simp: t_def list_all_iff)
qed

lemma t_unknown: "s \<notin> fst ` set EN \<Longrightarrow> t lang s = s"
  using map_of_eq_None_iff [of "rev EN" s] by (simp add: t_def)

lemma in_EN_room: "i < length EN_room \<Longrightarrow> fst (EN_room ! i) \<in> fst ` set EN"
  by (simp add: EN_def)

lemma in_EN_panels: "i < length EN_panels \<Longrightarrow> fst (EN_panels ! i) \<in> fst ` set EN"
  by (simp add: EN_def)

lemma in_EN_files: "i < length EN_files \<Longrightarrow> fst (EN_files ! i) \<in> fst ` set EN"
  by (simp add: EN_def)

lemma in_EN_access: "i < length EN_access \<Longrightarrow> fst (EN_access ! i) \<in> fst ` set EN"
  by (simp add: EN_def)

lemma known_texts [simp]:
  "[24050, 35774, 32622] \<in> fst ` set EN"
  "[26597, 30475] \<in> fst ` set EN"
  "[32534, 36753] \<in> fst ` set EN"
  "[26410, 35774, 32622] \<in> fst ` set EN"
  "[22797, 21046] \<in> fst ` set EN"
  "[35774, 32622] \<in> fst ` set EN"
  "[24050, 38145, 23450, 65306, 26597, 30475, 21644, 32534, 36753, 37117, 38656, 35201, 36755, 20837, 23494, 30721] \<in> fst ` set EN"
  "[24050, 38145, 23450, 65306, 32534, 36753, 38656, 35201, 36755, 20837, 23494, 30721] \<in> fst ` set EN"
  "[20108, 32500, 30721, 20026, 25151, 38388, 38142, 25509, 65292, 25195, 30721, 21363, 21487, 25171, 24320] \<in> fst ` set EN"
  "[25764, 38144] \<in> fst ` set EN"
  "[37325, 20570] \<in> fst ` set EN"
  "[77, 97, 114, 107, 100, 111, 119, 110, 32, 39044, 35272] \<in> fst ` set EN"
  "[29256, 26412, 21382, 21490] \<in> fst ` set EN"
  "[20998, 20139, 38142, 25509] \<in> fst ` set EN"
  "[26032, 24314, 25151, 38388] \<in> fst ` set EN"
  "[25151, 38388, 32] \<in> fst ` set EN"
  "[32, 183, 32, 25991, 20214, 19978, 20256, 24050, 24320, 21551, 65288, 19977, 20987, 20999, 25442, 65289] \<in> fst ` set EN"
  "[32, 183, 32, 25991, 20214, 19978, 20256, 24050, 20851, 38381, 65288, 19977, 20987, 31649, 29702, 21592, 24320, 20851, 65289] \<in> fst ` set EN"
proof -
  show "[24050, 35774, 32622] \<in> fst ` set EN"
    using in_EN_files [of 6] by (simp add: EN_files_def)
  show "[26597, 30475] \<in> fst ` set EN"
    using in_EN_files [of 4] by (simp add: EN_files_def)
  show "[32534, 36753] \<in> fst ` set EN"
    using in_EN_access [of 27] by (simp add: EN_access_def)
  show "[26410, 35774, 32622] \<in> fst ` set EN"
    using in_EN_files [of 5] by (simp add: EN_files_def)
  show "[22797, 21046] \<in> fst ` set EN"
    using in_EN_access [of 12] by (simp add: EN_access_def)
  show "[35774, 32622] \<in> fst ` set EN"
    using in_EN_files [of 2] by (simp add: EN_files_def)
  show "[24050, 38145, 23450, 65306, 26597, 30475, 21644, 32534, 36753, 37117, 38656, 35201, 36755, 20837, 23494, 30721] \<in> fst ` set EN"
    using in_EN_files [of 1] by (simp add: EN_files_def)
  show "[24050, 38145, 23450, 65306, 32534, 36753, 38656, 35201, 36755, 20837, 23494, 30721] \<in> fst ` set EN"
    using in_EN_files [of 13] by (simp add: EN_files_def)
  show "[20108, 32500, 30721, 20026, 25151, 38388, 38142, 25509, 65292, 25195, 30721, 21363, 21487, 25171, 24320] \<in> fst ` set EN"
    using in_EN_access [of 11] by (simp add: EN_access_def)
  show "[25764, 38144] \<in> fst ` set EN"
    using in_EN_panels [of 33] by (simp add: EN_panels_def)
  show "[37325, 20570] \<in> fst ` set EN"
    using in_EN_panels [of 34] by (simp add: EN_panels_def)
  show "[77, 97, 114, 107, 100, 111, 119, 110, 32, 39044, 35272] \<in> fst ` set EN"
    using in_EN_panels [of 35] by (simp add: EN_panels_def)
  show "[29256, 26412, 21382, 21490] \<in> fst ` set EN"
    using in_EN_files [of 14] by (simp add: EN_files_def)
  show "[20998, 20139, 38142, 25509] \<in> fst ` set EN"
    using in_EN_access [of 7] by (simp add: EN_access_def)
  show "[26032, 24314, 25151, 38388] \<in> fst ` set EN"
    using in_EN_access [of 15] by (simp add: EN_access_def)
  show "[25151, 38388, 32] \<in> fst ` set EN"
    using in_EN_room [of 19] by (simp add: EN_room_def)
  show "[32, 183, 32, 25991, 20214, 19978, 20256, 24050, 24320, 21551, 65288, 19977, 20987, 20999, 25442, 65289] \<in> fst ` set EN"
    using in_EN_room [of 20] by (simp add: EN_room_def)
  show "[32, 183, 32, 25991, 20214, 19978, 20256, 24050, 20851, 38381, 65288, 19977, 20987, 31649, 29702, 21592, 24320, 20851, 65289] \<in> fst ` set EN"
    using in_EN_room [of 21] by (simp add: EN_room_def)
qed

text \<open>No key has the length of the first of these texts, none ends in a brace as the second does.\<close>

lemma unknown_texts [simp]:
  "[26410, 38145, 23450, 65306, 20219, 20309, 25343, 21040, 38142, 25509, 30340, 20154, 37117, 33021, 26597, 30475, 21644, 32534, 36753, 12290, 24314, 35758, 20808, 35774, 32622, 23494, 30721, 20877, 20998, 20139] \<notin> fst ` set EN"
  "[20027, 39064, 65306, 123, 48, 125] \<notin> fst ` set EN"
proof -
  have "list_all (\<lambda>k. length k \<noteq> 30) (map fst EN)"
    by (simp add: EN_def EN_room_def EN_panels_def EN_files_def EN_access_def)
  then have "\<forall>k \<in> fst ` set EN. length k \<noteq> 30" by (simp only: list_all_iff set_map)
  then show "[26410, 38145, 23450, 65306, 20219, 20309, 25343, 21040, 38142, 25509, 30340, 20154, 37117, 33021, 26597, 30475, 21644, 32534, 36753, 12290, 24314, 35758, 20808, 35774, 32622, 23494, 30721, 20877, 20998, 20139] \<notin> fst ` set EN" by force
  have "list_all (\<lambda>k. last k \<noteq> 125) (map fst EN)"
    by (simp add: EN_def EN_room_def EN_panels_def EN_files_def EN_access_def)
  then have "\<forall>k \<in> fst ` set EN. last k \<noteq> 125" by (simp only: list_all_iff set_map)
  then show "[20027, 39064, 65306, 123, 48, 125] \<notin> fst ` set EN" by force
qed

text \<open>English texts. In the English page the share dialog has a Chinese text exactly in an unlocked room, the hint
  for which the table has no entry; its other texts are English.\<close>

lemma share_hint_stays_chinese:
  "map_option (\<lambda>v. (chinese (sv_pass v), chinese (sv_copy v), chinese (sv_note v), chinese (sv_hint v)))
     (renderShareUrls qrcode (js ''en'') mode url a) =
   map_option (\<lambda>_. (False, False, False, \<not> editPasswordSet a)) (shareUrlWithMode mode url)"
  by (cases "shareUrlWithMode mode url") (simp_all add: renderShareUrls_def Let_def t_english)

lemma theme_title_stays_chinese: "chinese (snd (theme_button (js ''en'') pref))"
  by (simp add: theme_button_def tf_def t_unknown placeholder_def js_def)

lemma shortcut_titles_english:
  "map (chinese \<circ> snd) (applyShortcutTitles (js ''en'') mac) = [False, False, False, False, False, False]"
  by (simp add: applyShortcutTitles_def shortcut_hints_def t_english)

lemma room_title_english:
  "chinese (fst (snd (updateRoomTitleChrome (js ''en'') key enabled))) = chinese key"
  by (simp add: updateRoomTitleChrome_def t_english)

end
