(* ===== verification/Clipboard.thy ===== *)
theory Clipboard
  imports Timers Translations
begin

text \<open>
  Copying, dropping and pasting (\<open>static/app.js\<close>): the feedback a copy button gives (\<open>copyText\<close>), the highlight of
  the page while files are dragged over it, and which files a paste uploads. The contents of a button are a list of
  nodes: reading \<open>textContent\<close> joins its texts, writing it replaces them all by one. What a drop or a paste uploads
  goes on in \<open>FilesDropped\<close> and \<open>FilesPasted\<close> of the page.
\<close>

section \<open>Copy buttons\<close>

fun textContent :: "node \<Rightarrow> jsstring" where
  "textContent (TextNode s) = s"
| "textContent (OtherNode s) = []"
| "textContent (Element tag attrs subs) = concat (map textContent subs)"

definition text_nodes :: "jsstring \<Rightarrow> node list" where
  [js_eval]: "text_nodes s = (if s = [] then [] else [TextNode s])"

text \<open>\<open>copy_restores\<close>: the timers that restore the text, with the text they restore.\<close>

record copy_button =
  copy_nodes :: "node list"
  copy_ok :: bool
  copy_restores :: "(nat \<times> jsstring) list"

definition copy_label :: "copy_button \<Rightarrow> jsstring" where
  [js_eval]: "copy_label b = concat (map textContent (copy_nodes b))"

definition copied_label :: "jsstring \<Rightarrow> jsstring" where
  [js_eval]: "copied_label lang = t lang [24050, 22797, 21046]"

definition copy_done :: "jsstring \<Rightarrow> nat \<Rightarrow> copy_button \<Rightarrow> copy_button" where
  [js_eval]: "copy_done lang now b =
     b\<lparr>copy_nodes := text_nodes (copied_label lang), copy_ok := True,
       copy_restores := copy_restores b @ [(now + 1200, copy_label b)]\<rparr>"

definition copy_restore :: "jsstring \<Rightarrow> copy_button \<Rightarrow> copy_button" where
  [js_eval]: "copy_restore old b = b\<lparr>copy_nodes := text_nodes old, copy_ok := False\<rparr>"

text \<open>The timers due by \<open>now\<close> fire; they all wait equally long, so they are due in the order they were set.\<close>

definition copy_tick :: "nat \<Rightarrow> copy_button \<Rightarrow> copy_button" where
  [js_eval]: "copy_tick now b =
     fold (\<lambda>(d, old). copy_restore old) (filter (\<lambda>(d, old). d \<le> now) (copy_restores b))
       (b\<lparr>copy_restores := filter (\<lambda>(d, old). now < d) (copy_restores b)\<rparr>)"

text \<open>
  What \<open>copyText\<close> does with the outcome of the clipboard (\<open>None\<close>: no such interface; otherwise whether the write
  succeeded): whether the fallback runs, and the button.
\<close>

definition copyText :: "jsstring \<Rightarrow> jsstring \<Rightarrow> bool option \<Rightarrow> nat \<Rightarrow> copy_button option \<Rightarrow> bool \<times> copy_button option" where
  [js_eval]: "copyText lang text clipboard now btn =
     (if text = [] then (False, btn)
      else let fed = map_option (copy_done lang now) btn
           in case clipboard of Some True \<Rightarrow> (False, fed) | Some False \<Rightarrow> (True, fed) | None \<Rightarrow> (True, fed))"

lemma copy_label_text [simp]: "concat (map textContent (text_nodes s)) = s"
  by (simp add: text_nodes_def)

section \<open>Dragging files\<close>

record drag =
  dragDepth :: nat
  file_dragover :: bool

text \<open>The types and the number of files of a data transfer; \<open>None\<close> when the event has none.\<close>

type_synonym transfer = "(jsstring list \<times> nat) option"

definition hasFiles :: "transfer \<Rightarrow> bool" where
  [js_eval]: "hasFiles tr =
     (case tr of None \<Rightarrow> False
      | Some (types, files) \<Rightarrow> if list_ex (\<lambda>ty. ty = js ''Files'') types then True else files \<noteq> 0)"

definition dragenter :: "transfer \<Rightarrow> drag \<Rightarrow> drag" where
  [js_eval]: "dragenter tr s =
     (if \<not> hasFiles tr then s else s\<lparr>dragDepth := dragDepth s + 1, file_dragover := True\<rparr>)"

definition dragleave :: "transfer \<Rightarrow> drag \<Rightarrow> drag" where
  [js_eval]: "dragleave tr s =
     (if \<not> hasFiles tr \<and> dragDepth s = 0 then s
      else let s1 = s\<lparr>dragDepth := dragDepth s - 1\<rparr>
           in if dragDepth s1 = 0 then s1\<lparr>file_dragover := False\<rparr> else s1)"

text \<open>The drop, and how many files it uploads.\<close>

definition file_drop :: "transfer \<Rightarrow> bool \<Rightarrow> drag \<Rightarrow> drag \<times> nat" where
  [js_eval]: "file_drop tr readOnly s =
     (s\<lparr>dragDepth := 0, file_dragover := False\<rparr>,
      if \<not> hasFiles tr then 0 else if readOnly then 0
      else case tr of None \<Rightarrow> 0 | Some (types, files) \<Rightarrow> files)"

datatype drag_event = DragEnter transfer | DragLeave transfer | DragDrop transfer bool

definition drag_step :: "drag_event \<Rightarrow> drag \<Rightarrow> drag" where
  [js_eval]: "drag_step e s =
     (case e of DragEnter tr \<Rightarrow> dragenter tr s | DragLeave tr \<Rightarrow> dragleave tr s | DragDrop tr ro \<Rightarrow> fst (file_drop tr ro s))"

lemma drag_highlight:
  "file_dragover (fold drag_step es \<lparr>dragDepth = 0, file_dragover = False\<rparr>) =
   (0 < dragDepth (fold drag_step es \<lparr>dragDepth = 0, file_dragover = False\<rparr>))"
  by (induction es rule: rev_induct)
    (auto simp: drag_step_def dragenter_def dragleave_def file_drop_def Let_def split: drag_event.split)

section \<open>Pasting\<close>

text \<open>An item of the clipboard: a file, which the browser may fail to hand out, or a string; other kinds do not exist.\<close>

datatype paste_item = FileItem "file_blob option" | StringItem

fun pasted_files :: "paste_item list \<Rightarrow> file_blob list" where
  "pasted_files [] = []"
| "pasted_files (FileItem (Some f) # ps) = f # pasted_files ps"
| "pasted_files (FileItem None # ps) = pasted_files ps"
| "pasted_files (StringItem # ps) = pasted_files ps"

text \<open>The files a paste uploads, \<open>None\<close> when it is left to the browser.\<close>

definition paste_upload :: "bool \<Rightarrow> paste_item list \<Rightarrow> file_blob list option" where
  [js_eval]: "paste_upload inEditor ps =
     (let files = pasted_files ps; hasText = list_ex (\<lambda>p. p = StringItem) ps
      in if files = [] then None else if inEditor \<and> hasText then None else Some files)"

definition paste_event :: "bool \<Rightarrow> paste_item list \<Rightarrow> page \<Rightarrow> page" where
  [js_eval]: "paste_event inEditor ps s =
     (case paste_upload inEditor ps of None \<Rightarrow> s | Some files \<Rightarrow> promptUploadFiles files s)"

text \<open>
  The paste button of an empty room, by what the clipboard answers (\<open>None\<close>: no such interface; \<open>Some None\<close>: refused):
  the warning shown, or the text inserted at the caret.
\<close>

definition empty_paste :: "jsstring \<Rightarrow> jsstring option option \<Rightarrow> jsstring + jsstring" where
  [js_eval]: "empty_paste lang answer =
     (case answer of
        None \<Rightarrow> Inl (t lang [35831, 25353, 32, 67, 116, 114, 108, 47, 8984, 43, 86, 32, 31896, 36148])
      | Some None \<Rightarrow> Inl (t lang [27983, 35272, 22120, 26410, 25480, 26435, 35835, 21462, 21098, 36148, 26495, 65292, 35831, 25353, 32, 67, 116, 114, 108, 47, 8984, 43, 86, 32, 31896, 36148])
      | Some (Some pasted) \<Rightarrow> Inr pasted)"

section \<open>Properties\<close>

text \<open>One click: 1200 ms later the text is back, but the elements of the button, its icon, are gone.\<close>

lemma copy_restores_text:
  assumes "copy_restores b = []" "n + 1200 \<le> T"
  shows "copy_tick T (copy_done lang n b) = \<lparr>copy_nodes = text_nodes (copy_label b), copy_ok = False, copy_restores = [],
    \<dots> = copy_button.more b\<rparr>"
  using assms by (simp add: copy_tick_def copy_done_def copy_restore_def)

text \<open>Two clicks on a copy button. A click within 1200 ms of another takes the feedback for the text of the button: when
  every timer has fired the button still says that it copied, while its colour says it is at rest.\<close>

lemma double_copy_sticks:
  assumes "copy_restores b = []" "n \<le> m" "m < n + 1200" "m + 1200 \<le> T"
  shows "let b' = copy_tick T (copy_done lang m (copy_tick m (copy_done lang n b)))
    in copy_label b' = copied_label lang \<and> \<not> copy_ok b' \<and> copy_restores b' = []"
  using assms by (simp add: Let_def copy_tick_def copy_done_def copy_restore_def copy_label_def)

end
