(* ===== verification/Toasts.thy ===== *)
theory Toasts
  imports View
begin

text \<open>
  The notices of the page (\<open>showToast\<close>, \<open>dismissToast\<close>): a notice is dismissed by its button or 4000 ms after it was
  shown, and taken off the page 180 ms later, when its animation is over. Time passes in steps of a millisecond, each
  of which fires the timers due then in the order they were set. A wrapper without notices stands for one that was
  not made yet. \<open>toast_shown\<close>, the time a notice was made, is not kept by the code: it lets the properties speak of age.
\<close>

record toast_elem =
  toast_id :: nat
  toast_kind :: jsstring
  toast_msg :: jsstring
  toast_leaving :: bool
  toast_shown :: nat

datatype toast_timer = DismissAt nat nat | RemoveAt nat nat

record toasts =
  toast_clock :: nat
  toast_next :: nat
  toastWrap :: "toast_elem list"
  toast_timers :: "toast_timer list"

fun timer_due :: "toast_timer \<Rightarrow> nat" where
  "timer_due (DismissAt d i) = d"
| "timer_due (RemoveAt d i) = d"

fun timer_toast :: "toast_timer \<Rightarrow> nat" where
  "timer_toast (DismissAt d i) = i"
| "timer_toast (RemoveAt d i) = i"

definition toast_tone :: "jsstring \<Rightarrow> jsstring" where
  [js_eval]: "toast_tone tone = (if tone = js ''ok'' then js ''ok'' else if tone = js ''warn'' then js ''warn'' else js ''err'')"

definition toast_role :: "jsstring \<Rightarrow> jsstring" where
  [js_eval]: "toast_role kind = (if kind = js ''err'' then js ''alert'' else js ''status'')"

definition showToast :: "jsstring \<Rightarrow> jsstring \<Rightarrow> toasts \<Rightarrow> toasts" where
  [js_eval]: "showToast msg tone s =
     (let i = toast_next s
      in s\<lparr>toast_next := i + 1,
           toastWrap := toastWrap s @ [\<lparr>toast_id = i, toast_kind = toast_tone tone, toast_msg = msg,
             toast_leaving = False, toast_shown = toast_clock s\<rparr>],
           toast_timers := toast_timers s @ [DismissAt (toast_clock s + 4000) i]\<rparr>)"

definition dismissToast :: "nat \<Rightarrow> toasts \<Rightarrow> toasts" where
  [js_eval]: "dismissToast i s =
     (if i \<notin> toast_id ` set (toastWrap s) then s
      else s\<lparr>toastWrap := map (\<lambda>x. if toast_id x = i then x\<lparr>toast_leaving := True\<rparr> else x) (toastWrap s),
             toast_timers := toast_timers s @ [RemoveAt (toast_clock s + 180) i]\<rparr>)"

definition remove_toast :: "nat \<Rightarrow> toasts \<Rightarrow> toasts" where
  [js_eval]: "remove_toast i s = s\<lparr>toastWrap := filter (\<lambda>x. toast_id x \<noteq> i) (toastWrap s)\<rparr>"

fun fire_toast :: "toast_timer \<Rightarrow> toasts \<Rightarrow> toasts" where
  "fire_toast (DismissAt d i) s = dismissToast i s"
| "fire_toast (RemoveAt d i) s = remove_toast i s"

definition toast_millisecond :: "toasts \<Rightarrow> toasts" where
  [js_eval]: "toast_millisecond s =
     (let now = toast_clock s + 1
      in fold fire_toast (filter (\<lambda>tm. timer_due tm = now) (toast_timers s))
           (s\<lparr>toast_clock := now, toast_timers := filter (\<lambda>tm. timer_due tm \<noteq> now) (toast_timers s)\<rparr>))"

datatype toast_event = ToastShown jsstring jsstring | ToastClosed nat | ToastMillisecond

definition toast_step :: "toast_event \<Rightarrow> toasts \<Rightarrow> toasts" where
  [js_eval]: "toast_step e s =
     (case e of ToastShown msg tone \<Rightarrow> showToast msg tone s | ToastClosed i \<Rightarrow> dismissToast i s
      | ToastMillisecond \<Rightarrow> toast_millisecond s)"

definition no_toasts :: toasts where
  [js_eval]: "no_toasts = \<lparr>toast_clock = 0, toast_next = 0, toastWrap = [], toast_timers = []\<rparr>"

section \<open>Every notice has a timer that ends it\<close>

text \<open>The timers of \<open>T\<close>, those of the state and those a millisecond has yet to fire, are not overdue and end every notice.\<close>

definition ends_in_time :: "toast_timer set \<Rightarrow> toast_elem \<Rightarrow> bool" where
  "ends_in_time T x \<longleftrightarrow>
     (if toast_leaving x then \<exists>d \<le> toast_shown x + 4180. RemoveAt d (toast_id x) \<in> T
      else DismissAt (toast_shown x + 4000) (toast_id x) \<in> T)"

definition timers_ok :: "toast_timer set \<Rightarrow> toasts \<Rightarrow> bool" where
  "timers_ok T s \<longleftrightarrow>
     (\<forall>tm \<in> T. toast_clock s \<le> timer_due tm \<and> timer_toast tm < toast_next s) \<and>
     (\<forall>x \<in> set (toastWrap s). ends_in_time T x \<and> toast_id x < toast_next s)"

definition toasts_inv :: "toasts \<Rightarrow> bool" where
  "toasts_inv s \<longleftrightarrow> timers_ok (set (toast_timers s)) s \<and> (\<forall>tm \<in> set (toast_timers s). toast_clock s < timer_due tm)"

lemma toast_fields [simp]:
  "toast_clock (dismissToast i s) = toast_clock s" "toast_next (dismissToast i s) = toast_next s"
  "toast_clock (remove_toast i s) = toast_clock s" "toast_next (remove_toast i s) = toast_next s"
  "toast_timers (remove_toast i s) = toast_timers s"
  "toast_clock (fire_toast tm s) = toast_clock s" "toast_next (fire_toast tm s) = toast_next s"
  by (cases tm; simp add: dismissToast_def remove_toast_def)+

lemma fire_clock [simp]:
  "toast_clock (fold fire_toast tms s) = toast_clock s" "toast_next (fold fire_toast tms s) = toast_next s"
  by (induction tms arbitrary: s) simp_all

lemma dismiss_timers: "set (toast_timers s) \<subseteq> set (toast_timers (dismissToast i s))"
  "tm \<in> set (toast_timers (dismissToast i s)) \<Longrightarrow> tm \<in> set (toast_timers s) \<or> tm = RemoveAt (toast_clock s + 180) i"
  by (auto simp: dismissToast_def split: if_splits)

text \<open>Firing one of the timers due now.\<close>

lemma dismiss_ends:
  assumes e: "ends_in_time (insert (DismissAt d i) (F \<union> set (toast_timers s))) x"
    and late: "\<not> toast_leaving x \<Longrightarrow> toast_clock s \<le> toast_shown x + 4000"
    and i: "i \<in> toast_id ` set (toastWrap s)"
  shows "ends_in_time (F \<union> set (toast_timers (dismissToast i s))) (if toast_id x = i then x\<lparr>toast_leaving := True\<rparr> else x)"
proof (cases "\<not> toast_leaving x \<and> toast_id x = i")
  case True
  then show ?thesis using late i
    by (auto simp: ends_in_time_def dismissToast_def intro!: exI [of _ "toast_clock s + 180"])
next
  case False
  then show ?thesis using e i by (auto simp: ends_in_time_def dismissToast_def split: if_splits)
qed

lemma not_overdue:
  "timers_ok T s \<Longrightarrow> x \<in> set (toastWrap s) \<Longrightarrow> \<not> toast_leaving x \<Longrightarrow> toast_clock s \<le> toast_shown x + 4000"
  unfolding timers_ok_def ends_in_time_def by force

lemma fire_ends:
  assumes ok: "timers_ok (insert tm (F \<union> set (toast_timers s))) s" and due: "timer_due tm = toast_clock s"
  shows "timers_ok (F \<union> set (toast_timers (fire_toast tm s))) (fire_toast tm s)"
proof (cases tm)
  case (RemoveAt d i)
  then show ?thesis using ok by (auto simp: timers_ok_def remove_toast_def ends_in_time_def split: if_splits)
next
  case (DismissAt d i)
  show ?thesis
  proof (cases "i \<in> toast_id ` set (toastWrap s)")
    case False
    then show ?thesis using ok DismissAt
      by (fastforce simp: timers_ok_def dismissToast_def ends_in_time_def image_iff split: if_splits)
  next
    case True
    let ?T = "F \<union> set (toast_timers (dismissToast i s))"
    have ids: "toast_id x < toast_next s" if "x \<in> set (toastWrap s)" for x
      using ok that by (simp add: timers_ok_def)
    have "toast_clock s \<le> timer_due f \<and> timer_toast f < toast_next s" if "f \<in> ?T" for f
      using that ok dismiss_timers(2) [of f i s] True ids by (auto simp: timers_ok_def)
    moreover have "ends_in_time ?T y \<and> toast_id y < toast_next s" if y: "y \<in> set (toastWrap (dismissToast i s))" for y
    proof -
      obtain x where x: "x \<in> set (toastWrap s)" "y = (if toast_id x = i then x\<lparr>toast_leaving := True\<rparr> else x)"
        using y True by (auto simp: dismissToast_def)
      have "ends_in_time (insert (DismissAt d i) (F \<union> set (toast_timers s))) x"
        using ok x(1) DismissAt by (simp add: timers_ok_def)
      then have "ends_in_time ?T y"
        unfolding x(2) using not_overdue [OF ok x(1)] True by (rule dismiss_ends)
      then show ?thesis using x ids [of x] by (auto split: if_splits)
    qed
    ultimately show ?thesis by (simp add: timers_ok_def DismissAt)
  qed
qed

lemma fires_end:
  "timers_ok (set tms \<union> set (toast_timers s)) s \<Longrightarrow> \<forall>tm \<in> set tms. timer_due tm = toast_clock s \<Longrightarrow>
   timers_ok (set (toast_timers (fold fire_toast tms s))) (fold fire_toast tms s)"
proof (induction tms arbitrary: s)
  case (Cons tm tms)
  then have "timers_ok (set tms \<union> set (toast_timers (fire_toast tm s))) (fire_toast tm s)"
    by (intro fire_ends) simp_all
  then show ?case using Cons.IH Cons.prems(2) by simp
qed simp

lemma fire_later:
  "\<forall>tm \<in> set (toast_timers s). toast_clock s < timer_due tm \<Longrightarrow>
   \<forall>tm \<in> set (toast_timers (fold fire_toast tms s)). toast_clock s < timer_due tm"
proof (induction tms arbitrary: s)
  case (Cons f tms)
  have "\<forall>tm \<in> set (toast_timers (fire_toast f s)). toast_clock s < timer_due tm"
    using Cons.prems dismiss_timers(2) by (cases f) fastforce+
  then show ?case using Cons.IH [of "fire_toast f s"] by simp
qed simp

lemma toasts_inv_step: "toasts_inv s \<Longrightarrow> toasts_inv (toast_step e s)"
proof (cases e)
  case (ToastShown msg tone)
  moreover assume "toasts_inv s"
  ultimately show ?thesis
    by (auto simp: toast_step_def showToast_def Let_def toasts_inv_def timers_ok_def ends_in_time_def split: if_splits)
next
  case (ToastClosed i)
  assume inv: "toasts_inv s"
  then have "timers_ok (insert (DismissAt (toast_clock s) i) (set (toast_timers s))) s \<or> i \<notin> toast_id ` set (toastWrap s)"
    by (auto simp: toasts_inv_def timers_ok_def ends_in_time_def split: if_splits)
  then have "timers_ok (set (toast_timers (dismissToast i s))) (dismissToast i s)"
    using fire_ends [of "DismissAt (toast_clock s) i" "{}" s] inv by (auto simp: toasts_inv_def dismissToast_def)
  moreover have "\<forall>tm \<in> set (toast_timers (dismissToast i s)). toast_clock s < timer_due tm"
    using inv dismiss_timers(2) by (fastforce simp: toasts_inv_def)
  ultimately show ?thesis by (simp add: toasts_inv_def toast_step_def ToastClosed)
next
  case ToastMillisecond
  assume inv: "toasts_inv s"
  define now where "now = toast_clock s + 1"
  define tms where "tms = filter (\<lambda>tm. timer_due tm = now) (toast_timers s)"
  define s1 where "s1 = s\<lparr>toast_clock := now, toast_timers := filter (\<lambda>tm. timer_due tm \<noteq> now) (toast_timers s)\<rparr>"
  have all: "set tms \<union> set (toast_timers s1) = set (toast_timers s)" by (auto simp: tms_def s1_def)
  have "timers_ok (set tms \<union> set (toast_timers s1)) s1"
    using inv unfolding all by (auto simp: toasts_inv_def timers_ok_def s1_def now_def)
  then have 1: "timers_ok (set (toast_timers (fold fire_toast tms s1))) (fold fire_toast tms s1)"
    by (rule fires_end) (simp add: tms_def s1_def)
  have "\<forall>tm \<in> set (toast_timers s1). toast_clock s1 < timer_due tm"
    using inv by (fastforce simp: toasts_inv_def s1_def now_def)
  from fire_later [OF this, of tms] have "toasts_inv (fold fire_toast tms s1)" using 1 by (simp add: toasts_inv_def)
  then show ?thesis
    by (simp add: toast_step_def ToastMillisecond toast_millisecond_def Let_def s1_def tms_def now_def)
qed

lemma toasts_inv_run: "toasts_inv s \<Longrightarrow> toasts_inv (fold toast_step es s)"
  by (induction es arbitrary: s) (simp_all add: toasts_inv_step)

lemma toasts_inv_start: "toasts_inv no_toasts"
  by (simp add: toasts_inv_def timers_ok_def no_toasts_def)

section \<open>A notice nobody closes stays\<close>

text \<open>The notice \<open>i\<close> is on the page and no timer but that of its 4000 ms touches it.\<close>

definition stays :: "toast_elem \<Rightarrow> toasts \<Rightarrow> bool" where
  "stays x s \<longleftrightarrow> x \<in> set (toastWrap s) \<and> toast_id x < toast_next s \<and>
     (\<forall>tm \<in> set (toast_timers s). timer_toast tm = toast_id x \<longrightarrow> tm = DismissAt (toast_shown x + 4000) (toast_id x))"

lemma stays_fire:
  assumes "stays x s" "timer_toast tm \<noteq> toast_id x"
  shows "stays x (fire_toast tm s)"
  using assms by (cases tm) (auto simp: stays_def dismissToast_def remove_toast_def image_iff)

lemma stays_fires: "stays x s \<Longrightarrow> \<forall>tm \<in> set tms. timer_toast tm \<noteq> toast_id x \<Longrightarrow> stays x (fold fire_toast tms s)"
  by (induction tms arbitrary: s) (simp_all add: stays_fire)

lemma stays_step:
  assumes "stays x s" "e \<noteq> ToastClosed (toast_id x)" "toast_clock (toast_step e s) < toast_shown x + 4000"
  shows "stays x (toast_step e s)"
proof (cases e)
  case (ToastShown msg tone)
  then show ?thesis using assms(1) by (auto simp: toast_step_def showToast_def Let_def stays_def)
next
  case (ToastClosed i)
  then show ?thesis using assms stays_fire [of x s "DismissAt 0 i"] by (simp add: toast_step_def)
next
  case ToastMillisecond
  let ?s1 = "s\<lparr>toast_clock := toast_clock s + 1,
    toast_timers := filter (\<lambda>tm. timer_due tm \<noteq> toast_clock s + 1) (toast_timers s)\<rparr>"
  have "stays x ?s1" using assms(1) by (simp add: stays_def)
  moreover have "toast_clock s + 1 < toast_shown x + 4000"
    using assms(3) ToastMillisecond by (simp add: toast_step_def toast_millisecond_def Let_def)
  then have "\<forall>tm \<in> set (filter (\<lambda>tm. timer_due tm = toast_clock s + 1) (toast_timers s)). timer_toast tm \<noteq> toast_id x"
    using assms(1) by (auto simp: stays_def)
  ultimately show ?thesis
    using stays_fires by (simp add: toast_step_def ToastMillisecond toast_millisecond_def Let_def)
qed

lemma toast_clock_mono: "toast_clock s \<le> toast_clock (toast_step e s)"
  by (cases e) (simp_all add: toast_step_def showToast_def toast_millisecond_def Let_def)

lemma toast_clock_run: "toast_clock s \<le> toast_clock (fold toast_step es s)"
proof (induction es arbitrary: s)
  case (Cons e es)
  then show ?case using toast_clock_mono [of s e] order_trans by fastforce
qed simp

lemma stays_run:
  "stays x s \<Longrightarrow> ToastClosed (toast_id x) \<notin> set es \<Longrightarrow> toast_clock (fold toast_step es s) < toast_shown x + 4000 \<Longrightarrow>
   stays x (fold toast_step es s)"
proof (induction es arbitrary: s)
  case (Cons e es)
  have "toast_clock (toast_step e s) < toast_shown x + 4000"
    using Cons.prems(3) toast_clock_run [of "toast_step e s" es] by simp
  moreover have "e \<noteq> ToastClosed (toast_id x)" using Cons.prems(2) by auto
  ultimately have "stays x (toast_step e s)" using Cons.prems(1) stays_step by blast
  then show ?case using Cons.IH [of "toast_step e s"] Cons.prems by simp
qed simp

section \<open>Properties\<close>

text \<open>C27: The life of a notice. Every notice on the page is younger than 4180 ms; and one whose button was not clicked is on
  the page, with its text and not leaving, for 4000 ms.\<close>

theorem toast_lifetime:
  assumes "s = fold toast_step before no_toasts" "s' = fold toast_step (ToastShown msg tone # later) s"
  shows "(\<forall>x \<in> set (toastWrap s'). toast_clock s' < toast_shown x + 4180) \<and>
    (ToastClosed (toast_next s) \<notin> set later \<and> toast_clock s' < toast_clock s + 4000 \<longrightarrow>
      (\<exists>x \<in> set (toastWrap s'). toast_id x = toast_next s \<and> toast_msg x = msg \<and> \<not> toast_leaving x))"
proof -
  have inv: "toasts_inv s" "toasts_inv s'"
    unfolding assms by (intro toasts_inv_run toasts_inv_start)+
  then have "\<forall>x \<in> set (toastWrap s'). toast_clock s' < toast_shown x + 4180"
    by (force simp: toasts_inv_def timers_ok_def ends_in_time_def split: if_splits)
  moreover have "\<exists>x \<in> set (toastWrap s'). toast_id x = toast_next s \<and> toast_msg x = msg \<and> \<not> toast_leaving x"
    if not_closed: "ToastClosed (toast_next s) \<notin> set later" and young: "toast_clock s' < toast_clock s + 4000"
  proof -
    let ?x = "\<lparr>toast_id = toast_next s, toast_kind = toast_tone tone, toast_msg = msg, toast_leaving = False,
      toast_shown = toast_clock s\<rparr>"
    have "stays ?x (showToast msg tone s)"
      using inv(1) by (auto simp: stays_def showToast_def Let_def toasts_inv_def timers_ok_def)
    then have "stays ?x s'" using stays_run [of ?x "showToast msg tone s" later] not_closed young
      by (simp add: assms(2) toast_step_def)
    then show ?thesis unfolding stays_def by force
  qed
  ultimately show ?thesis by blast
qed

lemma toast_lifetime_witness:
  "let s' = fold toast_step [ToastMillisecond, ToastShown (js ''saved'') (js ''ok''), ToastMillisecond] no_toasts
   in \<exists>x \<in> set (toastWrap s'). toast_id x = 0 \<and> toast_msg x = js ''saved'' \<and> \<not> toast_leaving x"
proof -
  have c: "toast_clock (fold toast_step [ToastMillisecond] no_toasts) = 1"
    "toast_next (fold toast_step [ToastMillisecond] no_toasts) = 0"
    "toast_clock (fold toast_step [ToastMillisecond, ToastShown (js ''saved'') (js ''ok''), ToastMillisecond] no_toasts) = 2"
    by (simp_all add: toast_step_def showToast_def toast_millisecond_def no_toasts_def Let_def)
  show ?thesis
    using toast_lifetime [OF refl refl, where before = "[ToastMillisecond]" and msg = "js ''saved''"
      and tone = "js ''ok''" and later = "[ToastMillisecond]"] c by (simp add: Let_def)
qed

end
