(* ===== verification/Vendors.thy ===== *)
theory Vendors
  imports View
begin

text \<open>
  The scripts that are loaded on demand (\<open>loadScriptOnce\<close>, \<open>loadMarkdownVendors\<close>, \<open>openShare\<close>): the table of
  promises, the script elements in the order they were made, and the callers that wait for scripts. A failed load
  takes its promise out of the table in the microtask that follows the event, before any caller sees the failure, so
  the two are one step.
\<close>

datatype outcome = InFlight | Arrived | Failed

datatype vendor_client = MarkdownReady | QrReady

text \<open>In \<open>vendorLoads\<close> a promise is \<open>True\<close> once it is fulfilled. A caller waits for the scripts listed with it.\<close>

record vendors =
  vendorLoads :: "jsstring \<Rightarrow> bool option"
  vendor_scripts :: "(jsstring \<times> outcome) list"
  vendor_waits :: "(vendor_client \<times> jsstring list) list"
  vendor_fired :: "vendor_client list"

definition loadScriptOnce :: "jsstring \<Rightarrow> vendors \<Rightarrow> vendors" where
  [js_eval]: "loadScriptOnce src s =
     (if vendorLoads s src \<noteq> None then s
      else s\<lparr>vendorLoads := (vendorLoads s)(src \<mapsto> False), vendor_scripts := vendor_scripts s @ [(src, InFlight)]\<rparr>)"

text \<open>\<open>Promise.all\<close> and \<open>then\<close>: a caller goes on when each of its promises is fulfilled.\<close>

definition await :: "vendor_client \<Rightarrow> jsstring list \<Rightarrow> vendors \<Rightarrow> vendors" where
  [js_eval]: "await c srcs s =
     (let missing = filter (\<lambda>src. vendorLoads s src \<noteq> Some True) srcs
      in if missing = [] then s\<lparr>vendor_fired := vendor_fired s @ [c]\<rparr>
         else s\<lparr>vendor_waits := vendor_waits s @ [(c, missing)]\<rparr>)"

definition loadMarkdownVendors :: "bool \<Rightarrow> bool \<Rightarrow> vendors \<Rightarrow> vendors" where
  [js_eval]: "loadMarkdownVendors marked hljs s =
     (let srcs = (if marked then [] else [js ''/static/vendor/marked.min.js'']) @
                 (if hljs then [] else [js ''/static/vendor/highlight.min.js''])
      in await MarkdownReady srcs (fold loadScriptOnce srcs s))"

text \<open>The preview that is switched on loads its scripts, in whatever state the first attempt left them.\<close>

definition togglePreview_load :: "bool \<Rightarrow> bool \<Rightarrow> bool \<Rightarrow> vendors \<Rightarrow> vendors" where
  [js_eval]: "togglePreview_load shown marked hljs s =
     (if shown then loadMarkdownVendors marked hljs s else s)"

definition openShare_load :: "bool \<Rightarrow> vendors \<Rightarrow> vendors" where
  [js_eval]: "openShare_load qrcode s =
     (if qrcode then s
      else let src = js ''/static/vendor/qrcode.min.js'' in await QrReady [src] (loadScriptOnce src s))"

definition script_onload :: "nat \<Rightarrow> vendors \<Rightarrow> vendors" where
  [js_eval]: "script_onload i s =
     (let src = fst (vendor_scripts s ! i);
          waits = map (\<lambda>(c, srcs). (c, filter (\<lambda>x. x \<noteq> src) srcs)) (vendor_waits s)
      in s\<lparr>vendorLoads := (vendorLoads s)(src \<mapsto> True), vendor_scripts := (vendor_scripts s)[i := (src, Arrived)],
           vendor_waits := filter (\<lambda>(c, srcs). srcs \<noteq> []) waits,
           vendor_fired := vendor_fired s @ map fst (filter (\<lambda>(c, srcs). srcs = []) waits)\<rparr>)"

text \<open>A failure also ends the wait of every caller that needed the script, whose \<open>catch\<close> keeps what is shown.\<close>

definition script_onerror :: "nat \<Rightarrow> vendors \<Rightarrow> vendors" where
  [js_eval]: "script_onerror i s =
     (let src = fst (vendor_scripts s ! i)
      in s\<lparr>vendorLoads := (vendorLoads s)(src := None), vendor_scripts := (vendor_scripts s)[i := (src, Failed)],
           vendor_waits := filter (\<lambda>(c, srcs). src \<notin> set srcs) (vendor_waits s)\<rparr>)"

definition no_vendors :: vendors where
  [js_eval]: "no_vendors = \<lparr>vendorLoads = (\<lambda>_. None), vendor_scripts = [], vendor_waits = [], vendor_fired = []\<rparr>"

text \<open>An element that is in flight arrives or fails, once; \<open>window.marked\<close> and the like are whatever the scripts set.\<close>

inductive vendor_step :: "vendors \<Rightarrow> vendors \<Rightarrow> bool" where
  preview: "vendor_step s (togglePreview_load shown marked hljs s)"
| share: "vendor_step s (openShare_load qrcode s)"
| onload: "i < length (vendor_scripts s) \<Longrightarrow> snd (vendor_scripts s ! i) = InFlight \<Longrightarrow> vendor_step s (script_onload i s)"
| onerror: "i < length (vendor_scripts s) \<Longrightarrow> snd (vendor_scripts s ! i) = InFlight \<Longrightarrow> vendor_step s (script_onerror i s)"

inductive vendors_reachable :: "vendors \<Rightarrow> bool" where
  start: "vendors_reachable no_vendors"
| step: "vendors_reachable s \<Longrightarrow> vendor_step s s' \<Longrightarrow> vendors_reachable s'"

section \<open>The invariant\<close>

text \<open>The elements of a source that did not fail: what the table says of it.\<close>

definition live_scripts :: "jsstring \<Rightarrow> vendors \<Rightarrow> outcome list" where
  [js_eval]: "live_scripts src s = map snd (filter (\<lambda>(x, out). x = src \<and> out \<noteq> Failed) (vendor_scripts s))"

definition expected :: "bool option \<Rightarrow> outcome list" where
  [js_eval]: "expected v = (case v of None \<Rightarrow> [] | Some False \<Rightarrow> [InFlight] | Some True \<Rightarrow> [Arrived])"

definition loads_ok :: "vendors \<Rightarrow> bool" where
  "loads_ok s \<longleftrightarrow> (\<forall>src. live_scripts src s = expected (vendorLoads s src))"

definition waits_ok :: "vendors \<Rightarrow> bool" where
  "waits_ok s \<longleftrightarrow> (\<forall>(c, srcs) \<in> set (vendor_waits s). srcs \<noteq> [] \<and> (\<forall>src \<in> set srcs. vendorLoads s src = Some False))"

lemma expected_simps [simp]:
  "expected None = []" "expected (Some False) = [InFlight]" "expected (Some True) = [Arrived]"
  by (simp_all add: expected_def)

lemma loads_once: "loads_ok s \<Longrightarrow> loads_ok (loadScriptOnce src s)"
  by (auto simp: loads_ok_def loadScriptOnce_def live_scripts_def)

lemma loads_once_all: "loads_ok s \<Longrightarrow> loads_ok (fold loadScriptOnce srcs s)"
  by (induction srcs arbitrary: s) (simp_all add: loads_once)

lemma waits_once: "waits_ok s \<Longrightarrow> waits_ok (loadScriptOnce src s)"
  by (fastforce simp: waits_ok_def loadScriptOnce_def)

lemma waits_once_all: "waits_ok s \<Longrightarrow> waits_ok (fold loadScriptOnce srcs s)"
  by (induction srcs arbitrary: s) (simp_all add: waits_once)

lemma once_loaded: "vendorLoads (loadScriptOnce src s) src \<noteq> None"
  "vendorLoads s x \<noteq> None \<Longrightarrow> vendorLoads (loadScriptOnce src s) x \<noteq> None"
  by (auto simp: loadScriptOnce_def)

lemma once_keeps: "vendorLoads s x \<noteq> None \<Longrightarrow> vendorLoads (fold loadScriptOnce srcs s) x \<noteq> None"
proof (induction srcs arbitrary: s)
  case (Cons src srcs)
  show ?case using Cons.IH [of "loadScriptOnce src s"] once_loaded(2) [OF Cons.prems] by simp
qed simp

lemma once_all_loaded: "src \<in> set srcs \<Longrightarrow> vendorLoads (fold loadScriptOnce srcs s) src \<noteq> None"
proof (induction srcs arbitrary: s)
  case (Cons x srcs)
  show ?case
  proof (cases "src = x")
    case True
    have "vendorLoads (fold loadScriptOnce srcs (loadScriptOnce src s)) src \<noteq> None"
      by (rule once_keeps) (rule once_loaded(1))
    then show ?thesis using True by simp
  next
    case False
    then show ?thesis using Cons by simp
  qed
qed simp

lemma await_ok:
  assumes "loads_ok s" "waits_ok s" "\<forall>src \<in> set srcs. vendorLoads s src \<noteq> None"
  shows "loads_ok (await c srcs s)" "waits_ok (await c srcs s)"
  using assms by (auto simp: await_def Let_def loads_ok_def live_scripts_def waits_ok_def)

lemma loaded_await_ok:
  assumes "loads_ok s" "waits_ok s"
  shows "loads_ok (await c srcs (fold loadScriptOnce srcs s)) \<and> waits_ok (await c srcs (fold loadScriptOnce srcs s))"
  using await_ok [of "fold loadScriptOnce srcs s" srcs c] assms loads_once_all waits_once_all once_all_loaded by blast

lemma live_update:
  assumes "loads_ok s" "i < length (vendor_scripts s)" "vendor_scripts s ! i = (src, InFlight)"
  shows "map snd (filter (\<lambda>(x, out). x = y \<and> out \<noteq> Failed) ((vendor_scripts s)[i := (src, r)])) =
    (if y = src then (if r = Failed then [] else [r]) else live_scripts y s)"
proof -
  let ?xs = "vendor_scripts s"
  let ?live = "\<lambda>y xs. map snd (filter (\<lambda>(x, out). x = y \<and> out \<noteq> Failed) xs)"
  have split: "?xs = take i ?xs @ (src, InFlight) # drop (Suc i) ?xs"
    using assms(2,3) id_take_nth_drop [of i ?xs] by simp
  have live: "live_scripts y s = ?live y (take i ?xs) @ (if y = src then [InFlight] else []) @ ?live y (drop (Suc i) ?xs)"
    for y unfolding live_scripts_def by (subst split) simp
  have "live_scripts src s = expected (vendorLoads s src)" using assms(1) by (simp add: loads_ok_def)
  then have "?live src (take i ?xs) @ InFlight # ?live src (drop (Suc i) ?xs) = expected (vendorLoads s src)"
    unfolding live by simp
  moreover have "length (expected v) \<le> 1" for v by (simp add: expected_def split: option.split bool.split)
  ultimately have "length (?live src (take i ?xs) @ InFlight # ?live src (drop (Suc i) ?xs)) \<le> 1" by simp
  then have "?live src (take i ?xs) = []" "?live src (drop (Suc i) ?xs) = []" by simp_all
  then show ?thesis
    using live [of y] assms(2) by (simp add: upd_conv_take_nth_drop)
qed

lemma onload_ok:
  assumes "loads_ok s" "waits_ok s" "i < length (vendor_scripts s)" "snd (vendor_scripts s ! i) = InFlight"
  shows "loads_ok (script_onload i s)" "waits_ok (script_onload i s)"
proof -
  obtain src where src: "vendor_scripts s ! i = (src, InFlight)" using assms(4) by (metis prod.collapse)
  show "loads_ok (script_onload i s)"
    using live_update [OF assms(1,3) src, where r = Arrived] assms(1)
    by (auto simp: loads_ok_def live_scripts_def script_onload_def Let_def src)
  show "waits_ok (script_onload i s)"
    using assms(2) by (fastforce simp: waits_ok_def script_onload_def Let_def src)
qed

lemma onerror_ok:
  assumes "loads_ok s" "waits_ok s" "i < length (vendor_scripts s)" "snd (vendor_scripts s ! i) = InFlight"
  shows "loads_ok (script_onerror i s)" "waits_ok (script_onerror i s)"
proof -
  obtain src where src: "vendor_scripts s ! i = (src, InFlight)" using assms(4) by (metis prod.collapse)
  show "loads_ok (script_onerror i s)"
    using live_update [OF assms(1,3) src, where r = Failed] assms(1)
    by (auto simp: loads_ok_def live_scripts_def script_onerror_def Let_def src)
  show "waits_ok (script_onerror i s)"
    using assms(2) by (fastforce simp: waits_ok_def script_onerror_def Let_def src)
qed

lemma vendors_ok: "vendors_reachable s \<Longrightarrow> loads_ok s \<and> waits_ok s"
proof (induction rule: vendors_reachable.induct)
  case start
  then show ?case by (simp add: loads_ok_def waits_ok_def no_vendors_def live_scripts_def)
next
  case (step s s')
  from step(2) step.IH show ?case
  proof cases
    case (preview shown marked hljs)
    have "loads_ok (loadMarkdownVendors marked hljs s) \<and> waits_ok (loadMarkdownVendors marked hljs s)"
      unfolding loadMarkdownVendors_def Let_def by (rule loaded_await_ok) (use step.IH in simp_all)
    then show ?thesis using step.IH by (simp add: preview togglePreview_load_def)
  next
    case (share qrcode)
    then show ?thesis using step.IH loaded_await_ok [of s QrReady "[js ''/static/vendor/qrcode.min.js'']"]
      by (simp add: openShare_load_def Let_def)
  qed (use step.IH onload_ok onerror_ok in auto)
qed

section \<open>Properties\<close>

text \<open>C26: Scripts on demand. At every moment a script has at most one element that did not fail, and has one exactly when
  its promise is in the table; and a caller waits only for scripts that are in flight, so none waits once all have
  arrived or failed.\<close>

theorem scripts_load_once:
  assumes "vendors_reachable s"
  shows "length (live_scripts src s) = (if vendorLoads s src = None then 0 else 1) \<and>
    ((\<forall>(x, out) \<in> set (vendor_scripts s). out \<noteq> InFlight) \<longrightarrow> vendor_waits s = [])"
proof -
  have ok: "loads_ok s" "waits_ok s" using vendors_ok assms by auto
  have "InFlight \<in> snd ` set (vendor_scripts s)" if waiting: "vendor_waits s \<noteq> []"
  proof -
    obtain w where w: "w \<in> set (vendor_waits s)" using waiting by (cases "vendor_waits s") auto
    obtain c srcs where c: "w = (c, srcs)" by (cases w)
    have "srcs \<noteq> []" "\<forall>x \<in> set srcs. vendorLoads s x = Some False" using ok(2) w c by (auto simp: waits_ok_def)
    then have "vendorLoads s (hd srcs) = Some False" by simp
    moreover have "live_scripts (hd srcs) s = expected (vendorLoads s (hd srcs))" using ok(1) by (simp add: loads_ok_def)
    ultimately have "InFlight \<in> set (live_scripts (hd srcs) s)" by simp
    then show ?thesis unfolding live_scripts_def by auto
  qed
  moreover have "live_scripts src s = expected (vendorLoads s src)" using ok(1) by (simp add: loads_ok_def)
  moreover have "length (expected v) = (if v = None then 0 else 1)" for v
    by (simp add: expected_def split: option.split bool.split)
  ultimately show ?thesis by force
qed

lemma scripts_load_once_witness:
  "let s = script_onload 2 (loadMarkdownVendors False False (script_onerror 0 (loadMarkdownVendors False False no_vendors)))
   in length (live_scripts (js ''/static/vendor/marked.min.js'') s) = 1"
proof -
  let ?s1 = "loadMarkdownVendors False False no_vendors"
  let ?s2 = "loadMarkdownVendors False False (script_onerror 0 ?s1)"
  have n: "js ''/static/vendor/marked.min.js'' \<noteq> js ''/static/vendor/highlight.min.js''" by (simp add: js_def)
  have scripts1: "vendor_scripts ?s1 = [(js ''/static/vendor/marked.min.js'', InFlight),
      (js ''/static/vendor/highlight.min.js'', InFlight)]"
    using n by (simp add: loadMarkdownVendors_def no_vendors_def loadScriptOnce_def await_def)
  have load: "vendor_step s (loadMarkdownVendors False False s)" for s
    using preview [of s True] by (simp add: togglePreview_load_def)
  have 1: "vendors_reachable ?s1" by (rule vendors_reachable.step [OF vendors_reachable.start load])
  have "vendors_reachable (script_onerror 0 ?s1)"
    by (rule vendors_reachable.step [OF 1], rule onerror) (simp_all add: scripts1)
  then have 2: "vendors_reachable ?s2" by (rule vendors_reachable.step) (rule load)
  have scripts: "vendor_scripts ?s2 = [(js ''/static/vendor/marked.min.js'', Failed),
      (js ''/static/vendor/highlight.min.js'', InFlight), (js ''/static/vendor/marked.min.js'', InFlight)]"
    using n by (simp add: loadMarkdownVendors_def no_vendors_def loadScriptOnce_def await_def script_onerror_def)
  have "vendors_reachable (script_onload 2 ?s2)"
    by (rule vendors_reachable.step [OF 2], rule onload) (simp_all add: scripts)
  moreover have "vendorLoads (script_onload 2 ?s2) (js ''/static/vendor/marked.min.js'') \<noteq> None"
    by (simp add: script_onload_def scripts Let_def)
  ultimately show ?thesis using scripts_load_once by (simp add: Let_def)
qed

end
