(* ===== verification/Mirror.thy ===== *)
theory Mirror
  imports View
begin

text \<open>
  The mirror of the editor (\<open>paintSelection\<close>, \<open>getCaretMetrics\<close> in \<open>static/app.js\<close>): the HTML in which the position
  of a peer's caret or selection is measured. The editor itself shows plain text, so the measured position is right
  only if the mirror shows the same text. \<open>read_html\<close> is what a browser shows of HTML of this kind: the characters
  the three entities stand for, a line break for \<open><br>\<close>, and nothing for other tags.
\<close>

section \<open>The HTML of the mirror\<close>

definition ends_with_newline :: "jsstring \<Rightarrow> bool" where
  [js_eval]: "ends_with_newline s \<longleftrightarrow> s \<noteq> [] \<and> last s = 10"

definition mark_open :: jsstring where
  [js_eval]: "mark_open = js ''<mark class='' @ [34] @ js ''mirror-sel'' @ [34] @ js ''>''"

definition caret_span :: jsstring where
  [js_eval]: "caret_span = js ''<span class='' @ [34] @ js ''mirror-caret'' @ [34] @ js ''>'' @ [0x200B] @ js ''</span>''"

text \<open>\<open>None\<close>: nothing is painted.\<close>

definition paintSelection :: "jsstring \<Rightarrow> jsnum \<Rightarrow> jsnum \<Rightarrow> jsstring option" where
  [js_eval]: "paintSelection text start0 end0 =
     (let start = clampPos start0 (length text); fin = clampPos end0 (length text)
      in if fin \<le> start then None
         else let before = escapeHTML (js_slice text 0 start);
                  mid0 = escapeHTML (js_slice text start fin);
                  after = escapeHTML (js_slice_from text fin);
                  mid = (if ends_with_newline (js_slice text start fin) then mid0 @ js ''<br>'' else mid0)
              in Some (before @ mark_open @ (if mid \<noteq> [] then mid else [0x200B]) @ js ''</mark>'' @ after))"

definition getCaretMetrics :: "jsstring \<Rightarrow> jsnum \<Rightarrow> jsstring" where
  [js_eval]: "getCaretMetrics text pos0 =
     (let pos = clampPos pos0 (length text);
          before0 = escapeHTML (js_slice text 0 pos);
          after = escapeHTML (js_slice_from text pos);
          before = (if pos = length text \<and> ends_with_newline text then before0 @ js ''<br>'' else before0)
      in before @ caret_span @ after)"

text \<open>
  The styles of the mirror: those of the editor for the properties that shape its text, as far as the browser supports
  them, and then those of a block that grows with its text.
\<close>

definition mirrored_props :: "jsstring list" where
  [js_eval]: "mirrored_props = [
     js ''boxSizing'', js ''width'', js ''font'', js ''fontFamily'', js ''fontSize'', js ''fontWeight'',
     js ''fontStyle'', js ''fontVariant'', js ''fontFeatureSettings'', js ''fontKerning'',
     js ''letterSpacing'', js ''wordSpacing'', js ''textIndent'', js ''textTransform'',
     js ''textAlign'', js ''lineHeight'', js ''tabSize'', js ''MozTabSize'', js ''whiteSpace'',
     js ''wordBreak'', js ''overflowWrap'', js ''wordWrap'', js ''paddingTop'', js ''paddingRight'',
     js ''paddingBottom'', js ''paddingLeft'', js ''borderTopWidth'', js ''borderRightWidth'',
     js ''borderBottomWidth'', js ''borderLeftWidth'', js ''borderTopStyle'',
     js ''borderRightStyle'', js ''borderBottomStyle'', js ''borderLeftStyle'']"

definition syncMirrorStyles :: "(jsstring \<Rightarrow> bool) \<Rightarrow> (jsstring \<Rightarrow> jsstring) \<Rightarrow> nat \<Rightarrow> nat \<Rightarrow>
    (jsstring \<Rightarrow> jsstring) \<Rightarrow> jsstring \<Rightarrow> jsstring" where
  [js_eval]: "syncMirrorStyles supported style clientWidth clientHeight mirror =
     (let px = (\<lambda>n. num_str n @ js ''px'');
          m = fold (\<lambda>p m. if supported p then m(p := style p) else m) mirrored_props mirror
      in m(js ''width'' := px clientWidth, js ''height'' := js ''auto'', js ''minHeight'' := px clientHeight,
           js ''borderColor'' := js ''transparent'', js ''overflow'' := js ''hidden'',
           js ''whiteSpace'' := js ''pre-wrap'', js ''wordWrap'' := js ''break-word'',
           js ''overflowWrap'' := js ''break-word''))"

section \<open>Reading HTML\<close>

function read_html :: "jsstring \<Rightarrow> jsstring" where
  "read_html [] = []"
| "read_html (u # us) =
     (if u = 38 then
        (if take 4 us = js ''amp;'' then 38 # read_html (drop 4 us)
         else if take 3 us = js ''lt;'' then 60 # read_html (drop 3 us)
         else if take 3 us = js ''gt;'' then 62 # read_html (drop 3 us)
         else 38 # read_html us)
      else if u = 60 then
        (if takeWhile (\<lambda>c. c \<noteq> 62) us = js ''br'' then [10] else []) @
        read_html (drop (Suc (length (takeWhile (\<lambda>c. c \<noteq> 62) us))) us)
      else u # read_html us)"
  by pat_completeness auto
termination by (relation "measure length") (auto simp: less_Suc_eq_le)

definition escape_unit :: "codeunit \<Rightarrow> jsstring" where
  [js_eval]: "escape_unit u =
     (if u = 38 then js ''&amp;'' else if u = 60 then js ''&lt;'' else if u = 62 then js ''&gt;''
      else if u = 10 then js ''<br>'' else [u])"

lemma replace_unit_simps [simp]:
  "replace_unit c r [] = []" "replace_unit c r (u # us) = (if u = c then r else [u]) @ replace_unit c r us"
  "replace_unit c r (xs @ ys) = replace_unit c r xs @ replace_unit c r ys"
  by (simp_all add: replace_unit_def)

lemma escapeHTML_simps [simp]:
  "escapeHTML [] = []" "escapeHTML (u # us) = escape_unit u @ escapeHTML us"
  by (simp_all add: escapeHTML_def escape_unit_def js_def)

lemma escapeHTML_append [simp]: "escapeHTML (xs @ ys) = escapeHTML xs @ escapeHTML ys"
  by (simp add: escapeHTML_def)

lemma read_escape_unit [simp]: "read_html (escape_unit u @ r) = u # read_html r"
  by (simp add: escape_unit_def js_def)

lemma read_escape [simp]: "read_html (escapeHTML s @ r) = s @ read_html r"
  by (induction s) simp_all

lemma read_br [simp]: "read_html (js ''<br>'' @ r) = 10 # read_html r"
  by (simp add: js_def)

lemma read_mark [simp]:
  "read_html (mark_open @ r) = read_html r" "read_html (js ''</mark>'' @ r) = read_html r"
  by (simp_all add: mark_open_def js_def)

lemma read_caret [simp]: "read_html (caret_span @ r) = 0x200B # read_html r"
  by (simp add: caret_span_def js_def)

lemma read_caret_last [simp]: "read_html caret_span = [0x200B]"
  using read_caret [of "[]"] by simp

lemma escapeHTML_empty [simp]: "escapeHTML s = [] \<longleftrightarrow> s = []"
  by (cases s) (simp_all add: escape_unit_def js_def)

section \<open>Properties\<close>

text \<open>C25: The mirror shows the text. What a browser shows of the mirror of a caret is the text before the caret, the
  zero-width mark and the text behind it, and what it shows of the mirror of a selection is the text; a line break
  more stands at the end of the text before the caret, or of the selection, where that ends a line.\<close>

theorem mirror_shows_text:
  "(let pos = clampPos p (length text)
    in read_html (getCaretMetrics text p) =
         take pos text @ (if pos = length text \<and> ends_with_newline text then [10] else []) @ [0x200B] @ drop pos text) \<and>
   (let start = clampPos p (length text); fin = clampPos q (length text)
    in map_option read_html (paintSelection text p q) =
         (if start < fin
          then Some (take fin text @ (if text ! (fin - 1) = 10 then [10] else []) @ drop fin text) else None))"
proof
  show "let pos = clampPos p (length text)
    in read_html (getCaretMetrics text p) =
         take pos text @ (if pos = length text \<and> ends_with_newline text then [10] else []) @ [0x200B] @ drop pos text"
    using read_escape [of "drop (clampPos p (length text)) text" "[]"]
    by (simp add: getCaretMetrics_def Let_def js_slice_def js_slice_from_def)
  define i j where "i = clampPos p (length text)" and "j = clampPos q (length text)"
  have le: "j \<le> length text" by (simp add: j_def clampPos_def split: jsnum.split)
  show "let start = clampPos p (length text); fin = clampPos q (length text)
    in map_option read_html (paintSelection text p q) =
         (if start < fin
          then Some (take fin text @ (if text ! (fin - 1) = 10 then [10] else []) @ drop fin text) else None)"
  proof (cases "i < j")
    case True
    have mid: "js_slice text i j \<noteq> []" "last (js_slice text i j) = text ! (j - 1)"
      using True le by (auto simp: js_slice_def last_conv_nth)
    have join: "take i text @ js_slice text i j = take j text"
      using True take_add [of i "j - i" "text"] by (simp add: js_slice_def)
    have "map_option read_html (paintSelection text p q) =
        Some ((take i text @ js_slice text i j) @ (if text ! (j - 1) = 10 then [10] else []) @ drop j text)"
      using True mid read_escape [of "drop j text" "[]"]
      by (simp add: paintSelection_def Let_def i_def [symmetric] j_def [symmetric] ends_with_newline_def
          js_slice_from_def del: append_assoc) (simp add: js_slice_def)
    then show ?thesis using True unfolding join by (simp add: Let_def i_def j_def)
  next
    case False
    then show ?thesis by (simp add: Let_def i_def j_def paintSelection_def)
  qed
qed

end
