(* ===== verification/FocusReturn.thy ===== *)
theory FocusReturn
  imports Page
begin

text \<open>
  Where the keyboard focus goes while dialogs open and close (\<open>setupModalFocus\<close>): the Tab key stays in the dialog it
  is trapped in, and a dialog that closes gives the focus back to the element that had it when the dialog opened.
  Elements are names; which elements of a dialog can be focused, and which elements are still on the page and shown,
  are arguments. The observer of the \<open>hidden\<close> attributes is called once for the changes of a task; each dialog here
  opens or closes in a task of its own.
\<close>

section \<open>The Tab key\<close>

text \<open>
  The element to focus instead of what the browser would, \<open>None\<close> to leave the key alone: \<open>els\<close> are the elements of the
  dialog that can be focused, \<open>inside\<close> says whether the focus is in the dialog.
\<close>

definition tab_pressed :: "'el list \<Rightarrow> bool \<Rightarrow> 'el \<Rightarrow> bool \<Rightarrow> 'el option" where
  [js_eval]: "tab_pressed els inside active shift =
     (if els = [] then None
      else if \<not> inside then Some (if shift then last els else hd els)
      else if shift \<and> active = hd els then Some (last els)
      else if \<not> shift \<and> active = last els then Some (hd els) else None)"

text \<open>Where the focus is after the key when the browser moves it, if it is left to, to the neighbour in \<open>els\<close>.\<close>

fun after :: "'el \<Rightarrow> 'el list \<Rightarrow> 'el option" where
  "after x (y # z # zs) = (if x = y then Some z else after x (z # zs))"
| "after x ys = None"

definition tab_moves :: "'el list \<Rightarrow> bool \<Rightarrow> 'el \<Rightarrow> bool \<Rightarrow> 'el option" where
  [js_eval]: "tab_moves els inside active shift =
     (case tab_pressed els inside active shift of
        Some x \<Rightarrow> Some x
      | None \<Rightarrow> if shift then after active (rev els) else after active els)"

lemma after_in: "x \<in> set ys \<Longrightarrow> ys \<noteq> [] \<Longrightarrow> x \<noteq> last ys \<Longrightarrow> \<exists>z \<in> set ys. after x ys = Some z"
  by (induction x ys rule: after.induct) auto

lemma tab_stays_inside:
  assumes "els \<noteq> []" "inside \<Longrightarrow> active \<in> set els"
  shows "\<exists>x \<in> set els. tab_moves els inside active shift = Some x"
proof (cases "tab_pressed els inside active shift")
  case None
  then have "inside" "shift \<Longrightarrow> active \<noteq> hd els" "\<not> shift \<Longrightarrow> active \<noteq> last els"
    using assms(1) by (auto simp: tab_pressed_def split: if_splits)
  then show ?thesis
    using None assms after_in [of active els] after_in [of active "rev els"]
    by (cases shift) (auto simp: tab_moves_def last_rev)
next
  case (Some x)
  then show ?thesis using assms(1) by (auto simp: tab_moves_def tab_pressed_def split: if_splits)
qed

section \<open>The observer\<close>

text \<open>
  A record of the observer: the dialog, whether the attribute was there before, and whether the dialog is hidden now.
  The state is the focused element and the stack of elements to give the focus back to, its top first.
\<close>

definition observed :: "(dialog \<Rightarrow> 'el list) \<Rightarrow> ('el \<Rightarrow> bool) \<Rightarrow> dialog \<times> bool \<times> bool \<Rightarrow> 'el \<times> 'el list \<Rightarrow> 'el \<times> 'el list" where
  [js_eval]: "observed focusablesIn onPage r s =
     (case (r, s) of ((d, wasHidden, hidden), (active, openReturn)) \<Rightarrow>
        if \<not> hidden \<and> wasHidden then
          (if focusablesIn d \<noteq> [] then hd (focusablesIn d) else active, active # openReturn)
        else if hidden \<and> \<not> wasHidden then
          (case openReturn of [] \<Rightarrow> (active, [])
           | back # rest \<Rightarrow> (if onPage back then back else active, rest))
        else (active, openReturn))"

datatype 'el focus_event = Opened dialog | Closed dialog | Moved 'el

text \<open>Between two records the user, or the browser when it hides the focused element, may move the focus.\<close>

fun focus_step :: "(dialog \<Rightarrow> 'el list) \<Rightarrow> ('el \<Rightarrow> bool) \<Rightarrow> 'el focus_event \<Rightarrow> 'el \<times> 'el list \<Rightarrow> 'el \<times> 'el list" where
  "focus_step focusablesIn onPage (Opened d) s = observed focusablesIn onPage (d, True, False) s"
| "focus_step focusablesIn onPage (Closed d) s = observed focusablesIn onPage (d, False, True) s"
| "focus_step focusablesIn onPage (Moved x) s = (x, snd s)"

definition focus_run :: "(dialog \<Rightarrow> 'el list) \<Rightarrow> ('el \<Rightarrow> bool) \<Rightarrow> 'el focus_event list \<Rightarrow> 'el \<times> 'el list \<Rightarrow> 'el \<times> 'el list" where
  [js_eval]: "focus_run focusablesIn onPage es s = fold (focus_step focusablesIn onPage) es s"

text \<open>Events in which every dialog that opens closes before those that were open when it opened.\<close>

inductive nested :: "'el focus_event list \<Rightarrow> bool" where
  none: "nested []"
| moved: "nested es \<Longrightarrow> nested (Moved x # es)"
| dialog: "nested es \<Longrightarrow> nested fs \<Longrightarrow> nested (Opened d # es @ Closed d # fs)"

lemma focus_run_simps [simp]:
  "focus_run f p [] s = s" "focus_run f p (e # es) s = focus_run f p es (focus_step f p e s)"
  "focus_run f p (es @ fs) s = focus_run f p fs (focus_run f p es s)"
  by (simp_all add: focus_run_def)

lemma observed_snd [simp]:
  "snd (observed f p (d, True, False) s) = fst s # snd s" "snd (observed f p (d, False, True) s) = tl (snd s)"
  by (cases s; simp add: observed_def split: list.split)+

lemma nested_stack: "nested es \<Longrightarrow> snd (focus_run f p es s) = snd s"
  by (induction arbitrary: s rule: nested.induct) simp_all

lemma closed_returns: "snd s = back # rest \<Longrightarrow> fst (observed f p (d, False, True) s) = (if p back then back else fst s)"
  by (cases s) (simp add: observed_def)

section \<open>Properties\<close>

text \<open>C28: The focus comes back. However the focus is moved and further dialogs open and close while a dialog is open, the
  element that had the focus when it opened has it again when it closes, if it is still on the page; and nothing is
  left on the stack.\<close>

theorem focus_returns:
  assumes "nested es"
  shows "snd (focus_run focusablesIn onPage (Opened d # es @ [Closed d]) (active, openReturn)) = openReturn \<and>
    (onPage active \<longrightarrow> fst (focus_run focusablesIn onPage (Opened d # es @ [Closed d]) (active, openReturn)) = active)"
proof -
  let ?s = "focus_run focusablesIn onPage es (observed focusablesIn onPage (d, True, False) (active, openReturn))"
  have "snd ?s = active # openReturn" using nested_stack [OF assms] by simp
  then show ?thesis using closed_returns [of ?s active openReturn focusablesIn onPage d] by simp
qed

lemma focus_returns_witness:
  "fst (focus_run (\<lambda>d. [js ''cancel'', js ''ok'']) (\<lambda>_. True)
     (Opened HistoryDialog # [Moved (js ''ok''), Opened PreviewDialog, Closed PreviewDialog] @ [Closed HistoryDialog])
     (js ''historyBtn'', [])) = js ''historyBtn''"
proof -
  have "nested [Moved (js ''ok''), Opened PreviewDialog, Closed PreviewDialog]"
    using nested.dialog [OF nested.none nested.none, of PreviewDialog] by (auto intro: nested.moved)
  then show ?thesis using focus_returns by fastforce
qed

text \<open>When a dialog opens and closes in one task the observer sees two records with the dialog hidden: the first is passed
  over, the second takes the element of another dialog from the stack.\<close>

lemma same_task_pops:
  "fold (observed f p) [(d, True, True), (d, False, True)] (active, back # rest) =
     (if p back then back else active, rest)"
  by (simp add: observed_def)

end
